(* ===== verification/Auto_Prelude.thy ===== *)
theory Auto_Prelude
  imports Main "HOL-Library.Word"
begin

text \<open>
  Shared vocabulary of the development: the C integer types as fixed-width words, loops
  over an array that stop at the first match, little-endian byte layouts, byte sums, and
  circular buffers with the two overflow policies the code uses (drop the oldest entry,
  refuse the newest one).  The two policies are interfaces, stated as locales and
  interpreted by every component that owns such a buffer.
\<close>

section \<open>C integer types\<close>

type_synonym u8 = "8 word"
type_synonym u16 = "16 word"
type_synonym u32 = "32 word"
type_synonym u64 = "64 word"

named_theorems c_simps \<open>unfoldings of the code's small helper definitions\<close>

lemma unat_u16_of_nat: "n < 65536 \<Longrightarrow> unat (word_of_nat n :: u16) = n"
  by (simp add: unat_of_nat)

lemma unat_u32_of_nat: "n < 4294967296 \<Longrightarrow> unat (word_of_nat n :: u32) = n"
  by (simp add: unat_of_nat)

lemma unat_lt_u8: "unat (w :: u8) < 256"
  using unsigned_less [of w] by simp

lemma unat_lt_u16: "unat (w :: u16) < 65536"
  using unsigned_less [of w] by simp

lemma unat_lt_u32: "unat (w :: u32) < 4294967296"
  using unsigned_less [of w] by simp

text \<open>The increment of a word that is below a bound does not wrap.\<close>

lemma unat_inc:
  fixes w :: "'a::len word"
  assumes "Suc (unat w) < 2 ^ LENGTH('a)"
  shows "unat (w + 1) = Suc (unat w)"
  using assms by (simp add: unat_word_ariths)

lemma unat_dec: "0 < unat w \<Longrightarrow> unat (w - 1) = unat w - 1"
  by (simp add: unat_sub_if' Suc_le_eq)

section \<open>Array loops with a break\<close>

text \<open>
  \<open>for (i = 0; i < n; i++) if (P(a[i])) { update a[i]; break; }\<close>
\<close>

fun update_first :: "('a \<Rightarrow> bool) \<Rightarrow> ('a \<Rightarrow> 'a) \<Rightarrow> 'a list \<Rightarrow> 'a list" where
  "update_first P f [] = []"
| "update_first P f (x # xs) = (if P x then f x # xs else x # update_first P f xs)"

lemma length_update_first [simp]: "length (update_first P f xs) = length xs"
  by (induction xs) auto

lemma update_first_none: "\<forall>x \<in> set xs. \<not> P x \<Longrightarrow> update_first P f xs = xs"
  by (induction xs) auto

lemma map_update_first: "(\<And>x. g (f x) = g x) \<Longrightarrow> map g (update_first P f xs) = map g xs"
  by (induction xs) auto

lemma nth_update_first:
  "i < length xs \<Longrightarrow>
   update_first P f xs ! i =
     (if P (xs ! i) \<and> (\<forall>j < i. \<not> P (xs ! j)) then f (xs ! i) else xs ! i)"
proof (induction xs arbitrary: i)
  case Nil
  then show ?case by simp
next
  case (Cons x xs)
  show ?case
  proof (cases i)
    case 0
    then show ?thesis by simp
  next
    case (Suc k)
    have "(\<forall>j < Suc k. \<not> P ((x # xs) ! j)) \<longleftrightarrow> \<not> P x \<and> (\<forall>j < k. \<not> P (xs ! j))"
      by (simp add: All_less_Suc2)
    then show ?thesis
      using Cons.IH [of k] Cons.prems Suc by auto
  qed
qed

lemma set_update_first: "y \<in> set (update_first P f xs) \<Longrightarrow> y \<in> set xs \<or> (\<exists>x \<in> set xs. P x \<and> y = f x)"
  by (induction xs) (auto split: if_splits)

text \<open>A search loop over \<open>0 .. n - 1\<close> finds the least index that satisfies its test.\<close>

lemma find_upt_Some: "find P [0..<n] = Some i \<longleftrightarrow> i < n \<and> P i \<and> (\<forall>j < i. \<not> P j)"
  by (auto simp: find_Some_iff)

lemma find_upt_set:
  "find P [0..<n] = (if {i. i < n \<and> P i} = {} then None else Some (LEAST i. i \<in> {i. i < n \<and> P i}))"
proof (cases "{i. i < n \<and> P i} = {}")
  case True
  then show ?thesis by (auto simp: find_None_iff)
next
  case False
  define i where "i = (LEAST i. i < n \<and> P i)"
  have "i < n \<and> P i"
    unfolding i_def by (rule LeastI_ex) (use False in auto)
  moreover have "\<not> P j" if "j < i" for j
    using that not_less_Least [of j "\<lambda>i. i < n \<and> P i"] \<open>i < n \<and> P i\<close> by (auto simp: i_def)
  ultimately have "find P [0..<n] = Some i"
    by (simp add: find_upt_Some)
  then show ?thesis using False by (simp add: i_def)
qed

section \<open>Byte layouts and byte sums\<close>

text \<open>The bytes of a little-endian integer, as a C program sees them through a
  \<open>uint8_t *\<close>.\<close>

definition le16 :: "u16 \<Rightarrow> u8 list" where
  "le16 w = [ucast w, ucast (drop_bit 8 w)]"

definition le32 :: "u32 \<Rightarrow> u8 list" where
  "le32 w = [ucast w, ucast (drop_bit 8 w), ucast (drop_bit 16 w), ucast (drop_bit 24 w)]"

lemma length_le16 [simp]: "length (le16 w) = 2"
  by (simp add: le16_def)

lemma length_le32 [simp]: "length (le32 w) = 4"
  by (simp add: le32_def)

definition of_le16 :: "u8 \<Rightarrow> u8 \<Rightarrow> u16" where
  "of_le16 a b = ucast a + push_bit 8 (ucast b)"

definition of_le32 :: "u8 \<Rightarrow> u8 \<Rightarrow> u8 \<Rightarrow> u8 \<Rightarrow> u32" where
  "of_le32 a b c d =
     ucast a + push_bit 8 (ucast b) + push_bit 16 (ucast c) + push_bit 24 (ucast d)"

lemma unat_ucast_u8_u16: "unat (ucast (w :: u16) :: u8) = unat w mod 256"
  by (simp add: unsigned_ucast_eq take_bit_eq_mod)

lemma unat_ucast_u32_u64: "unat (ucast (w :: u32) :: u64) = unat w"
proof -
  have "unat w < 2 ^ LENGTH(32)" by (rule unsigned_less)
  then have "unat w < 2 ^ 64" by simp
  then show ?thesis by (simp add: unsigned_ucast_eq take_bit_nat_eq_self)
qed

lemma unat_drop8_u16: "unat (ucast (drop_bit 8 (w :: u16)) :: u8) = unat w div 256"
proof -
  have "unat w div 256 < 256"
    using unat_lt_u16 [of w] by simp
  moreover have "unat (drop_bit 8 w) = unat w div 256"
    by (simp add: drop_bit_eq_div unat_div)
  ultimately show ?thesis
    by (simp add: unsigned_ucast_eq take_bit_eq_mod)
qed

lemma of_le16_le16: "le16 w = [a, b] \<Longrightarrow> of_le16 a b = w"
proof -
  assume "le16 w = [a, b]"
  then have a: "unat a = unat w mod 256" and b: "unat b = unat w div 256"
    by (auto simp: le16_def simp flip: unat_ucast_u8_u16 unat_drop8_u16)
  have "unat (push_bit 8 (ucast b) :: u16) = 256 * unat b"
    using unat_lt_u8 [of b]
    by (simp add: push_bit_eq_mult unat_word_ariths unsigned_ucast_eq take_bit_eq_mod)
  then have "unat (of_le16 a b) = (unat w mod 256 + 256 * (unat w div 256)) mod 65536"
    using a b unat_lt_u8 [of a]
    by (simp add: of_le16_def unat_word_ariths unsigned_ucast_eq take_bit_eq_mod)
  then have "unat (of_le16 a b) = unat w"
    using unat_lt_u16 [of w] by (simp add: mod_mult_div_eq)
  then show ?thesis by (simp add: word_unat_eq_iff)
qed

lemma byte_of_u32:
  "(ucast (ucast (drop_bit k (w :: u32)) :: u8) :: u32) = word_of_nat (unat w div 2 ^ k mod 256)"
proof -
  have "unat w < 4294967296" by (rule unat_lt_u32)
  then have "unat (ucast (drop_bit k w) :: u8) = unat w div 2 ^ k mod 256"
    by (simp add: unsigned_ucast_eq unsigned_drop_bit_eq take_bit_eq_mod) (simp add: drop_bit_eq_div)
  moreover have "(ucast b :: u32) = word_of_nat (unat b)" for b :: u8 by simp
  ultimately show ?thesis by metis
qed

lemma nat_bytes4:
  assumes n: "(n :: nat) < 4294967296"
  shows "n mod 256 + 256 * (n div 256 mod 256) + 65536 * (n div 65536 mod 256) +
         16777216 * (n div 16777216 mod 256) = n"
proof -
  define a b c where "a = n div 256" and "b = a div 256" and "c = b div 256"
  have d: "n div 65536 = b" "n div 16777216 = c"
    by (simp_all add: a_def b_def c_def flip: div_mult2_eq)
  have "c < 256" using n d(2) by (simp add: div_less_iff_less_mult flip: d(2))
  then have "c mod 256 = c" by simp
  moreover have "n = 256 * a + n mod 256" "a = 256 * b + a mod 256" "b = 256 * c + b mod 256"
    by (simp_all add: a_def b_def c_def)
  ultimately show ?thesis unfolding d a_def [symmetric] by linarith
qed

lemma of_le32_le32:
  "of_le32 (ucast w) (ucast (drop_bit 8 w)) (ucast (drop_bit 16 w)) (ucast (drop_bit 24 w)) = w"
proof -
  have "of_le32 (ucast w) (ucast (drop_bit 8 w)) (ucast (drop_bit 16 w)) (ucast (drop_bit 24 w)) =
    word_of_nat (unat w mod 256 + 256 * (unat w div 256 mod 256) + 65536 * (unat w div 65536 mod 256) +
      16777216 * (unat w div 16777216 mod 256))"
    using byte_of_u32 [of 0 w] byte_of_u32 [of 8 w] byte_of_u32 [of 16 w] byte_of_u32 [of 24 w]
    by (simp add: of_le32_def push_bit_eq_mult algebra_simps)
  then show ?thesis unfolding nat_bytes4 [OF unat_lt_u32] by simp
qed

text \<open>The other direction: the bytes of an assembled integer.\<close>

lemma unat_of_le16: "unat (of_le16 a b) = unat a + 256 * unat b"
proof -
  have "unat a + 256 * unat b < 65536" using unat_lt_u8 [of a] unat_lt_u8 [of b] by simp
  then show ?thesis
    by (simp add: of_le16_def push_bit_eq_mult unat_word_ariths unsigned_ucast_eq take_bit_eq_mod)
qed

lemma unat_of_le32:
  "unat (of_le32 a b c d) = unat a + 256 * unat b + 65536 * unat c + 16777216 * unat d"
proof -
  have "unat a + 256 * unat b + 65536 * unat c + 16777216 * unat d < 4294967296"
    using unat_lt_u8 [of a] unat_lt_u8 [of b] unat_lt_u8 [of c] unat_lt_u8 [of d] by simp
  then show ?thesis
    by (simp add: of_le32_def push_bit_eq_mult unat_word_ariths unsigned_ucast_eq take_bit_eq_mod)
qed

lemma u8_eqI: "unat x mod 256 = unat (a :: u8) \<Longrightarrow> ucast x = a" for x :: "'a :: len word"
  by (simp add: word_unat_eq_iff unsigned_ucast_eq take_bit_eq_mod)

lemma le16_of_le16: "le16 (of_le16 a b) = [a, b]"
proof -
  have "unat a < 256" "unat b < 256" using unat_lt_u8 [of a] unat_lt_u8 [of b] by simp_all
  then show ?thesis
    by (auto simp: le16_def drop_bit_eq_div unat_div unat_of_le16 intro!: u8_eqI)
qed

lemma bytes_of_nat:
  fixes n :: nat
  assumes n: "n = a + 256 * m" and m: "m = b + 256 * k" and k: "k = c + 256 * d"
    and "a < 256" "b < 256" "c < 256" "d < 256"
  shows "n mod 256 = a" "n div 256 mod 256 = b" "n div 65536 mod 256 = c" "n div 16777216 mod 256 = d"
proof -
  have "n div 65536 = n div 256 div 256" "n div 16777216 = n div 256 div 256 div 256"
    by (simp_all flip: div_mult2_eq)
  moreover have "n div 256 = m" unfolding n using assms(4) by simp
  moreover have "m div 256 = k" unfolding m using assms(5) by simp
  moreover have "k div 256 = d" unfolding k using assms(6) by simp
  moreover have "n mod 256 = a" unfolding n using assms(4) by simp
  moreover have "m mod 256 = b" unfolding m using assms(5) by simp
  moreover have "k mod 256 = c" unfolding k using assms(6) by simp
  ultimately show "n mod 256 = a" "n div 256 mod 256 = b" "n div 65536 mod 256 = c" "n div 16777216 mod 256 = d"
    using assms(7) by simp_all
qed

lemma le32_of_le32: "le32 (of_le32 a b c d) = [a, b, c, d]"
proof -
  note bs = bytes_of_nat [of "unat (of_le32 a b c d)" "unat a" _ "unat b" _ "unat c" "unat d",
      OF _ refl refl unat_lt_u8 unat_lt_u8 unat_lt_u8 unat_lt_u8, unfolded unat_of_le32, simplified]
  show ?thesis
    using bs by (auto simp: le32_def drop_bit_eq_div unat_div unat_of_le32 intro!: u8_eqI)
qed

definition sum_bytes :: "u8 list \<Rightarrow> nat" where
  "sum_bytes bs = (\<Sum>b \<leftarrow> bs. unat b)"

lemma sum_bytes_simps [simp]:
  "sum_bytes [] = 0"
  "sum_bytes (b # bs) = unat b + sum_bytes bs"
  "sum_bytes (bs @ cs) = sum_bytes bs + sum_bytes cs"
  by (simp_all add: sum_bytes_def)

lemma sum_bytes_le16: "sum_bytes (le16 w) = unat w mod 256 + unat w div 256"
  using unat_ucast_u8_u16 [of w] unat_drop8_u16 [of w] by (simp add: le16_def)

lemma sum_bytes_le: "sum_bytes bs \<le> 255 * length bs"
proof (induction bs)
  case Nil
  then show ?case by simp
next
  case (Cons b bs)
  then show ?case using unat_lt_u8 [of b] by simp
qed

lemma sum_bytes_list_update:
  "i < length bs \<Longrightarrow> sum_bytes (bs[i := b]) + unat (bs ! i) = sum_bytes bs + unat b"
  by (induction bs arbitrary: i) (auto split: nat.splits)

text \<open>\<open>checksum = 0; for (...) checksum += data[i];\<close> with a 16-bit and a 32-bit
  accumulator.\<close>

definition checksum16 :: "u8 list \<Rightarrow> u16" where
  "checksum16 bs = foldl (\<lambda>c b. c + ucast b) 0 bs"

definition checksum32 :: "u8 list \<Rightarrow> u32" where
  "checksum32 bs = foldl (\<lambda>c b. c + ucast b) 0 bs"

lemma foldl_add_bytes:
  "foldl (\<lambda>c b. c + ucast b) c bs = (c + word_of_nat (sum_bytes bs) :: 'a::len word)"
proof (induction bs arbitrary: c)
  case Nil
  then show ?case by simp
next
  case (Cons b bs)
  have "(ucast b :: 'a word) = word_of_nat (unat b)"
    by simp
  then show ?case
    using Cons.IH [of "c + ucast b"] by (simp add: add.assoc)
qed

lemma checksum16_eq: "checksum16 bs = word_of_nat (sum_bytes bs)"
  by (simp add: checksum16_def foldl_add_bytes)

lemma checksum32_eq: "checksum32 bs = word_of_nat (sum_bytes bs)"
  by (simp add: checksum32_def foldl_add_bytes)

lemma ucast_checksum32: "ucast (checksum32 bs) = checksum16 bs"
proof -
  have "(ucast (word_of_nat n :: u32) :: u16) = word_of_nat n" for n
    by (simp add: word_unat_eq_iff unat_of_nat unsigned_ucast_eq take_bit_eq_mod mod_mod_cancel)
  then show ?thesis by (simp add: checksum32_eq checksum16_eq)
qed

section \<open>Circular buffers\<close>

text \<open>The next index, computed as C computes \<open>(i + 1) % n\<close> on promoted 16-bit values.\<close>

definition idx_next :: "u16 \<Rightarrow> u16 \<Rightarrow> u16" where
  "idx_next i n = word_of_nat ((unat i + 1) mod unat n)"

lemma unat_idx_next: "0 < unat n \<Longrightarrow> unat (idx_next i n) = (unat i + 1) mod unat n"
proof -
  assume "0 < unat n"
  then have "(unat i + 1) mod unat n < unat n" by simp
  then have "(unat i + 1) mod unat n < 65536"
    using unat_lt_u16 [of n] by linarith
  then show ?thesis by (simp only: idx_next_def unat_u16_of_nat)
qed

text \<open>The \<open>n\<close> elements of a circular array that start at index \<open>r\<close>.\<close>

definition ring_view :: "'a list \<Rightarrow> nat \<Rightarrow> nat \<Rightarrow> 'a list" where
  "ring_view xs r n = map (\<lambda>i. xs ! ((r + i) mod length xs)) [0..<n]"

lemma length_ring_view [simp]: "length (ring_view xs r n) = n"
  by (simp add: ring_view_def)

lemma ring_view_0 [simp]: "ring_view xs r 0 = []"
  by (simp add: ring_view_def)

lemma ring_view_Suc: "ring_view xs r (Suc n) = ring_view xs r n @ [xs ! ((r + n) mod length xs)]"
  by (simp add: ring_view_def)

lemma ring_view_Cons:
  "ring_view xs r (Suc n) = xs ! (r mod length xs) # ring_view xs ((r + 1) mod length xs) n"
proof -
  have "map (\<lambda>i. xs ! ((r + i) mod length xs)) [1..<Suc n] =
        map (\<lambda>i. xs ! (((r + 1) mod length xs + i) mod length xs)) [0..<n]"
    by (simp add: map_upt_Suc [symmetric] map_Suc_upt [symmetric] mod_add_left_eq del: upt_Suc map_upt_Suc)
  then show ?thesis
    by (simp add: ring_view_def upt_conv_Cons del: upt_Suc)
qed

lemma mod_distinct_offset:
  fixes r i n m :: nat
  assumes "i < n" and "n < m"
  shows "(r + i) mod m \<noteq> (r + n) mod m"
proof
  assume "(r + i) mod m = (r + n) mod m"
  then have "m dvd (r + n) - (r + i)"
    using assms by (metis mod_eq_dvd_iff_nat add_le_cancel_left less_imp_le)
  then have "m dvd n - i" by simp
  then show False
    using assms by (metis dvd_imp_le diff_le_self le_trans not_less zero_less_diff)
qed

text \<open>Writing behind the last element appends it to the view.\<close>

lemma ring_view_put:
  assumes "n < length xs"
  shows "ring_view (xs[(r + n) mod length xs := x]) r (Suc n) = ring_view xs r n @ [x]"
proof -
  have "ring_view (xs[(r + n) mod length xs := x]) r n = ring_view xs r n"
    unfolding ring_view_def using assms
    by (auto simp: mod_distinct_offset [THEN not_sym])
  moreover have "(r + n) mod length xs < length xs"
    using assms by (intro mod_less_divisor) linarith
  ultimately show ?thesis
    by (simp add: ring_view_Suc)
qed

text \<open>Advancing the read index drops the oldest element.\<close>

lemma ring_view_drop: "ring_view xs ((r + 1) mod length xs) n = tl (ring_view xs r (Suc n))"
  by (simp add: ring_view_Cons)

text \<open>Writing into a full buffer replaces the oldest element by the newest.\<close>

lemma ring_view_overwrite:
  assumes "r < length xs"
  shows "ring_view (xs[r := x]) ((r + 1) mod length xs) (length xs) =
         tl (ring_view xs r (length xs)) @ [x]"
proof -
  let ?n = "length xs" and ?r = "(r + 1) mod length xs"
  obtain m where m: "?n = Suc m" using assms by (cases ?n) auto
  have w: "(?r + m) mod ?n = r"
  proof -
    have "(?r + m) mod ?n = (r + 1 + m) mod ?n"
      by (simp only: mod_add_left_eq)
    also have "\<dots> = (r + ?n) mod ?n"
      using m by simp
    also have "\<dots> = r"
      using assms by simp
    finally show ?thesis .
  qed
  have "ring_view (xs[r := x]) ?r (Suc m) = ring_view xs ?r m @ [x]"
    using ring_view_put [of m xs ?r x] unfolding w using m by simp
  moreover have "ring_view xs ?r m = tl (ring_view xs r ?n)"
    using ring_view_drop [of xs r m] by (simp only: m)
  ultimately show ?thesis by (simp only: m)
qed

section \<open>Runs of operations with accounting\<close>

text \<open>A sequence of calls of one operation, with the results in order.\<close>

fun run_calls :: "('i \<Rightarrow> 's \<Rightarrow> 'r \<times> 's) \<Rightarrow> 'i list \<Rightarrow> 's \<Rightarrow> 'r list \<times> 's" where
  "run_calls step [] s = ([], s)"
| "run_calls step (i # is) s =
     (let (r, s1) = step i s; (rs, s2) = run_calls step is s1 in (r # rs, s2))"

lemma length_run_calls [simp]: "length (fst (run_calls step is s)) = length is"
  by (induction "is" arbitrary: s) (auto simp: Let_def split_def)

text \<open>
  An operation that keeps two counters in its state: calls that succeeded and calls that
  failed.
\<close>

locale accounted_operation =
  fixes step :: "'i \<Rightarrow> 's \<Rightarrow> 'r \<times> 's"
    and good :: "'r \<Rightarrow> bool"
    and oks :: "'s \<Rightarrow> 'a::len word"
    and errs :: "'s \<Rightarrow> 'a word"
  assumes step_oks: "oks (snd (step i s)) = (if good (fst (step i s)) then oks s + 1 else oks s)"
    and step_errs: "errs (snd (step i s)) = (if good (fst (step i s)) then errs s else errs s + 1)"
begin

lemma run_oks:
  "oks (snd (run_calls step is s)) =
   oks s + word_of_nat (length (filter good (fst (run_calls step is s))))"
proof (induction "is" arbitrary: s)
  case Nil
  then show ?case by simp
next
  case (Cons i "is")
  then show ?case
    using step_oks [of i s] by (auto simp: Let_def add.assoc split_def)
qed

lemma run_errs:
  "errs (snd (run_calls step is s)) =
   errs s + word_of_nat (length (filter (\<lambda>r. \<not> good r) (fst (run_calls step is s))))"
proof (induction "is" arbitrary: s)
  case Nil
  then show ?case by simp
next
  case (Cons i "is")
  then show ?case
    using step_errs [of i s] by (auto simp: Let_def add.assoc split_def)
qed

text \<open>Nothing is lost: the two counters together advance by the number of calls.\<close>

lemma run_total:
  "oks (snd (run_calls step is s)) + errs (snd (run_calls step is s)) =
   oks s + errs s + word_of_nat (length is)"
proof -
  have "length (filter good rs) + length (filter (\<lambda>r. \<not> good r) rs) = length rs" for rs
    by (rule sum_length_filter_compl)
  from this [of "fst (run_calls step is s)"] show ?thesis
    by (simp add: run_oks run_errs algebra_simps flip: of_nat_add)
qed

end

section \<open>Interfaces of bounded buffers\<close>

text \<open>
  A bounded buffer keeps an invariant, has a capacity that putting does not change, and
  shows its contents, oldest entry first.  \<open>ok\<close> tells the entries a client may put into a
  given buffer.
\<close>

locale bounded_buffer =
  fixes invar :: "'b \<Rightarrow> bool"
    and ok :: "'b \<Rightarrow> 'a \<Rightarrow> bool"
    and view :: "'b \<Rightarrow> 'a list"
    and cap :: "'b \<Rightarrow> nat"
    and put :: "'a \<Rightarrow> 'b \<Rightarrow> 'b"
  assumes cap_pos: "invar b \<Longrightarrow> 0 < cap b"
    and view_le_cap: "invar b \<Longrightarrow> length (view b) \<le> cap b"
    and invar_put: "invar b \<Longrightarrow> ok b x \<Longrightarrow> invar (put x b)"
    and cap_put: "invar b \<Longrightarrow> ok b x \<Longrightarrow> cap (put x b) = cap b"
    and ok_put: "invar b \<Longrightarrow> ok b x \<Longrightarrow> ok (put x b) = ok b"
begin

lemma invar_fold: "invar b \<Longrightarrow> list_all (ok b) xs \<Longrightarrow> invar (fold put xs b)"
  by (induction xs arbitrary: b) (simp_all add: ok_put invar_put)

lemma cap_fold: "invar b \<Longrightarrow> list_all (ok b) xs \<Longrightarrow> cap (fold put xs b) = cap b"
  by (induction xs arbitrary: b) (simp_all add: ok_put cap_put invar_put)

end

text \<open>A buffer that makes room by dropping its oldest entry keeps the last \<open>cap\<close> entries.\<close>

locale overwriting_fifo = bounded_buffer +
  assumes view_put: "invar b \<Longrightarrow> ok b x \<Longrightarrow>
    view (put x b) = (if length (view b) < cap b then view b @ [x] else tl (view b) @ [x])"
begin

lemma view_put_drop: "invar b \<Longrightarrow> ok b x \<Longrightarrow>
  view (put x b) = drop (length (view b) + 1 - cap b) (view b @ [x])"
proof (cases "length (view b) < cap b")
  case True
  moreover assume "invar b" "ok b x"
  ultimately show ?thesis by (simp add: view_put)
next
  case False
  moreover assume *: "invar b" "ok b x"
  ultimately have "length (view b) = cap b"
    using view_le_cap [of b] by simp
  then show ?thesis
    using * cap_pos [of b] by (cases "view b") (auto simp: view_put)
qed

lemma view_fold: "invar b \<Longrightarrow> list_all (ok b) xs \<Longrightarrow>
  view (fold put xs b) = drop (length (view b @ xs) - cap b) (view b @ xs)"
proof (induction xs arbitrary: b)
  case Nil
  then show ?case using view_le_cap [of b] by simp
next
  case (Cons x xs)
  let ?v = "view b @ [x]" and ?k = "length (view b) + 1 - cap b"
  have "view (fold put (x # xs) b) =
        drop (length (drop ?k ?v @ xs) - cap b) (drop ?k ?v @ xs)"
    using Cons by (simp add: invar_put view_put_drop cap_put ok_put)
  also have "drop ?k ?v @ xs = drop ?k (?v @ xs)"
    using view_le_cap [of b] Cons.prems cap_pos [of b] by simp
  finally show ?case
    using view_le_cap [of b] Cons.prems(1) cap_pos [of b]
    by (cases "length (view b) < cap b") (auto simp: add.commute)
qed

end

text \<open>A buffer that refuses entries when it is full keeps the first \<open>cap\<close> entries.\<close>

locale rejecting_fifo = bounded_buffer +
  assumes view_put: "invar b \<Longrightarrow> ok b x \<Longrightarrow>
    view (put x b) = (if length (view b) < cap b then view b @ [x] else view b)"
begin

lemma view_fold: "invar b \<Longrightarrow> list_all (ok b) xs \<Longrightarrow>
  view (fold put xs b) = take (cap b) (view b @ xs)"
proof (induction xs arbitrary: b)
  case Nil
  then show ?case using view_le_cap [of b] by simp
next
  case (Cons x xs)
  then show ?case
    using view_le_cap [of b] by (auto simp: invar_put view_put cap_put ok_put take_Cons')
qed

end

text \<open>Reading until the buffer is empty, with fuel for the number of reads.\<close>

fun drain :: "('b \<Rightarrow> ('a \<times> 'b) option) \<Rightarrow> nat \<Rightarrow> 'b \<Rightarrow> 'a list" where
  "drain get 0 b = []"
| "drain get (Suc n) b = (case get b of None \<Rightarrow> [] | Some (x, b') \<Rightarrow> x # drain get n b')"

text \<open>A buffer that can be read: \<open>get\<close> takes the oldest entry out.\<close>

locale readable_buffer =
  fixes invar :: "'b \<Rightarrow> bool"
    and view :: "'b \<Rightarrow> 'a list"
    and get :: "'b \<Rightarrow> ('a \<times> 'b) option"
  assumes get_empty: "invar b \<Longrightarrow> view b = [] \<Longrightarrow> get b = None"
    and get_some: "invar b \<Longrightarrow> view b = x # xs \<Longrightarrow>
      \<exists>b'. get b = Some (x, b') \<and> invar b' \<and> view b' = xs"
begin

lemma get_eq_None_iff: "invar b \<Longrightarrow> get b = None \<longleftrightarrow> view b = []"
  using get_empty [of b] get_some [of b] by (cases "view b") auto

lemma drain_view: "invar b \<Longrightarrow> length (view b) \<le> n \<Longrightarrow> drain get n b = view b"
proof (induction n arbitrary: b)
  case 0
  then show ?case by simp
next
  case (Suc n)
  show ?case
  proof (cases "view b")
    case Nil
    then show ?thesis using Suc.prems by (simp add: get_empty)
  next
    case (Cons x xs)
    then obtain b' where "get b = Some (x, b')" "invar b'" "view b' = xs"
      using get_some Suc.prems by blast
    then show ?thesis using Suc Cons by simp
  qed
qed

end

text \<open>A bounded buffer that can be read.\<close>

locale drainable_buffer =
  bounded_buffer invar ok view cap put + readable_buffer invar view get
  for invar :: "'b \<Rightarrow> bool" and ok :: "'b \<Rightarrow> 'a \<Rightarrow> bool" and view :: "'b \<Rightarrow> 'a list"
    and cap :: "'b \<Rightarrow> nat" and put :: "'a \<Rightarrow> 'b \<Rightarrow> 'b" and get :: "'b \<Rightarrow> ('a \<times> 'b) option"

end
