(* ===== verification/Ipc_Topics.thy ===== *)
theory Ipc_Topics
  imports Auto_Prelude
begin

text \<open>
  Topic names of lib/libipc (ipc_topics.h, ipc_topics.c): validation against the naming
  convention \<open>category/subcategory/kind\<close>, construction from enums, and the category of a
  topic.  A C string is the list of its characters before the terminating NUL; a pointer
  that may be NULL is an option.
\<close>

section \<open>Enumerations and tables\<close>

datatype ipc_topic_validation_t =
    IPC_TOPIC_VALID
  | IPC_TOPIC_INVALID_FORMAT
  | IPC_TOPIC_INVALID_CATEGORY
  | IPC_TOPIC_INVALID_SUBCATEGORY
  | IPC_TOPIC_RESERVED_NAMESPACE
  | IPC_TOPIC_LENGTH_EXCEEDED

datatype ipc_topic_category_t =
    IPC_TOPIC_CATEGORY_VISION
  | IPC_TOPIC_CATEGORY_VEHICLE
  | IPC_TOPIC_CATEGORY_AI
  | IPC_TOPIC_CATEGORY_SYSTEM
  | IPC_TOPIC_CATEGORY_SAFETY
  | IPC_TOPIC_CATEGORY_COMMUNICATION
  | IPC_TOPIC_CATEGORY_DIAGNOSTICS
  | IPC_TOPIC_CATEGORY_POWER
  | IPC_TOPIC_CATEGORY_COUNT

datatype ipc_topic_system_t =
    IPC_TOPIC_SYSTEM_MONITOR
  | IPC_TOPIC_SYSTEM_DIAGNOSTIC
  | IPC_TOPIC_SYSTEM_LOGGING
  | IPC_TOPIC_SYSTEM_POWER
  | IPC_TOPIC_SYSTEM_COUNT

datatype ipc_topic_logging_t =
    IPC_TOPIC_LOGGING_EMERGENCY
  | IPC_TOPIC_LOGGING_ERROR
  | IPC_TOPIC_LOGGING_INFO
  | IPC_TOPIC_LOGGING_DEBUG
  | IPC_TOPIC_LOGGING_COUNT

datatype ipc_topic_vehicle_t =
    IPC_TOPIC_VEHICLE_CONTROL
  | IPC_TOPIC_VEHICLE_SENSOR
  | IPC_TOPIC_VEHICLE_STATUS
  | IPC_TOPIC_VEHICLE_COMMAND
  | IPC_TOPIC_VEHICLE_COUNT

datatype ipc_topic_vision_t =
    IPC_TOPIC_VISION_CAMERA
  | IPC_TOPIC_VISION_OBJECT
  | IPC_TOPIC_VISION_LANE
  | IPC_TOPIC_VISION_DETECTION
  | IPC_TOPIC_VISION_COUNT

datatype ipc_topic_ai_t =
    IPC_TOPIC_AI_INFERENCE
  | IPC_TOPIC_AI_TRAINING
  | IPC_TOPIC_AI_MODEL
  | IPC_TOPIC_AI_RESULT
  | IPC_TOPIC_AI_COUNT

datatype ipc_topic_safety_t =
    IPC_TOPIC_SAFETY_STATUS
  | IPC_TOPIC_SAFETY_EVENT
  | IPC_TOPIC_SAFETY_COMPONENT
  | IPC_TOPIC_SAFETY_CRITICAL
  | IPC_TOPIC_SAFETY_COUNT

datatype ipc_topic_communication_t =
    IPC_TOPIC_COMMUNICATION_CAN
  | IPC_TOPIC_COMMUNICATION_ETHERNET
  | IPC_TOPIC_COMMUNICATION_WIRELESS
  | IPC_TOPIC_COMMUNICATION_PACKET
  | IPC_TOPIC_COMMUNICATION_COUNT

definition MAX_TOPIC_LENGTH :: nat where
  "MAX_TOPIC_LENGTH = 64"

definition RESERVED_NAMESPACES :: "string list" where
  "RESERVED_NAMESPACES = [''system/'', ''kernel/'', ''safety/'']"

text \<open>The arrays of base strings; the slot of the \<open>COUNT\<close> enumerator does not exist.\<close>

fun TOPIC_BASE_STRINGS :: "ipc_topic_category_t \<Rightarrow> string option" where
  "TOPIC_BASE_STRINGS IPC_TOPIC_CATEGORY_VISION = Some ''vision''"
| "TOPIC_BASE_STRINGS IPC_TOPIC_CATEGORY_VEHICLE = Some ''vehicle''"
| "TOPIC_BASE_STRINGS IPC_TOPIC_CATEGORY_AI = Some ''ai''"
| "TOPIC_BASE_STRINGS IPC_TOPIC_CATEGORY_SYSTEM = Some ''system''"
| "TOPIC_BASE_STRINGS IPC_TOPIC_CATEGORY_SAFETY = Some ''safety''"
| "TOPIC_BASE_STRINGS IPC_TOPIC_CATEGORY_COMMUNICATION = Some ''communication''"
| "TOPIC_BASE_STRINGS IPC_TOPIC_CATEGORY_DIAGNOSTICS = Some ''diagnostics''"
| "TOPIC_BASE_STRINGS IPC_TOPIC_CATEGORY_POWER = Some ''power''"
| "TOPIC_BASE_STRINGS IPC_TOPIC_CATEGORY_COUNT = None"

fun TOPIC_SYSTEM_STRINGS :: "ipc_topic_system_t \<Rightarrow> string option" where
  "TOPIC_SYSTEM_STRINGS IPC_TOPIC_SYSTEM_MONITOR = Some ''monitor''"
| "TOPIC_SYSTEM_STRINGS IPC_TOPIC_SYSTEM_DIAGNOSTIC = Some ''diagnostic''"
| "TOPIC_SYSTEM_STRINGS IPC_TOPIC_SYSTEM_LOGGING = Some ''logging''"
| "TOPIC_SYSTEM_STRINGS IPC_TOPIC_SYSTEM_POWER = Some ''power''"
| "TOPIC_SYSTEM_STRINGS IPC_TOPIC_SYSTEM_COUNT = None"

fun TOPIC_LOGGING_STRINGS :: "ipc_topic_logging_t \<Rightarrow> string option" where
  "TOPIC_LOGGING_STRINGS IPC_TOPIC_LOGGING_EMERGENCY = Some ''emergency''"
| "TOPIC_LOGGING_STRINGS IPC_TOPIC_LOGGING_ERROR = Some ''error''"
| "TOPIC_LOGGING_STRINGS IPC_TOPIC_LOGGING_INFO = Some ''info''"
| "TOPIC_LOGGING_STRINGS IPC_TOPIC_LOGGING_DEBUG = Some ''debug''"
| "TOPIC_LOGGING_STRINGS IPC_TOPIC_LOGGING_COUNT = None"

fun TOPIC_VEHICLE_STRINGS :: "ipc_topic_vehicle_t \<Rightarrow> string option" where
  "TOPIC_VEHICLE_STRINGS IPC_TOPIC_VEHICLE_CONTROL = Some ''control''"
| "TOPIC_VEHICLE_STRINGS IPC_TOPIC_VEHICLE_SENSOR = Some ''sensor''"
| "TOPIC_VEHICLE_STRINGS IPC_TOPIC_VEHICLE_STATUS = Some ''status''"
| "TOPIC_VEHICLE_STRINGS IPC_TOPIC_VEHICLE_COMMAND = Some ''command''"
| "TOPIC_VEHICLE_STRINGS IPC_TOPIC_VEHICLE_COUNT = None"

fun TOPIC_VISION_STRINGS :: "ipc_topic_vision_t \<Rightarrow> string option" where
  "TOPIC_VISION_STRINGS IPC_TOPIC_VISION_CAMERA = Some ''camera''"
| "TOPIC_VISION_STRINGS IPC_TOPIC_VISION_OBJECT = Some ''object''"
| "TOPIC_VISION_STRINGS IPC_TOPIC_VISION_LANE = Some ''lane''"
| "TOPIC_VISION_STRINGS IPC_TOPIC_VISION_DETECTION = Some ''detection''"
| "TOPIC_VISION_STRINGS IPC_TOPIC_VISION_COUNT = None"

fun TOPIC_AI_STRINGS :: "ipc_topic_ai_t \<Rightarrow> string option" where
  "TOPIC_AI_STRINGS IPC_TOPIC_AI_INFERENCE = Some ''inference''"
| "TOPIC_AI_STRINGS IPC_TOPIC_AI_TRAINING = Some ''training''"
| "TOPIC_AI_STRINGS IPC_TOPIC_AI_MODEL = Some ''model''"
| "TOPIC_AI_STRINGS IPC_TOPIC_AI_RESULT = Some ''result''"
| "TOPIC_AI_STRINGS IPC_TOPIC_AI_COUNT = None"

fun TOPIC_SAFETY_STRINGS :: "ipc_topic_safety_t \<Rightarrow> string option" where
  "TOPIC_SAFETY_STRINGS IPC_TOPIC_SAFETY_STATUS = Some ''status''"
| "TOPIC_SAFETY_STRINGS IPC_TOPIC_SAFETY_EVENT = Some ''event''"
| "TOPIC_SAFETY_STRINGS IPC_TOPIC_SAFETY_COMPONENT = Some ''component''"
| "TOPIC_SAFETY_STRINGS IPC_TOPIC_SAFETY_CRITICAL = Some ''critical''"
| "TOPIC_SAFETY_STRINGS IPC_TOPIC_SAFETY_COUNT = None"

fun TOPIC_COMMUNICATION_STRINGS :: "ipc_topic_communication_t \<Rightarrow> string option" where
  "TOPIC_COMMUNICATION_STRINGS IPC_TOPIC_COMMUNICATION_CAN = Some ''can''"
| "TOPIC_COMMUNICATION_STRINGS IPC_TOPIC_COMMUNICATION_ETHERNET = Some ''ethernet''"
| "TOPIC_COMMUNICATION_STRINGS IPC_TOPIC_COMMUNICATION_WIRELESS = Some ''wireless''"
| "TOPIC_COMMUNICATION_STRINGS IPC_TOPIC_COMMUNICATION_PACKET = Some ''packet''"
| "TOPIC_COMMUNICATION_STRINGS IPC_TOPIC_COMMUNICATION_COUNT = None"

text \<open>The topic constants of ipc_topics.h.\<close>

abbreviation IPC_TOPIC_SYSTEM_LOGGING_EMERGENCY :: string where "IPC_TOPIC_SYSTEM_LOGGING_EMERGENCY \<equiv> ''system/logging/emergency''"
abbreviation IPC_TOPIC_SYSTEM_LOGGING_ERROR :: string where "IPC_TOPIC_SYSTEM_LOGGING_ERROR \<equiv> ''system/logging/error''"
abbreviation IPC_TOPIC_SYSTEM_LOGGING_INFO :: string where "IPC_TOPIC_SYSTEM_LOGGING_INFO \<equiv> ''system/logging/info''"
abbreviation IPC_TOPIC_SYSTEM_LOGGING_DEBUG :: string where "IPC_TOPIC_SYSTEM_LOGGING_DEBUG \<equiv> ''system/logging/debug''"
abbreviation IPC_TOPIC_SYSTEM_MONITOR_STATUS :: string where "IPC_TOPIC_SYSTEM_MONITOR_STATUS \<equiv> ''system/monitor/status''"
abbreviation IPC_TOPIC_SYSTEM_DIAGNOSTIC_STATUS :: string where "IPC_TOPIC_SYSTEM_DIAGNOSTIC_STATUS \<equiv> ''system/diagnostic/status''"
abbreviation IPC_TOPIC_SYSTEM_POWER_STATUS :: string where "IPC_TOPIC_SYSTEM_POWER_STATUS \<equiv> ''system/power/status''"
abbreviation IPC_TOPIC_SAFETY_STATUS_OVERALL :: string where "IPC_TOPIC_SAFETY_STATUS_OVERALL \<equiv> ''safety/status/overall''"
abbreviation IPC_TOPIC_VEHICLE_CONTROL_COMMAND :: string where "IPC_TOPIC_VEHICLE_CONTROL_COMMAND \<equiv> ''vehicle/control/command''"
abbreviation IPC_TOPIC_VISION_CAMERA_FRAME :: string where "IPC_TOPIC_VISION_CAMERA_FRAME \<equiv> ''vision/camera/frame''"
abbreviation IPC_TOPIC_AI_INFERENCE_RESULT :: string where "IPC_TOPIC_AI_INFERENCE_RESULT \<equiv> ''ai/inference/result''"
abbreviation IPC_TOPIC_COMMUNICATION_CAN_MSG :: string where "IPC_TOPIC_COMMUNICATION_CAN_MSG \<equiv> ''communication/can/message''"
abbreviation IPC_TOPIC_SYSTEM_WATCHDOG_STATUS :: string where "IPC_TOPIC_SYSTEM_WATCHDOG_STATUS \<equiv> ''system/watchdog/status''"
abbreviation IPC_TOPIC_SYSTEM_WATCHDOG_EVENT :: string where "IPC_TOPIC_SYSTEM_WATCHDOG_EVENT \<equiv> ''system/watchdog/event''"
abbreviation IPC_TOPIC_SYSTEM_WATCHDOG_HEARTBEAT :: string where "IPC_TOPIC_SYSTEM_WATCHDOG_HEARTBEAT \<equiv> ''system/watchdog/heartbeat''"

definition PREDEFINED_TOPICS :: "string list" where
  "PREDEFINED_TOPICS =
     [IPC_TOPIC_SYSTEM_LOGGING_EMERGENCY,
      IPC_TOPIC_SYSTEM_LOGGING_ERROR,
      IPC_TOPIC_SYSTEM_LOGGING_INFO,
      IPC_TOPIC_SYSTEM_LOGGING_DEBUG,
      IPC_TOPIC_SYSTEM_MONITOR_STATUS,
      IPC_TOPIC_SYSTEM_DIAGNOSTIC_STATUS,
      IPC_TOPIC_SYSTEM_POWER_STATUS,
      IPC_TOPIC_SYSTEM_WATCHDOG_STATUS,
      IPC_TOPIC_SYSTEM_WATCHDOG_EVENT,
      IPC_TOPIC_SYSTEM_WATCHDOG_HEARTBEAT,
      IPC_TOPIC_SAFETY_STATUS_OVERALL,
      IPC_TOPIC_VEHICLE_CONTROL_COMMAND,
      IPC_TOPIC_VISION_CAMERA_FRAME,
      IPC_TOPIC_AI_INFERENCE_RESULT,
      IPC_TOPIC_COMMUNICATION_CAN_MSG]"

section \<open>Validation\<close>

text \<open>The loop that counts the slashes, and the loop that looks for two in a row.\<close>

fun slash_count :: "string \<Rightarrow> nat" where
  "slash_count [] = 0"
| "slash_count (c # cs) = (if c = CHR ''/'' then Suc (slash_count cs) else slash_count cs)"

fun has_empty_segment :: "string \<Rightarrow> bool" where
  "has_empty_segment (a # b # cs) =
     (a = CHR ''/'' \<and> b = CHR ''/'' \<or> has_empty_segment (b # cs))"
| "has_empty_segment _ = False"

text \<open>\<open>strncmp(s, p, strlen(p)) == 0\<close>\<close>

definition starts_with :: "string \<Rightarrow> string \<Rightarrow> bool" where
  "starts_with p s \<longleftrightarrow> take (length p) s = p"

fun reserved_hit :: "string list \<Rightarrow> string \<Rightarrow> bool" where
  "reserved_hit [] topic = False"
| "reserved_hit (ns # nss) topic =
     (if ns = ''system/'' then reserved_hit nss topic
      else if starts_with ns topic then True
      else reserved_hit nss topic)"

definition ipc_validate_topic :: "string option \<Rightarrow> ipc_topic_validation_t" where
  "ipc_validate_topic tp =
     (case tp of
        None \<Rightarrow> IPC_TOPIC_INVALID_FORMAT
      | Some topic \<Rightarrow>
          if length topic = 0 \<or> MAX_TOPIC_LENGTH < length topic then IPC_TOPIC_LENGTH_EXCEEDED
          else if slash_count topic \<noteq> 2 then IPC_TOPIC_INVALID_FORMAT
          else if hd topic = CHR ''/'' \<or> last topic = CHR ''/'' then IPC_TOPIC_INVALID_FORMAT
          else if has_empty_segment topic then IPC_TOPIC_INVALID_FORMAT
          else if \<not> starts_with ''system/'' topic \<and> reserved_hit RESERVED_NAMESPACES topic
          then IPC_TOPIC_RESERVED_NAMESPACE
          else IPC_TOPIC_VALID)"

section \<open>Construction\<close>

text \<open>\<open>snprintf(topic_buffer, 65, ...)\<close> keeps at most 64 characters.\<close>

definition topic_buffer_of :: "string \<Rightarrow> string" where
  "topic_buffer_of s = take MAX_TOPIC_LENGTH s"

text \<open>The result of \<open>ipc_build_topic\<close>: a topic, NULL, or (which the guards prevent) a read of a table
  out of its bounds.\<close>

datatype build_result = Built string | No_topic | Bad_read

text \<open>\<open>"%s/%s/%s"\<close> of two table entries and a literal or third entry.\<close>

definition fmt3 :: "string option \<Rightarrow> string option \<Rightarrow> string option \<Rightarrow> build_result" where
  "fmt3 a b c =
     (case (a, b, c) of
        (Some x, Some y, Some z) \<Rightarrow> Built (topic_buffer_of (x @ ''/'' @ y @ ''/'' @ z))
      | _ \<Rightarrow> Bad_read)"

text \<open>The switch, without the final validation.\<close>

definition format_topic ::
  "ipc_topic_category_t \<Rightarrow> ipc_topic_system_t \<Rightarrow> ipc_topic_logging_t \<Rightarrow> build_result" where
  "format_topic category system_type logging_type =
     (let base = TOPIC_BASE_STRINGS category;
          system = TOPIC_SYSTEM_STRINGS system_type
      in case category of
           IPC_TOPIC_CATEGORY_SYSTEM \<Rightarrow>
             if system_type = IPC_TOPIC_SYSTEM_COUNT then No_topic
             else (case system_type of
                     IPC_TOPIC_SYSTEM_LOGGING \<Rightarrow>
                       if logging_type = IPC_TOPIC_LOGGING_COUNT then No_topic
                       else fmt3 base system (TOPIC_LOGGING_STRINGS logging_type)
                   | IPC_TOPIC_SYSTEM_MONITOR \<Rightarrow> fmt3 base system (Some ''status'')
                   | IPC_TOPIC_SYSTEM_DIAGNOSTIC \<Rightarrow> fmt3 base system (Some ''status'')
                   | IPC_TOPIC_SYSTEM_POWER \<Rightarrow> fmt3 base system (Some ''status'')
                   | _ \<Rightarrow> No_topic)
         | IPC_TOPIC_CATEGORY_SAFETY \<Rightarrow>
             fmt3 base (TOPIC_SAFETY_STRINGS IPC_TOPIC_SAFETY_STATUS) (Some ''overall'')
         | IPC_TOPIC_CATEGORY_VEHICLE \<Rightarrow>
             fmt3 base (TOPIC_VEHICLE_STRINGS IPC_TOPIC_VEHICLE_CONTROL) (Some ''command'')
         | IPC_TOPIC_CATEGORY_VISION \<Rightarrow>
             fmt3 base (TOPIC_VISION_STRINGS IPC_TOPIC_VISION_CAMERA) (Some ''frame'')
         | IPC_TOPIC_CATEGORY_AI \<Rightarrow>
             fmt3 base (TOPIC_AI_STRINGS IPC_TOPIC_AI_INFERENCE) (Some ''result'')
         | IPC_TOPIC_CATEGORY_COMMUNICATION \<Rightarrow>
             fmt3 base (TOPIC_COMMUNICATION_STRINGS IPC_TOPIC_COMMUNICATION_CAN) (Some ''message'')
         | IPC_TOPIC_CATEGORY_DIAGNOSTICS \<Rightarrow> fmt3 base (Some ''status'') (Some ''overall'')
         | IPC_TOPIC_CATEGORY_POWER \<Rightarrow> fmt3 base (Some ''status'') (Some ''overall'')
         | _ \<Rightarrow> No_topic)"

definition ipc_build_topic ::
  "ipc_topic_category_t \<Rightarrow> ipc_topic_system_t \<Rightarrow> ipc_topic_logging_t \<Rightarrow> build_result" where
  "ipc_build_topic category system_type logging_type =
     (if category = IPC_TOPIC_CATEGORY_COUNT then No_topic
      else case format_topic category system_type logging_type of
             Built topic \<Rightarrow> if ipc_validate_topic (Some topic) \<noteq> IPC_TOPIC_VALID then No_topic else Built topic
           | r \<Rightarrow> r)"

section \<open>Lookup\<close>

definition ipc_get_predefined_topics :: "string list" where
  "ipc_get_predefined_topics = PREDEFINED_TOPICS"

fun ipc_is_predefined_in :: "string list \<Rightarrow> string \<Rightarrow> bool" where
  "ipc_is_predefined_in [] topic = False"
| "ipc_is_predefined_in (p # ps) topic = (if topic = p then True else ipc_is_predefined_in ps topic)"

definition ipc_is_predefined_topic :: "string option \<Rightarrow> bool" where
  "ipc_is_predefined_topic tp =
     (case tp of None \<Rightarrow> False | Some topic \<Rightarrow> ipc_is_predefined_in PREDEFINED_TOPICS topic)"

text \<open>The enumerators in the order of the comparison loop.\<close>

definition known_categories :: "ipc_topic_category_t list" where
  "known_categories =
     [IPC_TOPIC_CATEGORY_VISION, IPC_TOPIC_CATEGORY_VEHICLE, IPC_TOPIC_CATEGORY_AI,
      IPC_TOPIC_CATEGORY_SYSTEM, IPC_TOPIC_CATEGORY_SAFETY, IPC_TOPIC_CATEGORY_COMMUNICATION,
      IPC_TOPIC_CATEGORY_DIAGNOSTICS, IPC_TOPIC_CATEGORY_POWER]"

fun match_category :: "ipc_topic_category_t list \<Rightarrow> string \<Rightarrow> ipc_topic_category_t" where
  "match_category [] s = IPC_TOPIC_CATEGORY_COUNT"
| "match_category (c # cs) s =
     (if TOPIC_BASE_STRINGS c = Some s then c else match_category cs s)"

text \<open>\<open>category_str\<close> has 32 bytes, so a first segment of 32 characters is refused.\<close>

definition ipc_get_topic_category :: "string option \<Rightarrow> ipc_topic_category_t" where
  "ipc_get_topic_category tp =
     (case tp of
        None \<Rightarrow> IPC_TOPIC_CATEGORY_COUNT
      | Some topic \<Rightarrow>
          if CHR ''/'' \<notin> set topic then IPC_TOPIC_CATEGORY_COUNT
          else
            let category_str = takeWhile (\<lambda>c. c \<noteq> CHR ''/'') topic in
            if 32 \<le> length category_str then IPC_TOPIC_CATEGORY_COUNT
            else match_category known_categories category_str)"

text \<open>\<open>ipc_parse_topic\<close> is a placeholder in the source: it writes nothing and returns
  false.\<close>

definition ipc_parse_topic :: "string option \<Rightarrow> bool" where
  "ipc_parse_topic tp = False"

section \<open>What validation accepts\<close>

lemma slash_count_append [simp]: "slash_count (a @ b) = slash_count a + slash_count b"
  by (induction a) auto

lemma slash_count_0_iff [simp]: "slash_count s = 0 \<longleftrightarrow> CHR ''/'' \<notin> set s"
  by (induction s) auto

lemma slash_count_Suc_iff:
  "slash_count s = Suc n \<longleftrightarrow>
     (\<exists>a b. s = a @ CHR ''/'' # b \<and> CHR ''/'' \<notin> set a \<and> slash_count b = n)"
proof
  assume "slash_count s = Suc n"
  then have "CHR ''/'' \<in> set s"
    using slash_count_0_iff [of s] by auto
  then obtain a b where s: "s = a @ CHR ''/'' # b" "CHR ''/'' \<notin> set a"
    by (meson split_list_first)
  moreover from this have "slash_count b = n"
    using \<open>slash_count s = Suc n\<close> slash_count_0_iff [of a] by (simp del: slash_count_0_iff)
  ultimately show "\<exists>a b. s = a @ CHR ''/'' # b \<and> CHR ''/'' \<notin> set a \<and> slash_count b = n"
    by blast
next
  assume "\<exists>a b. s = a @ CHR ''/'' # b \<and> CHR ''/'' \<notin> set a \<and> slash_count b = n"
  then show "slash_count s = Suc n"
    using slash_count_0_iff by fastforce
qed

lemma slash_count_2_iff:
  "slash_count s = 2 \<longleftrightarrow>
     (\<exists>a b c. s = a @ CHR ''/'' # b @ CHR ''/'' # c \<and> CHR ''/'' \<notin> set (a @ b @ c))"
  by (force simp: numeral_2_eq_2 slash_count_Suc_iff)

lemma has_empty_segment_Cons [simp]:
  "c \<noteq> CHR ''/'' \<Longrightarrow> has_empty_segment (c # s) = has_empty_segment s"
  by (cases s) auto

lemma has_empty_segment_prefix:
  "CHR ''/'' \<notin> set a \<Longrightarrow> has_empty_segment (a @ s) = has_empty_segment s"
  by (induction a) auto

lemma has_empty_segment_slash:
  "has_empty_segment (CHR ''/'' # s) \<longleftrightarrow> (s \<noteq> [] \<and> hd s = CHR ''/'') \<or> has_empty_segment s"
  by (cases s) auto

lemma has_empty_segment_none: "CHR ''/'' \<notin> set s \<Longrightarrow> \<not> has_empty_segment s"
  using has_empty_segment_prefix [of s "[]"] by simp

lemma has_empty_segment_3:
  assumes "CHR ''/'' \<notin> set (a @ b @ c)"
  shows "has_empty_segment (a @ CHR ''/'' # b @ CHR ''/'' # c) \<longleftrightarrow> b = []"
  using assms
  by (cases b; cases c)
     (auto simp: has_empty_segment_prefix has_empty_segment_slash has_empty_segment_none)

lemma takeWhile_segment:
  "CHR ''/'' \<notin> set a \<Longrightarrow> takeWhile (\<lambda>c. c \<noteq> CHR ''/'') (a @ CHR ''/'' # s) = a"
  by (induction a) auto

lemma starts_with_segment:
  assumes "CHR ''/'' \<notin> set p" and "CHR ''/'' \<notin> set a"
  shows "starts_with (p @ ''/'') (a @ CHR ''/'' # s) \<longleftrightarrow> a = p"
proof
  assume "starts_with (p @ ''/'') (a @ CHR ''/'' # s)"
  then obtain r where "a @ CHR ''/'' # s = p @ CHR ''/'' # r"
    unfolding starts_with_def by (metis append_Cons append_Nil append_assoc append_take_drop_id)
  then have "takeWhile (\<lambda>c. c \<noteq> CHR ''/'') (a @ CHR ''/'' # s) =
             takeWhile (\<lambda>c. c \<noteq> CHR ''/'') (p @ CHR ''/'' # r)"
    by simp
  then show "a = p"
    using takeWhile_segment [OF assms(1), of r] takeWhile_segment [OF assms(2), of s] by metis
qed (simp add: starts_with_def)

lemma reserved_hit_namespaces:
  "reserved_hit RESERVED_NAMESPACES t \<longleftrightarrow> starts_with ''kernel/'' t \<or> starts_with ''safety/'' t"
  by (simp add: RESERVED_NAMESPACES_def)

text \<open>
  The convention, stated on the segments: exactly three of them, none empty, at most 64
  characters in all, and the first neither \<open>kernel\<close> nor \<open>safety\<close>.
\<close>

definition well_formed_topic :: "string \<Rightarrow> bool" where
  "well_formed_topic t \<longleftrightarrow>
     (\<exists>a b c. t = a @ ''/'' @ b @ ''/'' @ c \<and> a \<noteq> [] \<and> b \<noteq> [] \<and> c \<noteq> [] \<and>
        CHR ''/'' \<notin> set (a @ b @ c) \<and> length t \<le> MAX_TOPIC_LENGTH \<and>
        a \<noteq> ''kernel'' \<and> a \<noteq> ''safety'')"

lemma validate_segments:
  assumes "CHR ''/'' \<notin> set (a @ b @ c)" and "t = a @ CHR ''/'' # b @ CHR ''/'' # c"
  shows "ipc_validate_topic (Some t) = IPC_TOPIC_VALID \<longleftrightarrow>
    a \<noteq> [] \<and> b \<noteq> [] \<and> c \<noteq> [] \<and> length t \<le> MAX_TOPIC_LENGTH \<and> a \<noteq> ''kernel'' \<and> a \<noteq> ''safety''"
proof -
  have count: "slash_count t = 2"
    using assms slash_count_2_iff by blast
  have ends: "(hd t = CHR ''/'') = (a = [])" "(last t = CHR ''/'') = (c = [])"
    using assms by (cases a; auto; metis last_in_set)+
  have reserved: "starts_with ''system/'' t \<longleftrightarrow> a = ''system''"
    "reserved_hit RESERVED_NAMESPACES t \<longleftrightarrow> a = ''kernel'' \<or> a = ''safety''"
    using assms starts_with_segment [of "''system''" a] starts_with_segment [of "''kernel''" a]
      starts_with_segment [of "''safety''" a]
    by (auto simp: reserved_hit_namespaces)
  have empty: "has_empty_segment t \<longleftrightarrow> b = []"
    using assms has_empty_segment_3 [of a b c] by simp
  have "t \<noteq> []" using assms by simp
  then show ?thesis
    by (simp add: ipc_validate_topic_def count ends reserved empty not_less)
qed

lemma validate_iff_well_formed:
  "ipc_validate_topic (Some t) = IPC_TOPIC_VALID \<longleftrightarrow> well_formed_topic t"
proof
  assume valid: "ipc_validate_topic (Some t) = IPC_TOPIC_VALID"
  then have "slash_count t = 2"
    by (auto simp: ipc_validate_topic_def split: if_splits)
  then obtain a b c where t: "t = a @ CHR ''/'' # b @ CHR ''/'' # c" "CHR ''/'' \<notin> set (a @ b @ c)"
    using slash_count_2_iff by blast
  with valid show "well_formed_topic t"
    using validate_segments [of a b c t] by (auto simp: well_formed_topic_def)
next
  assume "well_formed_topic t"
  then obtain a b c where "t = a @ CHR ''/'' # b @ CHR ''/'' # c" "CHR ''/'' \<notin> set (a @ b @ c)"
    "a \<noteq> []" "b \<noteq> []" "c \<noteq> []" "length t \<le> MAX_TOPIC_LENGTH" "a \<noteq> ''kernel''" "a \<noteq> ''safety''"
    unfolding well_formed_topic_def by auto
  then show "ipc_validate_topic (Some t) = IPC_TOPIC_VALID"
    using validate_segments [of a b c t] by simp
qed

section \<open>Categories\<close>

lemma match_category_iff:
  "(match_category known_categories s = c \<and> c \<noteq> IPC_TOPIC_CATEGORY_COUNT) \<longleftrightarrow>
     TOPIC_BASE_STRINGS c = Some s"
  by (cases c) (auto simp: known_categories_def)

lemma base_string_segment:
  "TOPIC_BASE_STRINGS c = Some b \<Longrightarrow> CHR ''/'' \<notin> set b \<and> length b < 32"
  by (cases c) auto

lemma get_category_segment:
  assumes "TOPIC_BASE_STRINGS c = Some b"
  shows "ipc_get_topic_category (Some (b @ CHR ''/'' # r)) = c"
proof -
  have "match_category known_categories b = c"
    using assms match_category_iff by blast
  then show ?thesis
    using base_string_segment [OF assms]
    by (simp add: ipc_get_topic_category_def takeWhile_segment)
qed

text \<open>A topic has the category \<open>c\<close> exactly if its text before the first slash is the
  base string of \<open>c\<close>; every other topic (no slash, unknown or over-long first segment)
  gets the sentinel.\<close>

theorem get_topic_category_iff:
  "(ipc_get_topic_category (Some t) = c \<and> c \<noteq> IPC_TOPIC_CATEGORY_COUNT) \<longleftrightarrow>
     (\<exists>b r. TOPIC_BASE_STRINGS c = Some b \<and> t = b @ ''/'' @ r)"
proof
  assume L: "ipc_get_topic_category (Some t) = c \<and> c \<noteq> IPC_TOPIC_CATEGORY_COUNT"
  then have "CHR ''/'' \<in> set t"
    by (auto simp: ipc_get_topic_category_def split: if_splits)
  then obtain a r where t: "t = a @ CHR ''/'' # r" "CHR ''/'' \<notin> set a"
    by (meson split_list_first)
  then have "match_category known_categories a = c"
    using L by (auto simp: ipc_get_topic_category_def takeWhile_segment split: if_splits)
  then show "\<exists>b r. TOPIC_BASE_STRINGS c = Some b \<and> t = b @ ''/'' @ r"
    using L t match_category_iff [of a c] by auto
next
  assume "\<exists>b r. TOPIC_BASE_STRINGS c = Some b \<and> t = b @ ''/'' @ r"
  then obtain b r where b: "TOPIC_BASE_STRINGS c = Some b" and t: "t = b @ ''/'' @ r"
    by blast
  then show "ipc_get_topic_category (Some t) = c \<and> c \<noteq> IPC_TOPIC_CATEGORY_COUNT"
    using get_category_segment [OF b, of r] by auto
qed

text \<open>The topics \<open>ipc_build_topic\<close> can produce.\<close>

lemma build_topic_table:
  "ipc_build_topic IPC_TOPIC_CATEGORY_VISION s l = Built ''vision/camera/frame''"
  "ipc_build_topic IPC_TOPIC_CATEGORY_VEHICLE s l = Built ''vehicle/control/command''"
  "ipc_build_topic IPC_TOPIC_CATEGORY_AI s l = Built ''ai/inference/result''"
  "ipc_build_topic IPC_TOPIC_CATEGORY_COMMUNICATION s l = Built ''communication/can/message''"
  "ipc_build_topic IPC_TOPIC_CATEGORY_DIAGNOSTICS s l = Built ''diagnostics/status/overall''"
  "ipc_build_topic IPC_TOPIC_CATEGORY_POWER s l = Built ''power/status/overall''"
  "ipc_build_topic IPC_TOPIC_CATEGORY_SAFETY s l = No_topic"
  "ipc_build_topic IPC_TOPIC_CATEGORY_COUNT s l = No_topic"
  "ipc_build_topic IPC_TOPIC_CATEGORY_SYSTEM IPC_TOPIC_SYSTEM_MONITOR l =
     Built ''system/monitor/status''"
  "ipc_build_topic IPC_TOPIC_CATEGORY_SYSTEM IPC_TOPIC_SYSTEM_DIAGNOSTIC l =
     Built ''system/diagnostic/status''"
  "ipc_build_topic IPC_TOPIC_CATEGORY_SYSTEM IPC_TOPIC_SYSTEM_POWER l =
     Built ''system/power/status''"
  "ipc_build_topic IPC_TOPIC_CATEGORY_SYSTEM IPC_TOPIC_SYSTEM_COUNT l = No_topic"
  by code_simp+

lemma build_topic_logging_table:
  "ipc_build_topic IPC_TOPIC_CATEGORY_SYSTEM IPC_TOPIC_SYSTEM_LOGGING IPC_TOPIC_LOGGING_EMERGENCY =
     Built ''system/logging/emergency''"
  "ipc_build_topic IPC_TOPIC_CATEGORY_SYSTEM IPC_TOPIC_SYSTEM_LOGGING IPC_TOPIC_LOGGING_ERROR =
     Built ''system/logging/error''"
  "ipc_build_topic IPC_TOPIC_CATEGORY_SYSTEM IPC_TOPIC_SYSTEM_LOGGING IPC_TOPIC_LOGGING_INFO =
     Built ''system/logging/info''"
  "ipc_build_topic IPC_TOPIC_CATEGORY_SYSTEM IPC_TOPIC_SYSTEM_LOGGING IPC_TOPIC_LOGGING_DEBUG =
     Built ''system/logging/debug''"
  "ipc_build_topic IPC_TOPIC_CATEGORY_SYSTEM IPC_TOPIC_SYSTEM_LOGGING IPC_TOPIC_LOGGING_COUNT =
     No_topic"
  by code_simp+

lemmas build_topic_tables = build_topic_table build_topic_logging_table

lemma build_topic_well_formed: "ipc_build_topic c s l = Built t \<Longrightarrow> well_formed_topic t"
  by (auto simp: ipc_build_topic_def simp flip: validate_iff_well_formed
      split: build_result.splits if_splits)

section \<open>Properties of validation and construction\<close>


text \<open>The arguments without a topic.\<close>

definition no_topic :: "ipc_topic_category_t \<Rightarrow> ipc_topic_system_t \<Rightarrow> ipc_topic_logging_t \<Rightarrow> bool" where
  "no_topic c s l \<longleftrightarrow>
     c = IPC_TOPIC_CATEGORY_COUNT \<or> c = IPC_TOPIC_CATEGORY_SAFETY \<or>
     c = IPC_TOPIC_CATEGORY_SYSTEM \<and>
       (s = IPC_TOPIC_SYSTEM_COUNT \<or> s = IPC_TOPIC_SYSTEM_LOGGING \<and> l = IPC_TOPIC_LOGGING_COUNT)"

text \<open>C40: \<open>ipc_build_topic\<close> fails exactly on the \<open>COUNT\<close> sentinels and on the whole SAFETY
  category (its one topic lies in a namespace that validation reserves); it reads no table out of
  bounds, and every topic it builds is valid and is classified back into the category it was built
  from.\<close>

theorem build_topic_domain_and_roundtrip:
  "case ipc_build_topic c s l of
     No_topic \<Rightarrow> no_topic c s l
   | Bad_read \<Rightarrow> False
   | Built t \<Rightarrow> \<not> no_topic c s l \<and> well_formed_topic t \<and> ipc_get_topic_category (Some t) = c"
proof (cases "c = IPC_TOPIC_CATEGORY_SYSTEM")
  case True
  then show ?thesis
    by (cases s; cases l)
       (simp_all add: no_topic_def build_topic_tables ipc_get_topic_category_def known_categories_def
          build_topic_well_formed [OF build_topic_table(9)]
          build_topic_well_formed [OF build_topic_table(10)]
          build_topic_well_formed [OF build_topic_table(11)]
          build_topic_logging_table(1-4) [THEN build_topic_well_formed])
next
  case False
  then show ?thesis
    by (cases c)
       (simp_all add: no_topic_def build_topic_tables ipc_get_topic_category_def known_categories_def
          build_topic_table(1-6) [THEN build_topic_well_formed])
qed

end
