(* ===== verification/System_Errors.thy ===== *)
theory System_Errors
  imports Auto_Prelude
begin

text \<open>
  The error values of lib/safety/system_errors.h and system_errors.c.  C enums whose range
  the code checks at run time (category, severity) are 32-bit words, so that out-of-range
  values exist in the model as they do in the code.  \<open>file_name\<close> (a pointer that
  \<open>system_error_create\<close> leaves zero) is an optional string.
\<close>

section \<open>Codes\<close>

abbreviation ERROR_CATEGORY_SUCCESS :: u32 where "ERROR_CATEGORY_SUCCESS \<equiv> 0"
abbreviation ERROR_CATEGORY_SAFETY :: u32 where "ERROR_CATEGORY_SAFETY \<equiv> 1"
abbreviation ERROR_CATEGORY_SYSTEM :: u32 where "ERROR_CATEGORY_SYSTEM \<equiv> 2"
abbreviation ERROR_CATEGORY_MODULE :: u32 where "ERROR_CATEGORY_MODULE \<equiv> 3"
abbreviation ERROR_CATEGORY_COUNT :: u32 where "ERROR_CATEGORY_COUNT \<equiv> 6"

abbreviation ERR_BASE_OK :: u32 where "ERR_BASE_OK \<equiv> 0"
abbreviation ERR_BASE_NULL_PTR :: u32 where "ERR_BASE_NULL_PTR \<equiv> 0x1000"
abbreviation ERR_BASE_BUF_EMPTY :: u32 where "ERR_BASE_BUF_EMPTY \<equiv> 0x1002"
abbreviation ERR_BASE_INDEX_OOB :: u32 where "ERR_BASE_INDEX_OOB \<equiv> 0x1003"
abbreviation ERR_BASE_DATA_CORRUPT :: u32 where "ERR_BASE_DATA_CORRUPT \<equiv> 0x1004"
abbreviation ERR_BASE_TIMEOUT :: u32 where "ERR_BASE_TIMEOUT \<equiv> 0x1006"
abbreviation ERR_BASE_INVALID_SIZE :: u32 where "ERR_BASE_INVALID_SIZE \<equiv> 0x100A"

abbreviation ERR_SYS_OK :: u32 where "ERR_SYS_OK \<equiv> 0"
abbreviation ERR_SYS_NOT_INIT :: u32 where "ERR_SYS_NOT_INIT \<equiv> 0x2000"
abbreviation ERR_SYS_ALREADY_INIT :: u32 where "ERR_SYS_ALREADY_INIT \<equiv> 0x2001"
abbreviation ERR_SYS_INVALID_PARAM :: u32 where "ERR_SYS_INVALID_PARAM \<equiv> 0x2002"
abbreviation ERR_SYS_RESOURCE_UNAVAIL :: u32 where "ERR_SYS_RESOURCE_UNAVAIL \<equiv> 0x2003"
abbreviation ERR_SYS_CONFIG_ERROR :: u32 where "ERR_SYS_CONFIG_ERROR \<equiv> 0x2005"
abbreviation ERR_SYS_SERVICE_NOT_FOUND :: u32 where "ERR_SYS_SERVICE_NOT_FOUND \<equiv> 0x2006"
abbreviation ERR_SYS_SERVICE_REG_FAILED :: u32 where "ERR_SYS_SERVICE_REG_FAILED \<equiv> 0x2007"
abbreviation ERR_SYS_NOT_INITIALIZED :: u32 where "ERR_SYS_NOT_INITIALIZED \<equiv> 0x2009"

abbreviation ERR_SAFE_CRITICAL_NULL :: u32 where "ERR_SAFE_CRITICAL_NULL \<equiv> 0x3000"

abbreviation ERROR_SEVERITY_NONE :: u32 where "ERROR_SEVERITY_NONE \<equiv> 0"
abbreviation ERROR_SEVERITY_LOW :: u32 where "ERROR_SEVERITY_LOW \<equiv> 1"
abbreviation ERROR_SEVERITY_WARNING :: u32 where "ERROR_SEVERITY_WARNING \<equiv> 2"
abbreviation ERROR_SEVERITY_MEDIUM :: u32 where "ERROR_SEVERITY_MEDIUM \<equiv> 3"
abbreviation ERROR_SEVERITY_HIGH :: u32 where "ERROR_SEVERITY_HIGH \<equiv> 4"
abbreviation ERROR_SEVERITY_CRITICAL :: u32 where "ERROR_SEVERITY_CRITICAL \<equiv> 5"
abbreviation ERROR_SEVERITY_COUNT :: u32 where "ERROR_SEVERITY_COUNT \<equiv> 6"

abbreviation MODULE_ID_SYSCALL :: u16 where "MODULE_ID_SYSCALL \<equiv> 0x0000"
abbreviation MODULE_ID_LOGGING :: u16 where "MODULE_ID_LOGGING \<equiv> 0x1000"
abbreviation MODULE_ID_IPC :: u16 where "MODULE_ID_IPC \<equiv> 0x4000"
abbreviation MODULE_ID_HW_TIMER :: u16 where "MODULE_ID_HW_TIMER \<equiv> 0x6000"
abbreviation MODULE_ID_HW_WATCHDOG :: u16 where "MODULE_ID_HW_WATCHDOG \<equiv> 0x7000"
abbreviation MODULE_ID_INTERRUPT :: u16 where "MODULE_ID_INTERRUPT \<equiv> 0x8000"
abbreviation MODULE_ID_MEMORY :: u16 where "MODULE_ID_MEMORY \<equiv> 0x9000"

text \<open>The codes that no function of the program uses yet.\<close>

abbreviation ERR_BASE_BUF_OVERFLOW :: u32 where "ERR_BASE_BUF_OVERFLOW \<equiv> 0x1001"
abbreviation ERR_BASE_STATE_CORRUPT :: u32 where "ERR_BASE_STATE_CORRUPT \<equiv> 0x1005"
abbreviation ERR_BASE_HW_FAULT :: u32 where "ERR_BASE_HW_FAULT \<equiv> 0x1007"
abbreviation ERR_BASE_SW_FAULT :: u32 where "ERR_BASE_SW_FAULT \<equiv> 0x1008"
abbreviation ERR_BASE_INTEGRITY_FAIL :: u32 where "ERR_BASE_INTEGRITY_FAIL \<equiv> 0x1009"
abbreviation ERR_SYS_PERMISSION_DENIED :: u32 where "ERR_SYS_PERMISSION_DENIED \<equiv> 0x2004"
abbreviation ERR_SYS_IPC_FAILED :: u32 where "ERR_SYS_IPC_FAILED \<equiv> 0x2008"
abbreviation ERR_SAFE_CRITICAL_BUF_OVER :: u32 where "ERR_SAFE_CRITICAL_BUF_OVER \<equiv> 0x3001"
abbreviation ERR_SAFE_MEM_PROTECT_FAULT :: u32 where "ERR_SAFE_MEM_PROTECT_FAULT \<equiv> 0x3002"
abbreviation ERR_SAFE_STACK_OVERFLOW :: u32 where "ERR_SAFE_STACK_OVERFLOW \<equiv> 0x3003"
abbreviation ERR_SAFE_WATCHDOG_TIMEOUT :: u32 where "ERR_SAFE_WATCHDOG_TIMEOUT \<equiv> 0x3004"
abbreviation ERR_SAFE_POWER_FAULT :: u32 where "ERR_SAFE_POWER_FAULT \<equiv> 0x3005"
abbreviation ERR_SAFE_TEMP_FAULT :: u32 where "ERR_SAFE_TEMP_FAULT \<equiv> 0x3006"
abbreviation ERR_SAFE_SENSOR_FAULT :: u32 where "ERR_SAFE_SENSOR_FAULT \<equiv> 0x3007"
abbreviation ERR_SAFE_ACTUATOR_FAULT :: u32 where "ERR_SAFE_ACTUATOR_FAULT \<equiv> 0x3008"
abbreviation ERR_SAFE_OK :: u32 where "ERR_SAFE_OK \<equiv> 0"
abbreviation ERROR_CATEGORY_RESOURCE :: u32 where "ERROR_CATEGORY_RESOURCE \<equiv> 4"
abbreviation ERROR_CATEGORY_COMMUNICATION :: u32 where "ERROR_CATEGORY_COMMUNICATION \<equiv> 5"
abbreviation MODULE_ID_AI :: u16 where "MODULE_ID_AI \<equiv> 0x2000"
abbreviation MODULE_ID_DIAGNOSTICS :: u16 where "MODULE_ID_DIAGNOSTICS \<equiv> 0x3000"
abbreviation MODULE_ID_STORAGE :: u16 where "MODULE_ID_STORAGE \<equiv> 0x5000"

text \<open>\<open>MODULE_ERR_CODE(module_id, err_num)\<close>, a 32-bit code.\<close>

definition MODULE_ERR_CODE :: "u16 \<Rightarrow> u32 \<Rightarrow> u32" where
  "MODULE_ERR_CODE module_id err_num = or (push_bit 16 (ucast module_id)) err_num"

definition ERR_MOD_MEM_OUT_OF_MEMORY :: u32 where
  "ERR_MOD_MEM_OUT_OF_MEMORY = MODULE_ERR_CODE MODULE_ID_MEMORY 0x01"

definition ERR_MOD_LOG_OK :: u32 where "ERR_MOD_LOG_OK = MODULE_ERR_CODE MODULE_ID_LOGGING 0"
definition ERR_MOD_LOG_BUF_FULL :: u32 where "ERR_MOD_LOG_BUF_FULL = MODULE_ERR_CODE MODULE_ID_LOGGING 1"
definition ERR_MOD_LOG_ENTRY_CORRUPT :: u32 where "ERR_MOD_LOG_ENTRY_CORRUPT = MODULE_ERR_CODE MODULE_ID_LOGGING 2"
definition ERR_MOD_LOG_BUF_CORRUPT :: u32 where "ERR_MOD_LOG_BUF_CORRUPT = MODULE_ERR_CODE MODULE_ID_LOGGING 3"
definition ERR_MOD_LOG_NOT_INIT :: u32 where "ERR_MOD_LOG_NOT_INIT = MODULE_ERR_CODE MODULE_ID_LOGGING 4"
definition ERR_MOD_LOG_IPC_COMM :: u32 where "ERR_MOD_LOG_IPC_COMM = MODULE_ERR_CODE MODULE_ID_LOGGING 5"
definition ERR_MOD_LOG_STORAGE_UNAVAIL :: u32 where "ERR_MOD_LOG_STORAGE_UNAVAIL = MODULE_ERR_CODE MODULE_ID_LOGGING 6"
definition ERR_MOD_AI_OK :: u32 where "ERR_MOD_AI_OK = MODULE_ERR_CODE MODULE_ID_AI 0"
definition ERR_MOD_AI_MODEL_NOT_LOADED :: u32 where "ERR_MOD_AI_MODEL_NOT_LOADED = MODULE_ERR_CODE MODULE_ID_AI 1"
definition ERR_MOD_AI_INFERENCE_FAILED :: u32 where "ERR_MOD_AI_INFERENCE_FAILED = MODULE_ERR_CODE MODULE_ID_AI 2"
definition ERR_MOD_MEM_OK :: u32 where "ERR_MOD_MEM_OK = MODULE_ERR_CODE MODULE_ID_MEMORY 0"
definition ERR_MOD_MEM_POOL_FULL :: u32 where "ERR_MOD_MEM_POOL_FULL = MODULE_ERR_CODE MODULE_ID_MEMORY 2"
definition ERR_MOD_MEM_INVALID_POOL :: u32 where "ERR_MOD_MEM_INVALID_POOL = MODULE_ERR_CODE MODULE_ID_MEMORY 3"
definition ERR_MOD_MEM_CORRUPTION :: u32 where "ERR_MOD_MEM_CORRUPTION = MODULE_ERR_CODE MODULE_ID_MEMORY 4"

lemmas module_code_defs = ERR_MOD_MEM_OUT_OF_MEMORY_def ERR_MOD_LOG_OK_def ERR_MOD_LOG_BUF_FULL_def ERR_MOD_LOG_ENTRY_CORRUPT_def ERR_MOD_LOG_BUF_CORRUPT_def
  ERR_MOD_LOG_NOT_INIT_def ERR_MOD_LOG_IPC_COMM_def ERR_MOD_LOG_STORAGE_UNAVAIL_def ERR_MOD_AI_OK_def
  ERR_MOD_AI_MODEL_NOT_LOADED_def ERR_MOD_AI_INFERENCE_FAILED_def ERR_MOD_MEM_OK_def ERR_MOD_MEM_POOL_FULL_def
  ERR_MOD_MEM_INVALID_POOL_def ERR_MOD_MEM_CORRUPTION_def

section \<open>Error values\<close>

record system_error =
  error_code :: u32
  category :: u32
  severity :: u32
  module_id :: u16
  timestamp :: u64
  additional_info :: u32
  line_number :: u16
  file_name :: "string option"
  checksum :: u32

text \<open>Fields without an initialiser are zero.\<close>

definition system_error_create :: "u32 \<Rightarrow> u32 \<Rightarrow> u32 \<Rightarrow> u16 \<Rightarrow> system_error" where
  "system_error_create code cat sev m =
     \<lparr>error_code = code, category = cat, severity = sev, module_id = m, timestamp = 0,
      additional_info = 0, line_number = 0, file_name = None, checksum = 0\<rparr>"

text \<open>
  \<open>system_error_create\<close> also stores its result in the static \<open>g_last_error\<close>.  No
  function of the program reads that variable (\<open>system_error_reset\<close> only clears it), so
  the components below use the value and this pair of transitions records the store.
\<close>

definition zero_error :: system_error where
  "zero_error = system_error_create 0 0 0 0"

definition system_error_create_st ::
  "u32 \<Rightarrow> u32 \<Rightarrow> u32 \<Rightarrow> u16 \<Rightarrow> system_error \<Rightarrow> system_error \<times> system_error" where
  "system_error_create_st code cat sev m g_last_error =
     (let error = system_error_create code cat sev m in (error, error))"

definition system_error_reset :: "system_error \<Rightarrow> system_error" where
  "system_error_reset g_last_error = zero_error"

lemma system_error_create_sel [simp]:
  "error_code (system_error_create c k s m) = c"
  "category (system_error_create c k s m) = k"
  "severity (system_error_create c k s m) = s"
  "module_id (system_error_create c k s m) = m"
  by (simp_all add: system_error_create_def)

definition system_error_is_critical :: "system_error option \<Rightarrow> bool" where
  "system_error_is_critical e =
     (case e of
        None \<Rightarrow> True
      | Some err \<Rightarrow>
          if ERROR_SEVERITY_COUNT \<le> severity err then True
          else if ERROR_CATEGORY_COUNT \<le> category err then True
          else if ERROR_SEVERITY_HIGH \<le> severity err then True
          else if category err = ERROR_CATEGORY_SAFETY \<and> ERROR_SEVERITY_MEDIUM \<le> severity err
          then True
          else False)"

section \<open>Forwarding an error to the log\<close>

text \<open>Levels, tags and message numbers of lib/logging/log_common.h.\<close>

abbreviation LOG_LEVEL_EMERGENCY :: u8 where "LOG_LEVEL_EMERGENCY \<equiv> 0"
abbreviation LOG_LEVEL_ERROR :: u8 where "LOG_LEVEL_ERROR \<equiv> 1"
abbreviation LOG_LEVEL_INFO :: u8 where "LOG_LEVEL_INFO \<equiv> 2"
abbreviation LOG_LEVEL_DEBUG :: u8 where "LOG_LEVEL_DEBUG \<equiv> 3"

abbreviation LOG_TAG_SYSTEM :: u8 where "LOG_TAG_SYSTEM \<equiv> 0"
abbreviation LOG_TAG_KERNEL :: u8 where "LOG_TAG_KERNEL \<equiv> 1"
abbreviation LOG_TAG_INTERRUPT :: u8 where "LOG_TAG_INTERRUPT \<equiv> 2"
abbreviation LOG_TAG_DRIVER_CAMERA :: u8 where "LOG_TAG_DRIVER_CAMERA \<equiv> 3"
abbreviation LOG_TAG_DRIVER_CAN :: u8 where "LOG_TAG_DRIVER_CAN \<equiv> 4"
abbreviation LOG_TAG_SERVICE_AI :: u8 where "LOG_TAG_SERVICE_AI \<equiv> 5"
abbreviation LOG_TAG_SERVICE_DIAG :: u8 where "LOG_TAG_SERVICE_DIAG \<equiv> 6"
abbreviation LOG_TAG_SERVICE_LOGGER :: u8 where "LOG_TAG_SERVICE_LOGGER \<equiv> 7"
abbreviation LOG_TAG_APPLICATION :: u8 where "LOG_TAG_APPLICATION \<equiv> 8"

abbreviation LOG_MSG_SYSTEM_START :: u16 where "LOG_MSG_SYSTEM_START \<equiv> 0"
abbreviation LOG_MSG_SYSTEM_SHUTDOWN :: u16 where "LOG_MSG_SYSTEM_SHUTDOWN \<equiv> 1"
abbreviation LOG_MSG_SERVICE_READY :: u16 where "LOG_MSG_SERVICE_READY \<equiv> 2"
abbreviation LOG_MSG_SERVICE_ERROR :: u16 where "LOG_MSG_SERVICE_ERROR \<equiv> 3"
abbreviation LOG_MSG_DRIVER_INIT :: u16 where "LOG_MSG_DRIVER_INIT \<equiv> 4"
abbreviation LOG_MSG_DRIVER_TIMEOUT :: u16 where "LOG_MSG_DRIVER_TIMEOUT \<equiv> 5"
abbreviation LOG_MSG_INTERRUPT_LATENCY_EXCEEDED :: u16 where "LOG_MSG_INTERRUPT_LATENCY_EXCEEDED \<equiv> 6"
abbreviation LOG_MSG_INVALID_INTERRUPT_NUMBER :: u16 where "LOG_MSG_INVALID_INTERRUPT_NUMBER \<equiv> 7"
abbreviation LOG_MSG_INTERRUPT_STORM_DETECTED :: u16 where "LOG_MSG_INTERRUPT_STORM_DETECTED \<equiv> 8"
abbreviation LOG_MSG_TIMING_VIOLATION_DETECTED :: u16 where "LOG_MSG_TIMING_VIOLATION_DETECTED \<equiv> 9"
abbreviation LOG_MSG_INTERRUPT_PRIORITY_SET :: u16 where "LOG_MSG_INTERRUPT_PRIORITY_SET \<equiv> 10"
abbreviation LOG_MSG_INTERRUPT_PRIORITY_MISMATCH :: u16 where "LOG_MSG_INTERRUPT_PRIORITY_MISMATCH \<equiv> 11"
abbreviation LOG_MSG_INTERRUPT_ENABLED :: u16 where "LOG_MSG_INTERRUPT_ENABLED \<equiv> 12"
abbreviation LOG_MSG_AI_INFERENCE_START :: u16 where "LOG_MSG_AI_INFERENCE_START \<equiv> 13"
abbreviation LOG_MSG_AI_INFERENCE_RESULT :: u16 where "LOG_MSG_AI_INFERENCE_RESULT \<equiv> 14"
abbreviation LOG_MSG_DIAG_MESSAGE :: u16 where "LOG_MSG_DIAG_MESSAGE \<equiv> 15"
abbreviation LOG_MSG_HEARTBEAT :: u16 where "LOG_MSG_HEARTBEAT \<equiv> 16"
abbreviation LOG_MSG_STARTUP_PHASE :: u16 where "LOG_MSG_STARTUP_PHASE \<equiv> 17"

text \<open>The arguments of a call of \<open>log_client_send_entry\<close>.\<close>

record log_call =
  lc_level :: u8
  lc_tag :: u8
  lc_msg :: u16
  lc_data1 :: u32
  lc_data2 :: u32

definition mk_log_call :: "u8 \<Rightarrow> u8 \<Rightarrow> u16 \<Rightarrow> u32 \<Rightarrow> u32 \<Rightarrow> log_call" where
  "mk_log_call l t m a b = \<lparr>lc_level = l, lc_tag = t, lc_msg = m, lc_data1 = a, lc_data2 = b\<rparr>"

lemma mk_log_call_sel [simp]:
  "lc_level (mk_log_call l t m a b) = l" "lc_tag (mk_log_call l t m a b) = t"
  "lc_msg (mk_log_call l t m a b) = m" "lc_data1 (mk_log_call l t m a b) = a"
  "lc_data2 (mk_log_call l t m a b) = b"
  by (simp_all add: mk_log_call_def)

definition system_error_log :: "system_error option \<Rightarrow> log_call list" where
  "system_error_log e =
     (case e of
        None \<Rightarrow> []
      | Some err \<Rightarrow>
          let log_level =
            (if ERROR_SEVERITY_HIGH \<le> severity err then LOG_LEVEL_EMERGENCY
             else if severity err = ERROR_SEVERITY_MEDIUM then LOG_LEVEL_ERROR
             else LOG_LEVEL_INFO)
          in [mk_log_call log_level LOG_TAG_SYSTEM LOG_MSG_SERVICE_ERROR (error_code err)
                (or (push_bit 16 (ucast (module_id err))) (category err))])"

text \<open>
  Severity alone makes an error critical, from HIGH on; a safety error already from MEDIUM
  on; an error whose fields are out of range always.
\<close>

lemma is_critical_iff:
  "system_error_is_critical (Some err) \<longleftrightarrow>
     3 < unat (severity err) \<or> 5 < unat (category err) \<or>
     unat (category err) = 1 \<and> unat (severity err) = 3"
  by (auto simp: system_error_is_critical_def word_le_nat_alt word_unat_eq_iff)

text \<open>Every error logged at the emergency level is a critical one, never the reverse.\<close>

lemma emergency_log_critical:
  assumes "c \<in> set (system_error_log (Some err))" and "lc_level c = 0"
  shows "system_error_is_critical (Some err)"
  using assms by (auto simp: system_error_log_def Let_def is_critical_iff word_le_nat_alt split: if_splits)

section \<open>The checking macros\<close>

text \<open>SAFETY_CHECK_NULL, SAFETY_CHECK_BOUNDS and SAFETY_CHECK_BUFFER: the error that makes the
  enclosing function return, with the log calls it sends, or \<open>None\<close> when it goes on.\<close>

definition macro_error :: "u32 \<Rightarrow> u16 \<Rightarrow> system_error \<times> log_call list" where
  "macro_error code m =
     (let err = system_error_create code ERROR_CATEGORY_SAFETY ERROR_SEVERITY_CRITICAL m
      in (err, system_error_log (Some err)))"

definition SAFETY_CHECK_NULL :: "'a option \<Rightarrow> u16 \<Rightarrow> (system_error \<times> log_call list) option" where
  "SAFETY_CHECK_NULL ptr m = (if ptr = None then Some (macro_error ERR_SAFE_CRITICAL_NULL m) else None)"

definition SAFETY_CHECK_BOUNDS :: "u32 \<Rightarrow> u32 \<Rightarrow> u16 \<Rightarrow> (system_error \<times> log_call list) option" where
  "SAFETY_CHECK_BOUNDS index max_index m =
     (if max_index \<le> index then Some (macro_error ERR_BASE_INDEX_OOB m) else None)"

definition SAFETY_CHECK_BUFFER :: "'a option \<Rightarrow> u64 \<Rightarrow> u16 \<Rightarrow> (system_error \<times> log_call list) option" where
  "SAFETY_CHECK_BUFFER buffer sz m =
     (if buffer = None \<or> sz = 0 then Some (macro_error ERR_SAFE_CRITICAL_BUF_OVER m) else None)"

definition MODULE_ERR_CREATE :: "u32 \<Rightarrow> u32 \<Rightarrow> u16 \<Rightarrow> system_error" where
  "MODULE_ERR_CREATE code sev m = system_error_create code ERROR_CATEGORY_MODULE sev m"

text \<open>An error of the macros is critical and is logged once, at the emergency level.\<close>

lemma macro_error_critical:
  "system_error_is_critical (Some (fst (macro_error code m))) \<and>
   map lc_level (snd (macro_error code m)) = [0]"
  by (simp add: macro_error_def Let_def system_error_is_critical_def system_error_log_def)

section \<open>The code spaces\<close>

lemma unat_drop16: "unat (drop_bit 16 (w :: u32)) = unat w div 65536"
  by (simp add: drop_bit_eq_div unat_div)

text \<open>A module's code determines the module and the number.\<close>

lemma module_code_parts:
  assumes "unat n < 65536"
  shows "drop_bit 16 (MODULE_ERR_CODE m n) = ucast m" "take_bit 16 (MODULE_ERR_CODE m n) = n"
proof -
  have n: "take_bit 16 n = n" using assms by (simp add: word_unat_eq_iff unsigned_take_bit_eq take_bit_nat_eq_self)
  have z: "drop_bit 16 n = 0"
    using assms by (simp only: word_unat_eq_iff unat_drop16) simp
  have m: "drop_bit 16 (push_bit 16 (ucast m) :: u32) = ucast m"
    by (rule bit_word_eqI) (auto simp: bit_drop_bit_eq bit_push_bit_iff bit_ucast_iff dest: bit_imp_le_length)
  show "drop_bit 16 (MODULE_ERR_CODE m n) = ucast m"
    by (simp add: MODULE_ERR_CODE_def drop_bit_or z m)
  have "take_bit 16 (push_bit 16 (ucast m) :: u32) = 0"
    by (rule bit_word_eqI) (auto simp: bit_take_bit_iff bit_push_bit_iff)
  then show "take_bit 16 (MODULE_ERR_CODE m n) = n"
    by (simp add: MODULE_ERR_CODE_def take_bit_or n)
qed

text \<open>Codes of the modules never collide with one another, nor, for a module other than the system
  calls, with the base, system and safety codes, all of which are below 2^16.  But the success
  codes of the modules are not zero, so the tests \<open>error_code != ERR_BASE_OK\<close> of the callers
  take them for failures.
\<close>

theorem module_codes_disjoint:
  "(unat n < 65536 \<and> unat n' < 65536 \<and> MODULE_ERR_CODE m n = MODULE_ERR_CODE m' n' \<longrightarrow> m = m' \<and> n = n') \<and>
   (unat n < 65536 \<and> m \<noteq> MODULE_ID_SYSCALL \<longrightarrow> 65536 \<le> unat (MODULE_ERR_CODE m n)) \<and>
   ERR_MOD_LOG_OK \<noteq> ERR_BASE_OK \<and> ERR_MOD_AI_OK \<noteq> ERR_BASE_OK \<and> ERR_MOD_MEM_OK \<noteq> ERR_BASE_OK"
proof (intro conjI impI)
  assume a: "unat n < 65536 \<and> unat n' < 65536 \<and> MODULE_ERR_CODE m n = MODULE_ERR_CODE m' n'"
  show "n = n'" using a module_code_parts(2) [of n m] module_code_parts(2) [of n' m'] by simp
  have "(ucast m :: u32) = ucast m'"
    using a module_code_parts(1) [of n m] module_code_parts(1) [of n' m'] by simp
  then have "unat (ucast m :: u32) = unat (ucast m' :: u32)" by simp
  then show "m = m'"
    using unat_lt_u16 [of m] unat_lt_u16 [of m']
    by (simp add: unsigned_ucast_eq take_bit_nat_eq_self word_unat_eq_iff)
next
  assume a: "unat n < 65536 \<and> m \<noteq> MODULE_ID_SYSCALL"
  show "65536 \<le> unat (MODULE_ERR_CODE m n)"
  proof (rule ccontr)
    assume "\<not> 65536 \<le> unat (MODULE_ERR_CODE m n)"
    then have "unat (drop_bit 16 (MODULE_ERR_CODE m n)) = 0"
      by (simp only: unat_drop16 div_less not_le)
    then have "unat (ucast m :: u32) = 0" using a module_code_parts(1) [of n m] by simp
    then have "unat m = 0" using unat_lt_u16 [of m] by (simp add: unsigned_ucast_eq take_bit_nat_eq_self)
    with a show False by (simp add: word_unat_eq_iff)
  qed
qed (simp_all add: module_code_defs MODULE_ERR_CODE_def)

end
