(* ===== verification/Lib_Syscall.thy ===== *)
theory Lib_Syscall
  imports System_Errors
begin

text \<open>
  The user-space system call wrappers of lib/libsyscall/libsyscall.c.  In the source they
  are a simulation: they check their arguments and answer without entering the kernel.
  Pointers are options, sizes (\<open>size_t\<close>) are 64-bit words.
\<close>

definition sys_ok :: system_error where
  "sys_ok = system_error_create ERR_BASE_OK ERROR_CATEGORY_SYSTEM ERROR_SEVERITY_LOW MODULE_ID_SYSCALL"

definition sys_critical :: "u32 \<Rightarrow> system_error" where
  "sys_critical code =
     system_error_create code ERROR_CATEGORY_SAFETY ERROR_SEVERITY_CRITICAL MODULE_ID_SYSCALL"

definition sys_ipc_send :: "u16 \<Rightarrow> 'm option \<Rightarrow> u64 \<Rightarrow> system_error" where
  "sys_ipc_send target_pid message sz =
     (if message = None then sys_critical ERR_SAFE_CRITICAL_NULL
      else if sz = 0 \<or> 4096 < sz then sys_critical ERR_BASE_INVALID_SIZE
      else if target_pid = 0 then sys_critical ERR_SYS_INVALID_PARAM
      else sys_ok)"

text \<open>The simulated receive never delivers: with valid arguments it answers a timeout.  The
  second component is the caller's buffer after the call.\<close>

definition sys_ipc_receive :: "'m option \<Rightarrow> u64 \<Rightarrow> u32 \<Rightarrow> system_error \<times> 'm option" where
  "sys_ipc_receive buffer sz timeout_ms =
     (if buffer = None then sys_critical ERR_SAFE_CRITICAL_NULL
      else if sz = 0 \<or> 4096 < sz then sys_critical ERR_BASE_INVALID_SIZE
      else system_error_create ERR_BASE_TIMEOUT ERROR_CATEGORY_SYSTEM ERROR_SEVERITY_WARNING
             MODULE_ID_SYSCALL, buffer)"

definition sys_ipc_register_topic :: "string option \<Rightarrow> u32 \<Rightarrow> system_error" where
  "sys_ipc_register_topic topic_name flags =
     (case topic_name of
        None \<Rightarrow> sys_critical ERR_SAFE_CRITICAL_NULL
      | Some name \<Rightarrow>
          if length name = 0 \<or> 128 < length name then sys_critical ERR_SYS_INVALID_PARAM
          else sys_ok)"

definition sys_ipc_unregister_topic :: "string option \<Rightarrow> system_error" where
  "sys_ipc_unregister_topic topic_name =
     (if topic_name = None then sys_critical ERR_SAFE_CRITICAL_NULL else sys_ok)"

definition sys_ipc_publish :: "string option \<Rightarrow> 'm option \<Rightarrow> u64 \<Rightarrow> system_error" where
  "sys_ipc_publish topic message sz =
     (if topic = None \<or> message = None then sys_critical ERR_SAFE_CRITICAL_NULL
      else if sz = 0 \<or> 4096 < sz then sys_critical ERR_BASE_INVALID_SIZE
      else sys_ok)"

definition sys_ipc_subscribe :: "string option \<Rightarrow> u32 \<Rightarrow> system_error" where
  "sys_ipc_subscribe topic flags =
     (if topic = None then sys_critical ERR_SAFE_CRITICAL_NULL else sys_ok)"

text \<open>
  \<open>sys_time_get_us\<close> keeps a static counter, passed as the first argument; a result of
  \<open>None\<close> means that \<open>*timestamp\<close> is not written.
\<close>

definition sys_time_get_us :: "u64 \<Rightarrow> bool \<Rightarrow> system_error \<times> u64 option \<times> u64" where
  "sys_time_get_us current_time timestamp_given =
     (if \<not> timestamp_given then (sys_critical ERR_SAFE_CRITICAL_NULL, None, current_time)
      else (sys_ok, Some (current_time + 1000), current_time + 1000))"

definition sys_getpid :: "bool \<Rightarrow> system_error \<times> u16 option" where
  "sys_getpid pid_given =
     (if \<not> pid_given then (sys_critical ERR_SAFE_CRITICAL_NULL, None) else (sys_ok, Some 123))"

definition sys_service_lookup :: "string option \<Rightarrow> bool \<Rightarrow> system_error \<times> u16 option" where
  "sys_service_lookup service_name service_pid_given =
     (case service_name of
        None \<Rightarrow> (sys_critical ERR_SAFE_CRITICAL_NULL, None)
      | Some name \<Rightarrow>
          if \<not> service_pid_given then (sys_critical ERR_SAFE_CRITICAL_NULL, None)
          else if name = ''system/logger'' then (sys_ok, Some 100)
          else (system_error_create ERR_SYS_SERVICE_NOT_FOUND ERROR_CATEGORY_SYSTEM
                  ERROR_SEVERITY_WARNING MODULE_ID_SYSCALL, None))"

lemma sys_ok_code [simp]: "error_code sys_ok = 0"
  by (simp add: sys_ok_def)

lemma sys_critical_code [simp]: "error_code (sys_critical c) = c"
  by (simp add: sys_critical_def)

text \<open>When each wrapper answers OK.\<close>

lemma sys_ipc_publish_ok_iff:
  "error_code (sys_ipc_publish t m sz) = 0 \<longleftrightarrow> t \<noteq> None \<and> m \<noteq> None \<and> 0 < sz \<and> sz \<le> 4096"
  by (auto simp: sys_ipc_publish_def word_neq_0_conv)

lemma sys_ipc_send_ok_iff:
  "error_code (sys_ipc_send pid m sz) = 0 \<longleftrightarrow>
     m \<noteq> None \<and> 0 < sz \<and> sz \<le> 4096 \<and> pid \<noteq> 0"
  by (auto simp: sys_ipc_send_def word_neq_0_conv)

lemma sys_ipc_register_topic_ok_iff:
  "error_code (sys_ipc_register_topic (Some n) f) = 0 \<longleftrightarrow> n \<noteq> [] \<and> length n \<le> 128"
  by (auto simp: sys_ipc_register_topic_def)

lemma sys_ipc_receive_not_ok: "error_code (fst (sys_ipc_receive b sz t)) \<noteq> 0"
  by (simp add: sys_ipc_receive_def)

end
