(* ===== verification/Ipc_PubSub.thy ===== *)
theory Ipc_PubSub
  imports Ipc_Topics Lib_Syscall
begin

text \<open>
  Publish-subscribe on top of the system calls (lib/libipc/ipc_pubsub.h, ipc_pubsub.c).
  A handle is an optional record (NULL is \<open>None\<close>); a function that changes the structure
  behind a handle returns the new structure.  \<open>malloc\<close> is an argument: whether it
  succeeded.  A callback is the number of the function, and the calls made of it are
  returned as a trace.
\<close>

section \<open>Data\<close>

definition IPC_MAX_MESSAGE_SIZE :: u64 where
  "IPC_MAX_MESSAGE_SIZE = 4096"

definition IPC_TOPIC_MAX_LENGTH :: nat where
  "IPC_TOPIC_MAX_LENGTH = 64"

record ipc_publisher =
  pub_topic :: string
  pub_message_count :: u32
  pub_error_count :: u32

record ipc_subscriber =
  sub_topic :: string
  sub_callback :: nat
  sub_user_data :: "nat option"
  sub_message_count :: u32
  sub_error_count :: u32

record ipc_stats_t =
  is_total_messages :: u64
  is_total_errors :: u64
  is_active_publishers :: u32
  is_active_subscribers :: u32
  is_timestamp :: u64

record ipc_config_t =
  ic_max_message_size :: u64
  ic_queue_size :: u64
  ic_timeout_ms :: u32

text \<open>A call \<open>callback(message, size, user_data)\<close>.\<close>

record callback_call =
  cb_function :: nat
  cb_message :: "u8 list"
  cb_size :: u64
  cb_user_data :: "nat option"

section \<open>Publishers\<close>

text \<open>\<open>strncpy\<close> of at most 63 characters and the terminating NUL.\<close>

definition topic_field :: "string \<Rightarrow> string" where
  "topic_field t = take (IPC_TOPIC_MAX_LENGTH - 1) t"

definition ipc_create_publisher :: "bool \<Rightarrow> string option \<Rightarrow> ipc_publisher option" where
  "ipc_create_publisher malloc_ok topic_p =
     (case topic_p of
        None \<Rightarrow> None
      | Some topic \<Rightarrow>
          if ipc_validate_topic (Some topic) \<noteq> IPC_TOPIC_VALID then None
          else if IPC_TOPIC_MAX_LENGTH \<le> length topic then None
          else if \<not> malloc_ok then None
          else if error_code (sys_ipc_register_topic (Some topic) 0) \<noteq> ERR_BASE_OK then None
          else Some \<lparr>pub_topic = topic_field topic, pub_message_count = 0, pub_error_count = 0\<rparr>)"

definition pub_fail :: "ipc_publisher \<Rightarrow> int \<times> ipc_publisher" where
  "pub_fail p = (-1, p\<lparr>pub_error_count := pub_error_count p + 1\<rparr>)"

text \<open>\<open>ipc_publish\<close> on a publisher that is not NULL; a message is its bytes.\<close>

definition ipc_publish_on ::
  "u8 list option \<Rightarrow> u64 \<Rightarrow> ipc_publisher \<Rightarrow> int \<times> ipc_publisher" where
  "ipc_publish_on message sz p =
     (if message = None then pub_fail p
      else if sz = 0 then pub_fail p
      else if IPC_MAX_MESSAGE_SIZE < sz then pub_fail p
      else if error_code (sys_ipc_publish (Some (pub_topic p)) message sz) \<noteq> ERR_BASE_OK
      then pub_fail p
      else (0, p\<lparr>pub_message_count := pub_message_count p + 1\<rparr>))"

definition ipc_publish ::
  "ipc_publisher option \<Rightarrow> u8 list option \<Rightarrow> u64 \<Rightarrow> int \<times> ipc_publisher option" where
  "ipc_publish publisher message sz =
     (case publisher of
        None \<Rightarrow> (-1, None)
      | Some p \<Rightarrow> (case ipc_publish_on message sz p of (r, p') \<Rightarrow> (r, Some p')))"

definition ipc_publish_timeout ::
  "ipc_publisher option \<Rightarrow> u8 list option \<Rightarrow> u64 \<Rightarrow> u32 \<Rightarrow> int \<times> ipc_publisher option" where
  "ipc_publish_timeout publisher message sz timeout_ms = ipc_publish publisher message sz"

definition ipc_destroy_publisher :: "ipc_publisher option \<Rightarrow> ipc_publisher option" where
  "ipc_destroy_publisher publisher = None"

definition ipc_publisher_get_stats :: "ipc_publisher option \<Rightarrow> bool \<Rightarrow> int \<times> u32 option" where
  "ipc_publisher_get_stats publisher out_given =
     (case publisher of
        None \<Rightarrow> (-1, None)
      | Some p \<Rightarrow> if \<not> out_given then (-1, None) else (0, Some (pub_message_count p)))"

section \<open>Subscribers\<close>

definition ipc_create_subscriber ::
  "bool \<Rightarrow> string option \<Rightarrow> nat option \<Rightarrow> nat option \<Rightarrow> ipc_subscriber option" where
  "ipc_create_subscriber malloc_ok topic_p callback_p user_data =
     (case topic_p of
        None \<Rightarrow> None
      | Some topic \<Rightarrow>
        (case callback_p of
           None \<Rightarrow> None
         | Some callback \<Rightarrow>
             if ipc_validate_topic (Some topic) \<noteq> IPC_TOPIC_VALID then None
             else if IPC_TOPIC_MAX_LENGTH \<le> length topic then None
             else if \<not> malloc_ok then None
             else if error_code (sys_ipc_subscribe (Some topic) 0) \<noteq> ERR_BASE_OK then None
             else Some \<lparr>sub_topic = topic_field topic, sub_callback = callback,
                        sub_user_data = user_data, sub_message_count = 0,
                        sub_error_count = 0\<rparr>))"

text \<open>What \<open>ipc_subscriber_receive\<close> does with the answer of the system call, the buffer and
  the local variable \<open>received_size\<close>.\<close>

definition receive_outcome ::
  "system_error \<Rightarrow> u8 list \<Rightarrow> u64 \<Rightarrow> ipc_subscriber \<Rightarrow>
   int \<times> ipc_subscriber \<times> callback_call list" where
  "receive_outcome result buffer received_size sub =
     (if error_code result = ERR_BASE_OK \<and> 0 < received_size then
        (0, sub\<lparr>sub_message_count := sub_message_count sub + 1\<rparr>,
         [\<lparr>cb_function = sub_callback sub, cb_message = buffer, cb_size = received_size,
           cb_user_data = sub_user_data sub\<rparr>])
      else if error_code result \<noteq> ERR_BASE_OK then
        (-1, sub\<lparr>sub_error_count := sub_error_count sub + 1\<rparr>, [])
      else (-1, sub, []))"

text \<open>The system call gets the buffer and its length; no call stores into
  \<open>received_size\<close>.  The system call is an argument, so that the receive loop can be
  studied with any kernel behind it.\<close>

definition ipc_subscriber_receive_with ::
  "(u8 list option \<Rightarrow> u64 \<Rightarrow> u32 \<Rightarrow> system_error \<times> u8 list option) \<Rightarrow>
   ipc_subscriber option \<Rightarrow> u32 \<Rightarrow> int \<times> ipc_subscriber option \<times> callback_call list" where
  "ipc_subscriber_receive_with receive subscriber timeout_ms =
     (case subscriber of
        None \<Rightarrow> (-1, None, [])
      | Some sub \<Rightarrow>
          let buffer = replicate 4096 0;
              received_size = 0;
              (result, buffer') = receive (Some buffer) IPC_MAX_MESSAGE_SIZE timeout_ms
          in case receive_outcome result (the buffer') received_size sub of (r, sub', calls) \<Rightarrow>
               (r, Some sub', calls))"

definition ipc_subscriber_receive ::
  "ipc_subscriber option \<Rightarrow> u32 \<Rightarrow> int \<times> ipc_subscriber option \<times> callback_call list" where
  "ipc_subscriber_receive = ipc_subscriber_receive_with sys_ipc_receive"

definition ipc_destroy_subscriber ::
  "ipc_subscriber option \<Rightarrow> system_error option \<times> ipc_subscriber option" where
  "ipc_destroy_subscriber subscriber =
     (case subscriber of
        None \<Rightarrow> (None, None)
      | Some sub \<Rightarrow> (Some (sys_ipc_unregister_topic (Some (sub_topic sub))), None))"

definition ipc_subscriber_get_stats :: "ipc_subscriber option \<Rightarrow> bool \<Rightarrow> int \<times> u32 option" where
  "ipc_subscriber_get_stats subscriber out_given =
     (case subscriber of
        None \<Rightarrow> (-1, None)
      | Some sub \<Rightarrow> if \<not> out_given then (-1, None) else (0, Some (sub_message_count sub)))"

definition ipc_get_subscriber_count :: "string option \<Rightarrow> int" where
  "ipc_get_subscriber_count topic = (if topic = None then -1 else 0)"

definition ipc_topic_has_subscribers :: "string option \<Rightarrow> int" where
  "ipc_topic_has_subscribers topic =
     (let count = ipc_get_subscriber_count topic in
      if 0 < count then 1 else if count = 0 then 0 else -1)"

section \<open>Initialisation and configuration\<close>

text \<open>The counters of \<open>ipc_init\<close> and the topics the kernel accepted so far.\<close>

record init_progress =
  topic_count :: int
  success_count :: int
  registered :: "string list"

definition register_step :: "string \<Rightarrow> init_progress \<Rightarrow> init_progress" where
  "register_step topic s =
     (if ipc_validate_topic (Some topic) \<noteq> IPC_TOPIC_VALID then s
      else if error_code (sys_ipc_register_topic (Some topic) 0) = ERR_BASE_OK then
        s\<lparr>topic_count := topic_count s + 1, success_count := success_count s + 1,
          registered := registered s @ [topic]\<rparr>
      else s\<lparr>topic_count := topic_count s + 1\<rparr>)"

definition test_topics :: "string list" where
  "test_topics = [''application/vehicle/control'']"

definition ipc_init :: "int \<times> init_progress" where
  "ipc_init =
     (let s1 = fold register_step ipc_get_predefined_topics
                 \<lparr>topic_count = 0, success_count = 0, registered = []\<rparr>;
          s2 = fold register_step test_topics s1
      in if 0 < success_count s2 then (0, s2) else (-1, s2))"

text \<open>The clean-up prints a line; the topics stay registered.\<close>

definition ipc_cleanup :: "init_progress \<Rightarrow> init_progress" where
  "ipc_cleanup s = s"

definition ipc_get_stats :: "ipc_stats_t option \<Rightarrow> int \<times> ipc_stats_t option" where
  "ipc_get_stats stats =
     (case stats of
        None \<Rightarrow> (-1, None)
      | Some _ \<Rightarrow> (0, Some \<lparr>is_total_messages = 0, is_total_errors = 0, is_active_publishers = 0,
                         is_active_subscribers = 0, is_timestamp = 0\<rparr>))"

definition ipc_set_config :: "ipc_config_t option \<Rightarrow> int" where
  "ipc_set_config config =
     (case config of
        None \<Rightarrow> -1
      | Some c \<Rightarrow>
          if IPC_MAX_MESSAGE_SIZE < ic_max_message_size c then -1
          else if ic_queue_size c = 0 then -1
          else 0)"

definition ipc_get_config :: "ipc_config_t option \<Rightarrow> int \<times> ipc_config_t option" where
  "ipc_get_config config =
     (case config of
        None \<Rightarrow> (-1, None)
      | Some _ \<Rightarrow> (0, Some \<lparr>ic_max_message_size = IPC_MAX_MESSAGE_SIZE, ic_queue_size = 1024,
                         ic_timeout_ms = 1000\<rparr>))"

section \<open>Publishing\<close>

lemma publish_on_result:
  "fst (ipc_publish_on m sz p) = (if m \<noteq> None \<and> 0 < sz \<and> sz \<le> 4096 then 0 else -1)"
  by (auto simp: ipc_publish_on_def pub_fail_def sys_ipc_publish_ok_iff IPC_MAX_MESSAGE_SIZE_def
      word_neq_0_conv not_less)

lemma publish_on_state:
  "snd (ipc_publish_on m sz p) =
   (if m \<noteq> None \<and> 0 < sz \<and> sz \<le> 4096 then p\<lparr>pub_message_count := pub_message_count p + 1\<rparr>
    else p\<lparr>pub_error_count := pub_error_count p + 1\<rparr>)"
  by (auto simp: ipc_publish_on_def pub_fail_def sys_ipc_publish_ok_iff IPC_MAX_MESSAGE_SIZE_def
      word_neq_0_conv not_less)

lemma publish_on_topic [simp]: "pub_topic (snd (ipc_publish_on m sz p)) = pub_topic p"
  by (simp add: publish_on_state)

text \<open>One publish request: message and size.\<close>

definition publish_request :: "u8 list option \<times> u64 \<Rightarrow> ipc_publisher \<Rightarrow> int \<times> ipc_publisher" where
  "publish_request r p = ipc_publish_on (fst r) (snd r) p"

interpretation pub: accounted_operation publish_request "\<lambda>r. r = 0" pub_message_count pub_error_count
  by unfold_locales (auto simp: publish_request_def publish_on_result publish_on_state)

section \<open>Creating handles\<close>

lemma create_publisher_eq:
  "ipc_create_publisher malloc_ok (Some t) =
   (if malloc_ok \<and> well_formed_topic t \<and> length t < 64
    then Some \<lparr>pub_topic = t, pub_message_count = 0, pub_error_count = 0\<rparr> else None)"
proof -
  have "well_formed_topic t \<Longrightarrow> t \<noteq> []"
    by (auto simp: well_formed_topic_def)
  then show ?thesis
    by (auto simp: ipc_create_publisher_def validate_iff_well_formed IPC_TOPIC_MAX_LENGTH_def
        topic_field_def sys_ipc_register_topic_ok_iff)
qed

lemma create_publisher_Some_iff:
  "ipc_create_publisher malloc_ok tp = Some p \<longleftrightarrow>
     (\<exists>t. tp = Some t \<and> malloc_ok \<and> well_formed_topic t \<and> length t < 64 \<and>
        p = \<lparr>pub_topic = t, pub_message_count = 0, pub_error_count = 0\<rparr>)"
proof (cases tp)
  case None
  then show ?thesis by (simp add: ipc_create_publisher_def)
next
  case (Some t)
  then show ?thesis by (auto simp: create_publisher_eq)
qed

text \<open>A publisher is created exactly for the topics of the naming convention with at
  most 63 characters (validation alone accepts 64), and it starts with zero counters and
  its full topic name.\<close>

theorem create_publisher_iff:
  "ipc_create_publisher True (Some t) = Some p \<longleftrightarrow>
     ipc_validate_topic (Some t) = IPC_TOPIC_VALID \<and> length t < MAX_TOPIC_LENGTH \<and>
     p = \<lparr>pub_topic = t, pub_message_count = 0, pub_error_count = 0\<rparr>"
  by (auto simp: create_publisher_Some_iff validate_iff_well_formed MAX_TOPIC_LENGTH_def)

text \<open>C37: Over any sequence of publish calls no call is lost to the statistics: the message
  counter advances by the number of calls that returned 0, the error counter by the number
  of the others (modulo 2 to the 32), and the topic does not change.\<close>

theorem publish_run_accounting:
  "let (rs, p') = run_calls publish_request reqs p in
     rs = map (\<lambda>(m, sz). if m \<noteq> None \<and> 0 < sz \<and> sz \<le> 4096 then 0 else -1) reqs \<and>
     pub_message_count p' = pub_message_count p + word_of_nat (length (filter (\<lambda>r. r = 0) rs)) \<and>
     pub_error_count p' = pub_error_count p + word_of_nat (length (filter (\<lambda>r. r \<noteq> 0) rs)) \<and>
     pub_topic p' = pub_topic p"
proof -
  have "fst (run_calls publish_request reqs p) =
        map (\<lambda>(m, sz). if m \<noteq> None \<and> 0 < sz \<and> sz \<le> 4096 then 0 else -1) reqs \<and>
        pub_topic (snd (run_calls publish_request reqs p)) = pub_topic p"
  proof (induction reqs arbitrary: p)
    case Nil
    then show ?case by simp
  next
    case (Cons r reqs)
    have "fst (publish_request r p) = (case r of (m, sz) \<Rightarrow> if m \<noteq> None \<and> 0 < sz \<and> sz \<le> 4096 then 0 else -1)"
      "pub_topic (snd (publish_request r p)) = pub_topic p"
      by (auto simp: publish_request_def publish_on_result split: prod.split)
    then show ?case
      using Cons.IH [of "snd (publish_request r p)"] by (simp add: Let_def split_def)
  qed
  then show ?thesis
    using pub.run_oks [of reqs p] pub.run_errs [of reqs p] by (simp add: Let_def split_def)
qed

section \<open>Receiving\<close>

lemma receive_outcome_zero: "receive_outcome e buf 0 sub =
  (-1, if error_code e = ERR_BASE_OK then sub
       else sub\<lparr>sub_error_count := sub_error_count sub + 1\<rparr>, [])"
  by (simp add: receive_outcome_def)

text \<open>Whatever the kernel's receive call answers, \<open>ipc_subscriber_receive\<close> never
  delivers: the local \<open>received_size\<close> is never stored into, so the call returns -1, runs
  no callback and does not count a message, even when the kernel reports success.\<close>

theorem subscriber_receive_never_delivers:
  "case ipc_subscriber_receive_with receive (Some sub) timeout_ms of (r, sub', calls) \<Rightarrow>
     r = -1 \<and> calls = [] \<and> map_option sub_message_count sub' = Some (sub_message_count sub) \<and>
     map_option sub_error_count sub' =
       Some (if error_code (fst (receive (Some (replicate 4096 0)) 4096 timeout_ms)) = ERR_BASE_OK
             then sub_error_count sub else sub_error_count sub + 1)"
  by (simp add: ipc_subscriber_receive_with_def receive_outcome_zero IPC_MAX_MESSAGE_SIZE_def Let_def
      split_def)

section \<open>Initialisation\<close>

lemma validate_predefined:
  "map (\<lambda>t. ipc_validate_topic (Some t)) PREDEFINED_TOPICS =
   replicate 10 IPC_TOPIC_VALID @ [IPC_TOPIC_RESERVED_NAMESPACE] @ replicate 4 IPC_TOPIC_VALID"
  by code_simp

text \<open>\<open>ipc_init\<close> succeeds and registers, in order, every predefined topic except
  \<open>safety/status/overall\<close>, which its own validation refuses, and then the test topic.\<close>

theorem ipc_init_registers:
  "fst ipc_init = 0 \<and>
   registered (snd ipc_init) =
     filter (\<lambda>t. t \<noteq> ''safety/status/overall'') PREDEFINED_TOPICS @ [''application/vehicle/control''] \<and>
   topic_count (snd ipc_init) = success_count (snd ipc_init) \<and>
   ipc_is_predefined_topic (Some ''safety/status/overall'')"
  by code_simp

end
