(* ===== verification/Ipc_Priority.thy ===== *)
theory Ipc_Priority
  imports Auto_Prelude
begin

text \<open>
  Priority configuration of lib/libipc/ipc_priority.h and ipc_priority.c: a static table of
  four configurations, adjusted dynamically from the depth of a queue.  A priority is a
  32-bit word because the code checks its range; the table is passed and returned.
\<close>

section \<open>Data\<close>

abbreviation IPC_PRIORITY_EMERGENCY :: u32 where "IPC_PRIORITY_EMERGENCY \<equiv> 0"
abbreviation IPC_PRIORITY_ERROR :: u32 where "IPC_PRIORITY_ERROR \<equiv> 1"
abbreviation IPC_PRIORITY_WARNING :: u32 where "IPC_PRIORITY_WARNING \<equiv> 2"
abbreviation IPC_PRIORITY_INFO :: u32 where "IPC_PRIORITY_INFO \<equiv> 3"
abbreviation IPC_PRIORITY_COUNT :: u32 where "IPC_PRIORITY_COUNT \<equiv> 4"

record ipc_priority_config_t =
  pc_timeout_ms :: u32
  pc_retry_count :: u8
  pc_max_queue_depth :: u8
  pc_current_utilization :: u8

record ipc_utilization_stats_t =
  us_utilization :: "u8 list"
  us_total_utilization :: u16
  us_average_utilization :: u8

type_synonym priority_table = "ipc_priority_config_t list"

definition priority_config :: "u32 \<Rightarrow> u8 \<Rightarrow> u8 \<Rightarrow> ipc_priority_config_t" where
  "priority_config t r d =
     \<lparr>pc_timeout_ms = t, pc_retry_count = r, pc_max_queue_depth = d, pc_current_utilization = 0\<rparr>"

definition g_priority_configs :: priority_table where
  "g_priority_configs =
     [priority_config 10 3 10, priority_config 50 2 20, priority_config 100 1 50,
      priority_config 500 0 100]"

definition UTILIZATION_HIGH_THRESHOLD :: u8 where
  "UTILIZATION_HIGH_THRESHOLD = 80"

definition UTILIZATION_CRITICAL_THRESHOLD :: u8 where
  "UTILIZATION_CRITICAL_THRESHOLD = 95"

definition g_priority_names :: "string list" where
  "g_priority_names = [''EMERGENCY'', ''ERROR'', ''WARNING'', ''INFO'']"

section \<open>Operations\<close>

definition ipc_validate_priority :: "u32 \<Rightarrow> bool" where
  "ipc_validate_priority priority \<longleftrightarrow>
     IPC_PRIORITY_EMERGENCY \<le> priority \<and> priority < IPC_PRIORITY_COUNT"

definition config_at :: "priority_table \<Rightarrow> u32 \<Rightarrow> ipc_priority_config_t" where
  "config_at configs priority = configs ! unat priority"

text \<open>The product and the quotient are computed in \<open>int\<close>; the result is returned as
  \<open>uint8_t\<close>.\<close>

definition calculate_utilization :: "u32 \<Rightarrow> u16 \<Rightarrow> priority_table \<Rightarrow> u8" where
  "calculate_utilization priority current_depth configs =
     (if \<not> ipc_validate_priority priority then 0
      else
        let max_depth = (ucast (pc_max_queue_depth (config_at configs priority)) :: u16) in
        if max_depth = 0 then 100
        else word_of_nat (unat current_depth * 100 div unat max_depth))"

text \<open>The new timeout of an entry and the return value, once the utilization is known.\<close>

definition adjusted :: "u32 \<Rightarrow> u8 \<Rightarrow> u32 \<Rightarrow> int \<times> u32" where
  "adjusted priority utilization timeout =
     (if UTILIZATION_CRITICAL_THRESHOLD \<le> utilization then
        if IPC_PRIORITY_EMERGENCY < priority then
          (1, let t = timeout div 2 in if t < 5 then 5 else t)
        else (0, timeout)
      else if UTILIZATION_HIGH_THRESHOLD \<le> utilization then
        (1, if priority < IPC_PRIORITY_INFO then timeout + 10 else timeout)
      else (0, timeout))"

definition ipc_adjust_priority_dynamic ::
  "u32 \<Rightarrow> u16 \<Rightarrow> priority_table \<Rightarrow> int \<times> priority_table" where
  "ipc_adjust_priority_dynamic priority current_depth configs =
     (if \<not> ipc_validate_priority priority then (-1, configs)
      else
        let utilization = calculate_utilization priority current_depth configs;
            c = (config_at configs priority)\<lparr>pc_current_utilization := utilization\<rparr>
        in case adjusted priority utilization (pc_timeout_ms c) of
             (r, t) \<Rightarrow> (r, configs[unat priority := c\<lparr>pc_timeout_ms := t\<rparr>]))"

definition ipc_get_priority_config ::
  "u32 \<Rightarrow> bool \<Rightarrow> priority_table \<Rightarrow> int \<times> ipc_priority_config_t option" where
  "ipc_get_priority_config priority config_given configs =
     (if \<not> config_given then (-1, None)
      else if \<not> ipc_validate_priority priority then (-1, None)
      else (0, Some (config_at configs priority)))"

definition ipc_get_dynamic_priority_config ::
  "u32 \<Rightarrow> bool \<Rightarrow> u16 \<Rightarrow> priority_table \<Rightarrow> int \<times> ipc_priority_config_t option \<times> priority_table" where
  "ipc_get_dynamic_priority_config priority config_given current_depth configs =
     (if \<not> config_given then (-1, None, configs)
      else if \<not> ipc_validate_priority priority then (-1, None, configs)
      else
        let configs' = snd (ipc_adjust_priority_dynamic priority current_depth configs)
        in (0, Some (config_at configs' priority), configs'))"

definition ipc_set_priority_config ::
  "u32 \<Rightarrow> ipc_priority_config_t option \<Rightarrow> priority_table \<Rightarrow> int \<times> priority_table" where
  "ipc_set_priority_config priority config configs =
     (case config of
        None \<Rightarrow> (-1, configs)
      | Some c \<Rightarrow>
          if \<not> ipc_validate_priority priority then (-1, configs)
          else if pc_timeout_ms c = 0 \<or> pc_max_queue_depth c = 0 then (-1, configs)
          else (0, configs[unat priority := c]))"

text \<open>The switch of \<open>ipc_reset_priority_config\<close>: three fields are assigned, then the
  utilization is cleared.\<close>

definition reset_fields :: "u32 \<Rightarrow> u8 \<Rightarrow> u8 \<Rightarrow> ipc_priority_config_t \<Rightarrow> ipc_priority_config_t" where
  "reset_fields t r d c =
     c\<lparr>pc_timeout_ms := t, pc_retry_count := r, pc_max_queue_depth := d,
       pc_current_utilization := 0\<rparr>"

definition ipc_reset_priority_config :: "u32 \<Rightarrow> priority_table \<Rightarrow> int \<times> priority_table" where
  "ipc_reset_priority_config priority configs =
     (if \<not> ipc_validate_priority priority then (-1, configs)
      else
        let upd = (\<lambda>f. configs[unat priority := f (config_at configs priority)]) in
        if priority = IPC_PRIORITY_EMERGENCY then (0, upd (reset_fields 10 3 10))
        else if priority = IPC_PRIORITY_ERROR then (0, upd (reset_fields 50 2 20))
        else if priority = IPC_PRIORITY_WARNING then (0, upd (reset_fields 100 1 50))
        else if priority = IPC_PRIORITY_INFO then (0, upd (reset_fields 500 0 100))
        else (-1, configs))"

definition ipc_get_system_utilization_stats ::
  "bool \<Rightarrow> priority_table \<Rightarrow> int \<times> ipc_utilization_stats_t option" where
  "ipc_get_system_utilization_stats stats_given configs =
     (if \<not> stats_given then (-1, None)
      else
        let us = map pc_current_utilization configs;
            total = foldl (\<lambda>a u. a + ucast u) (0 :: u16) us
        in (0, Some \<lparr>us_utilization = us, us_total_utilization = total,
                     us_average_utilization = ucast (total div 4)\<rparr>))"

definition ipc_get_priority_name :: "u32 \<Rightarrow> string" where
  "ipc_get_priority_name priority =
     (if ipc_validate_priority priority then g_priority_names ! unat priority else ''INVALID'')"

section \<open>Lemmas\<close>

lemma validate_priority_iff: "ipc_validate_priority p \<longleftrightarrow> unat p < 4"
  by (simp add: ipc_validate_priority_def word_less_nat_alt)

lemma validate_priority_cases:
  "ipc_validate_priority p \<longleftrightarrow> p = 0 \<or> p = 1 \<or> p = 2 \<or> p = 3"
proof -
  have "unat p < 4 \<longleftrightarrow> unat p = 0 \<or> unat p = 1 \<or> unat p = 2 \<or> unat p = 3"
    by auto
  then show ?thesis
    by (simp add: validate_priority_iff word_unat_eq_iff)
qed

lemma length_adjust [simp]: "length (snd (ipc_adjust_priority_dynamic p d cfg)) = length cfg"
  by (simp add: ipc_adjust_priority_dynamic_def Let_def split: prod.split)

text \<open>The fields of a configuration that adjustment leaves alone.\<close>

definition capacity_of :: "ipc_priority_config_t \<Rightarrow> u8 \<times> u8" where
  "capacity_of c = (pc_retry_count c, pc_max_queue_depth c)"

lemma adjust_capacity:
  "map capacity_of (snd (ipc_adjust_priority_dynamic p d cfg)) = map capacity_of cfg"
proof (cases "unat p < length cfg")
  case True
  then show ?thesis
    by (auto simp: ipc_adjust_priority_dynamic_def Let_def capacity_of_def config_at_def
        list_eq_iff_nth_eq nth_list_update split: prod.split)
next
  case False
  then show ?thesis
    by (simp add: ipc_adjust_priority_dynamic_def Let_def not_less split_def map_update list_update_beyond)
qed

lemma reset_fields_eq: "reset_fields t r d c = priority_config t r d"
  by (cases c) (simp add: reset_fields_def priority_config_def)

lemma reset_valid:
  "ipc_validate_priority p \<Longrightarrow> length cfg = 4 \<Longrightarrow>
   ipc_reset_priority_config p cfg = (0, cfg[unat p := g_priority_configs ! unat p])"
  by (auto simp: validate_priority_cases ipc_reset_priority_config_def Let_def
      g_priority_configs_def reset_fields_eq)

lemma table_4: "length cfg = 4 \<Longrightarrow> \<exists>a b c d. cfg = [a, b, c, d]"
  by (auto simp: numeral_eq_Suc length_Suc_conv)

text \<open>Resetting the four priorities restores the default table, from any table.\<close>

theorem reset_all_restores_defaults:
  "length cfg = 4 \<Longrightarrow>
   fold (\<lambda>p t. snd (ipc_reset_priority_config p t)) [0, 1, 2, 3] cfg = g_priority_configs"
  by (auto dest!: table_4
      simp: reset_valid validate_priority_cases g_priority_configs_def)

theorem reset_all_restores_defaults_witness:
  "fold (\<lambda>p t. snd (ipc_reset_priority_config p t)) [0, 1, 2, 3]
     (replicate 4 (priority_config 7 7 7)) = g_priority_configs"
  by (rule reset_all_restores_defaults) simp

text \<open>The utilization that is stored is the percentage modulo 256.\<close>

lemma unat_utilization:
  assumes "ipc_validate_priority p" and "unat (pc_max_queue_depth (config_at cfg p)) = m" and "0 < m"
  shows "unat (calculate_utilization p d cfg) = unat d * 100 div m mod 256"
proof -
  have "unat (ucast (pc_max_queue_depth (config_at cfg p)) :: u16) = m"
    using assms unat_lt_u8 [of "pc_max_queue_depth (config_at cfg p)"]
    by (simp add: unsigned_ucast_eq take_bit_eq_mod)
  moreover from this have "(ucast (pc_max_queue_depth (config_at cfg p)) :: u16) \<noteq> 0"
    using assms by (auto simp: word_unat_eq_iff)
  ultimately show ?thesis
    using assms by (simp add: calculate_utilization_def Let_def unat_of_nat)
qed

text \<open>While a queue holds at most two and a half times its configured depth, the
  utilization is the exact percentage; in general it is that percentage modulo 256, because
  it is truncated to 8 bits.\<close>

theorem utilization_percentage:
  assumes "unat p < 4" and "unat (pc_max_queue_depth (config_at cfg p)) = m" and "0 < m"
  shows "unat (calculate_utilization p d cfg) = unat d * 100 div m mod 256 \<and>
    (2 * unat d \<le> 5 * m \<longrightarrow> unat (calculate_utilization p d cfg) = unat d * 100 div m)"
proof -
  have "unat d * 100 div m \<le> 250" if "2 * unat d \<le> 5 * m"
  proof -
    have "unat d * 100 \<le> 250 * m" using that by simp
    then have "unat d * 100 div m \<le> 250 * m div m" by (rule div_le_mono)
    then show ?thesis using assms(3) by simp
  qed
  then show ?thesis
    using unat_utilization [of p cfg m d] assms by (auto simp: validate_priority_iff)
qed

theorem utilization_percentage_witness:
  "unat (calculate_utilization 3 80 g_priority_configs) = 80 * 100 div 100"
  using utilization_percentage [of 3 g_priority_configs 100 80]
  by (simp add: g_priority_configs_def config_at_def priority_config_def)

text \<open>The truncation hides overload: with the default table an INFO queue of 256
  entries, more than two and a half times its depth, is reported as empty and not adjusted,
  while 95 entries already count as critical.\<close>

theorem utilization_wraps:
  "pc_current_utilization (config_at (snd (ipc_adjust_priority_dynamic IPC_PRIORITY_INFO 256 g_priority_configs))
      IPC_PRIORITY_INFO) = 0 \<and>
   fst (ipc_adjust_priority_dynamic IPC_PRIORITY_INFO 256 g_priority_configs) = 0 \<and>
   fst (ipc_adjust_priority_dynamic IPC_PRIORITY_INFO 95 g_priority_configs) = 1"
proof -
  have u: "calculate_utilization 3 256 g_priority_configs = 0"
    "calculate_utilization 3 95 g_priority_configs = 95"
    by (simp_all add: calculate_utilization_def ipc_validate_priority_def g_priority_configs_def
        config_at_def priority_config_def)
  show ?thesis
    unfolding ipc_adjust_priority_dynamic_def u
    by (simp add: adjusted_def ipc_validate_priority_def config_at_def g_priority_configs_def
        UTILIZATION_CRITICAL_THRESHOLD_def UTILIZATION_HIGH_THRESHOLD_def)
qed

text \<open>One adjustment of a valid priority rewrites only that entry: retries and queue
  depth stay, the utilization is recorded, and the timeout is halved (down to 5 ms) when
  the utilization is critical, raised by 10 ms when it is high, and kept otherwise; the
  EMERGENCY timeout is never lowered and the INFO timeout never raised.\<close>

theorem adjust_entry:
  assumes "unat p < 4" and "length cfg = 4"
  shows "let u = calculate_utilization p d cfg; c = config_at cfg p;
             (r, cfg') = ipc_adjust_priority_dynamic p d cfg; c' = config_at cfg' p in
     pc_retry_count c' = pc_retry_count c \<and> pc_max_queue_depth c' = pc_max_queue_depth c \<and>
     pc_current_utilization c' = u \<and>
     (\<forall>i. i \<noteq> unat p \<longrightarrow> cfg' ! i = cfg ! i) \<and>
     unat (pc_timeout_ms c') =
       (if 95 \<le> unat u \<and> p \<noteq> 0 then max 5 (unat (pc_timeout_ms c) div 2)
        else if 80 \<le> unat u \<and> unat u < 95 \<and> unat p < 3
        then (unat (pc_timeout_ms c) + 10) mod 2 ^ 32
        else unat (pc_timeout_ms c)) \<and>
     (r = 1 \<longleftrightarrow> 80 \<le> unat u \<and> \<not> (p = 0 \<and> 95 \<le> unat u))"
proof -
  have half: "unat (let t = x div 2 in if t < 5 then 5 else t) = max 5 (unat x div 2)" for x :: u32
    by (simp add: Let_def word_less_nat_alt unat_div)
  have ten: "unat (x + 10) = (unat x + 10) mod 2 ^ 32" for x :: u32
    by (simp add: unat_word_ariths)
  have pos: "(p = 0) = (unat p = 0)"
    by (simp add: word_unat_eq_iff)
  show ?thesis
    using assms half ten
    by (auto simp: ipc_adjust_priority_dynamic_def adjusted_def config_at_def split_def Let_def
        validate_priority_iff UTILIZATION_CRITICAL_THRESHOLD_def UTILIZATION_HIGH_THRESHOLD_def
        word_le_nat_alt word_less_nat_alt pos)
qed

theorem adjust_entry_witness:
  "unat (pc_timeout_ms (config_at (snd (ipc_adjust_priority_dynamic 1 20 g_priority_configs)) 1)) = 25"
proof -
  have "calculate_utilization 1 20 g_priority_configs = 100"
    by (simp add: calculate_utilization_def ipc_validate_priority_def g_priority_configs_def
        config_at_def priority_config_def)
  then show ?thesis
    using adjust_entry [of 1 g_priority_configs 20]
    by (simp add: Let_def split_def g_priority_configs_def config_at_def priority_config_def)
qed

section \<open>Runs of adjustments\<close>

definition timeouts_within :: "nat \<Rightarrow> nat \<Rightarrow> priority_table \<Rightarrow> bool" where
  "timeouts_within lo hi cfg \<longleftrightarrow>
     list_all (\<lambda>c. lo \<le> unat (pc_timeout_ms c) \<and> unat (pc_timeout_ms c) \<le> hi) cfg"

lemma adjusted_timeout_bounds:
  assumes "5 \<le> unat t" and "unat t \<le> hi" and "hi + 10 < 2 ^ 32"
  shows "5 \<le> unat (snd (adjusted p u t)) \<and> unat (snd (adjusted p u t)) \<le> hi + 10"
proof -
  have "unat (t + 10) = unat t + 10"
    using assms by (simp add: unat_word_ariths)
  moreover have "unat (t div 2) \<le> hi"
    using assms by (simp add: unat_div)
  moreover have "\<not> t div 2 < 5 \<Longrightarrow> 5 \<le> unat (t div 2)"
    by (simp add: word_less_nat_alt not_less)
  ultimately show ?thesis
    using assms by (auto simp: adjusted_def Let_def)
qed

lemma adjust_timeouts_within:
  assumes within: "timeouts_within 5 hi cfg" and hi: "hi + 10 < 2 ^ 32" and len: "length cfg = 4"
  shows "timeouts_within 5 (hi + 10) (snd (ipc_adjust_priority_dynamic p d cfg))"
proof -
  have cfg: "timeouts_within 5 (hi + 10) cfg"
    using within by (auto simp: timeouts_within_def list_all_iff)
  show ?thesis
  proof (cases "ipc_validate_priority p")
    case False
    then show ?thesis
      using cfg by (simp add: ipc_adjust_priority_dynamic_def)
  next
    case True
    then have p: "unat p < length cfg"
      using len by (simp add: validate_priority_iff)
    then have "5 \<le> unat (pc_timeout_ms (cfg ! unat p))" "unat (pc_timeout_ms (cfg ! unat p)) \<le> hi"
      using within by (auto simp: timeouts_within_def list_all_length)
    then have "5 \<le> unat (snd (adjusted p u (pc_timeout_ms (cfg ! unat p)))) \<and>
               unat (snd (adjusted p u (pc_timeout_ms (cfg ! unat p)))) \<le> hi + 10" for u
      using adjusted_timeout_bounds hi by blast
    then show ?thesis
      using True cfg p
      by (auto simp: timeouts_within_def ipc_adjust_priority_dynamic_def Let_def split_def
          list_all_length nth_list_update config_at_def)
  qed
qed

definition adjust_request :: "u32 \<times> u16 \<Rightarrow> priority_table \<Rightarrow> int \<times> priority_table" where
  "adjust_request r = ipc_adjust_priority_dynamic (fst r) (snd r)"

lemma adjust_run:
  assumes "timeouts_within 5 hi cfg" and "hi + 10 * length reqs < 2 ^ 32" and "length cfg = 4"
  shows "timeouts_within 5 (hi + 10 * length reqs) (snd (run_calls adjust_request reqs cfg)) \<and>
         map capacity_of (snd (run_calls adjust_request reqs cfg)) = map capacity_of cfg"
  using assms
proof (induction reqs arbitrary: cfg hi)
  case Nil
  then show ?case by simp
next
  case (Cons r reqs)
  let ?cfg1 = "snd (adjust_request r cfg)"
  have "timeouts_within 5 (hi + 10) ?cfg1"
    using Cons.prems by (simp add: adjust_request_def adjust_timeouts_within)
  then show ?case
    using Cons.IH [of "hi + 10" ?cfg1] Cons.prems
    by (simp add: Let_def split_def adjust_request_def adjust_capacity algebra_simps)
qed

text \<open>From the default table, any run of \<open>n\<close> adjustments (fewer than 400 million, so
  that no timeout can wrap) keeps every timeout between 5 ms and \<open>500 + 10 n\<close> ms and never
  touches retry counts or queue depths.\<close>

theorem adjust_run_bounds:
  assumes "length reqs < 400000000"
  shows "let cfg = snd (run_calls adjust_request reqs g_priority_configs) in
    timeouts_within 5 (500 + 10 * length reqs) cfg \<and>
    map capacity_of cfg = map capacity_of g_priority_configs"
  using adjust_run [of 500 g_priority_configs reqs] assms
  by (simp add: Let_def timeouts_within_def g_priority_configs_def priority_config_def)

theorem adjust_run_bounds_witness:
  "timeouts_within 5 520 (snd (run_calls adjust_request [(3, 95), (1, 17)] g_priority_configs))"
  using adjust_run_bounds [of "[(3, 95), (1, 17)]"] by (simp add: Let_def)

section \<open>Statistics\<close>

lemma total_utilization:
  assumes "length cfg = 4"
  shows "unat (foldl (\<lambda>a u. a + ucast u) (0 :: u16) (map pc_current_utilization cfg)) =
         sum_bytes (map pc_current_utilization cfg)"
proof -
  have "sum_bytes (map pc_current_utilization cfg) \<le> 255 * 4"
    using sum_bytes_le [of "map pc_current_utilization cfg"] assms by simp
  then show ?thesis
    by (simp add: foldl_add_bytes unat_u16_of_nat)
qed

text \<open>The utilization statistics are exact: the 16-bit total is the sum of the four
  entries and the 8-bit average its quotient by four, without wrap-around.\<close>

theorem utilization_stats_exact:
  assumes "length cfg = 4"
  shows "case ipc_get_system_utilization_stats True cfg of
    (r, Some st) \<Rightarrow> r = 0 \<and> us_utilization st = map pc_current_utilization cfg \<and>
       unat (us_total_utilization st) = sum_bytes (map pc_current_utilization cfg) \<and>
       unat (us_average_utilization st) = sum_bytes (map pc_current_utilization cfg) div 4
  | (r, None) \<Rightarrow> False"
proof -
  let ?s = "sum_bytes (map pc_current_utilization cfg)"
  have "?s \<le> 1020"
    using sum_bytes_le [of "map pc_current_utilization cfg"] assms by simp
  then have "?s div 4 mod 256 = ?s div 4" by simp
  then show ?thesis
    using total_utilization [OF assms]
    by (simp add: ipc_get_system_utilization_stats_def Let_def unsigned_ucast_eq take_bit_eq_mod unat_div)
qed

theorem utilization_stats_exact_witness:
  "unat (us_average_utilization (the (snd (ipc_get_system_utilization_stats True g_priority_configs)))) = 0"
  using utilization_stats_exact [of g_priority_configs]
  by (simp add: g_priority_configs_def priority_config_def split: option.splits prod.splits)

end
