(* ===== verification/C_Float.thy ===== *)
theory C_Float
  imports Auto_Prelude "HOL-Library.Log_Nat" Complex_Main
begin

text \<open>
  The type \<open>float\<close> of C on the program's platforms: IEEE 754 binary32, rounding to nearest,
  ties to even.  A float is the rational number it stands for; an operation is the exact
  operation followed by \<open>float_round\<close>, which rounds to 24 significant bits, and to a multiple of
  2^-149 below the normal range.  The numbers of the program (utilisations, efficiencies,
  integers below 2^64) are far below 2^128, so infinities do not occur and are not modelled; no
  division of the program has a zero divisor.  An expression is evaluated in its own type, with
  no wider intermediate results and no fused operations (\<open>FLT_EVAL_METHOD\<close> is 0).
\<close>

section \<open>Rounding\<close>

text \<open>The exponent of the leading binary digit of a positive number.\<close>

definition rat_exponent :: "rat \<Rightarrow> int" where
  "rat_exponent x =
     (case quotient_of x of (p, q) \<Rightarrow>
        let e = bitlen p - bitlen q in if 2 powi e \<le> x then e else e - 1)"

definition round_int :: "rat \<Rightarrow> int" where
  "round_int x =
     (let f = \<lfloor>x\<rfloor>; d = x - of_int f in
      if d < 1 / 2 then f else if 1 / 2 < d then f + 1 else if even f then f else f + 1)"

text \<open>The distance of neighbouring floats at a positive number.\<close>

definition float_ulp :: "rat \<Rightarrow> rat" where
  "float_ulp x = 2 powi (max (rat_exponent x) (- 126) - 23)"

definition float_round :: "rat \<Rightarrow> rat" where
  "float_round x =
     (if x = 0 then 0
      else if 0 < x then of_int (round_int (x / float_ulp x)) * float_ulp x
      else - (of_int (round_int (- x / float_ulp (- x))) * float_ulp (- x)))"

definition fadd :: "rat \<Rightarrow> rat \<Rightarrow> rat" where "fadd x y = float_round (x + y)"
definition fsub :: "rat \<Rightarrow> rat \<Rightarrow> rat" where "fsub x y = float_round (x - y)"
definition fmul :: "rat \<Rightarrow> rat \<Rightarrow> rat" where "fmul x y = float_round (x * y)"
definition fdiv :: "rat \<Rightarrow> rat \<Rightarrow> rat" where "fdiv x y = float_round (x / y)"

text \<open>The conversion of an unsigned integer.\<close>

definition float_of_uint :: "'a :: len word \<Rightarrow> rat" where
  "float_of_uint w = float_round (of_nat (unat w))"

lemmas float_ops = fadd_def fsub_def fmul_def fdiv_def float_of_uint_def

section \<open>The exponent\<close>

lemma bitlen_powi:
  assumes "0 < p"
  shows "(2 :: rat) powi (bitlen p - 1) \<le> of_int p" "(of_int p :: rat) < 2 powi bitlen p"
proof -
  have pos: "1 \<le> bitlen p"
    using assms bitlen_nonneg [of p] bitlen_eq_zero_iff [of p] by linarith
  have b: "2 ^ nat (bitlen p - 1) \<le> p" "p < 2 ^ nat (bitlen p)"
    using bitlen_bounds [OF assms] by auto
  have "(of_int (2 ^ nat (bitlen p - 1)) :: rat) \<le> of_int p" "(of_int p :: rat) < of_int (2 ^ nat (bitlen p))"
    using b unfolding of_int_le_iff of_int_less_iff .
  then show "(2 :: rat) powi (bitlen p - 1) \<le> of_int p" "(of_int p :: rat) < 2 powi bitlen p"
    using pos by (simp_all add: power_int_def)
qed

lemma powi_pos: "0 < (2 :: rat) powi e"
  by (rule zero_less_power_int) simp

lemma rat_exponent_bounds:
  assumes "0 < x"
  shows "2 powi rat_exponent x \<le> x" "x < 2 powi (rat_exponent x + 1)"
proof -
  obtain p q where pq: "quotient_of x = (p, q)" by (cases "quotient_of x")
  have q: "0 < q" using quotient_of_denom_pos [OF pq] .
  have x: "x = of_int p / of_int q" using quotient_of_div [OF pq] .
  have p: "0 < p" using assms x q by (simp add: zero_less_divide_iff)
  let ?e = "bitlen p - bitlen q"
  have qp: "0 < (of_int q :: rat)" using q by simp
  have s: "(2 :: rat) powi (bitlen p - 1) = 2 powi (?e - 1) * 2 powi bitlen q"
    "(2 :: rat) powi bitlen p = 2 powi (?e + 1) * 2 powi (bitlen q - 1)"
    by (simp_all flip: power_int_add)
  have lo: "2 powi (?e - 1) \<le> x"
  proof -
    have "2 powi (?e - 1) * of_int q \<le> 2 powi (?e - 1) * (2 :: rat) powi bitlen q"
      using bitlen_powi(2) [OF q] powi_pos by (intro mult_left_mono) (auto simp: less_imp_le)
    also have "\<dots> \<le> of_int p" using bitlen_powi(1) [OF p] s(1) by simp
    finally show ?thesis using qp by (simp add: x pos_le_divide_eq)
  qed
  have hi: "x < 2 powi (?e + 1)"
  proof -
    have "of_int p < 2 powi (?e + 1) * (2 :: rat) powi (bitlen q - 1)"
      using bitlen_powi(2) [OF p] s(2) by simp
    also have "\<dots> \<le> 2 powi (?e + 1) * of_int q"
      using bitlen_powi(1) [OF q] powi_pos by (intro mult_left_mono) (auto simp: less_imp_le)
    finally show ?thesis using qp by (simp add: x pos_divide_less_eq)
  qed
  show "2 powi rat_exponent x \<le> x" "x < 2 powi (rat_exponent x + 1)"
    using lo hi by (auto simp: rat_exponent_def pq Let_def)
qed

lemma rat_exponent_ge:
  assumes "2 powi k \<le> x"
  shows "k \<le> rat_exponent x"
proof (rule ccontr)
  assume "\<not> k \<le> rat_exponent x"
  then have "(2 :: rat) powi (rat_exponent x + 1) \<le> 2 powi k" by (intro power_int_increasing) auto
  moreover have "x < 2 powi (rat_exponent x + 1)"
    using assms powi_pos [of k] by (intro rat_exponent_bounds) (rule less_le_trans)
  ultimately show False using assms by linarith
qed

section \<open>Rounding to an integer\<close>

lemma round_int_error: "\<bar>of_int (round_int x) - x\<bar> \<le> 1 / 2"
proof -
  have "of_int \<lfloor>x\<rfloor> \<le> x" "x < of_int \<lfloor>x\<rfloor> + 1" using floor_correct [of x] by auto
  then have "0 \<le> x - of_int \<lfloor>x\<rfloor>" "x - of_int \<lfloor>x\<rfloor> < 1" by linarith+
  moreover have "of_int (round_int x) - x =
      (if round_int x = \<lfloor>x\<rfloor> then - (x - of_int \<lfloor>x\<rfloor>) else 1 - (x - of_int \<lfloor>x\<rfloor>))"
    by (auto simp: round_int_def Let_def)
  moreover have "(round_int x = \<lfloor>x\<rfloor> \<longrightarrow> x - of_int \<lfloor>x\<rfloor> \<le> 1 / 2) \<and>
      (round_int x \<noteq> \<lfloor>x\<rfloor> \<longrightarrow> 1 / 2 \<le> x - of_int \<lfloor>x\<rfloor>)"
    by (simp add: round_int_def Let_def)
  ultimately show ?thesis by (simp only: abs_le_iff split: if_splits) linarith+
qed

lemma round_int_of_int [simp]: "round_int (of_int n) = n"
  by (simp add: round_int_def)

lemma round_int_ge:
  assumes "of_int n \<le> x"
  shows "n \<le> round_int x"
proof -
  have "n \<le> \<lfloor>x\<rfloor>" using assms by (simp add: le_floor_iff)
  then show ?thesis by (auto simp: round_int_def Let_def)
qed

lemma round_int_le:
  assumes "x \<le> of_int n"
  shows "round_int x \<le> n"
proof (cases "x = of_int n")
  case False
  then have "x < of_int n" using assms by simp
  then have "\<lfloor>x\<rfloor> < n" by (simp only: floor_less_iff)
  then show ?thesis by (auto simp: round_int_def Let_def)
qed simp

lemma round_int_mono:
  assumes "x \<le> y"
  shows "round_int x \<le> round_int y"
proof (cases "\<lfloor>x\<rfloor> = \<lfloor>y\<rfloor>")
  case True
  then show ?thesis using assms by (auto simp: round_int_def Let_def)
next
  case False
  then have "\<lfloor>x\<rfloor> + 1 \<le> \<lfloor>y\<rfloor>" using floor_mono [OF assms] by simp
  then show ?thesis by (auto simp: round_int_def Let_def)
qed

section \<open>Rounding to a float\<close>

lemma float_ulp_pos: "0 < float_ulp x"
  by (simp add: float_ulp_def powi_pos)

lemma float_round_pos: "0 < x \<Longrightarrow> float_round x = of_int (round_int (x / float_ulp x)) * float_ulp x"
  by (simp add: float_round_def)

lemma float_round_0 [simp]: "float_round 0 = 0"
  by (simp add: float_round_def)

lemma float_round_minus: "float_round (- x) = - float_round x"
  by (simp add: float_round_def)

lemma float_round_half_ulp:
  assumes "0 < x"
  shows "\<bar>float_round x - x\<bar> \<le> float_ulp x / 2"
proof -
  let ?u = "float_ulp x"
  have "float_round x - x = (of_int (round_int (x / ?u)) - x / ?u) * ?u"
    using float_ulp_pos [of x] by (simp add: float_round_pos assms algebra_simps)
  then have "\<bar>float_round x - x\<bar> = \<bar>of_int (round_int (x / ?u)) - x / ?u\<bar> * ?u"
    using float_ulp_pos [of x] by (simp add: abs_mult)
  also have "\<dots> \<le> 1 / 2 * ?u"
    using round_int_error [of "x / ?u"] float_ulp_pos [of x] by (intro mult_right_mono) auto
  finally show ?thesis by simp
qed

text \<open>In the normal range the relative error is at most 2^-24.\<close>

lemma float_round_normal:
  assumes "2 powi (- 126) \<le> x"
  shows "\<bar>float_round x - x\<bar> \<le> x / 2 ^ 24"
proof -
  have x: "0 < x" using assms powi_pos by (rule less_le_trans [rotated])
  have "float_ulp x = 2 powi rat_exponent x / 2 ^ 23"
    using rat_exponent_ge [OF assms] by (simp add: float_ulp_def power_int_diff max_def)
  then have "float_ulp x / 2 \<le> x / 2 ^ 24"
    using rat_exponent_bounds(1) [OF x] by simp
  then show ?thesis using float_round_half_ulp [OF x] by linarith
qed

lemma float_round_ge:
  assumes "2 powi k \<le> x" "- 126 \<le> k"
  shows "2 powi k \<le> float_round x"
proof -
  have x: "0 < x" using assms(1) powi_pos by (rule less_le_trans [rotated])
  have k: "k \<le> rat_exponent x" using rat_exponent_ge [OF assms(1)] .
  then have "max (rat_exponent x) (- 126) = rat_exponent x" using assms(2) by simp
  then have u: "float_ulp x = 2 powi (rat_exponent x - 23)" by (simp only: float_ulp_def)
  have m: "of_int (2 ^ 23) * float_ulp x = 2 powi rat_exponent x" by (simp add: u power_int_diff)
  have "of_int (2 ^ 23) \<le> x / float_ulp x"
    using rat_exponent_bounds(1) [OF x] m float_ulp_pos by (simp add: pos_le_divide_eq)
  then have "(of_int (2 ^ 23) :: rat) \<le> of_int (round_int (x / float_ulp x))"
    unfolding of_int_le_iff by (rule round_int_ge)
  then have "of_int (2 ^ 23) * float_ulp x \<le> float_round x"
    unfolding float_round_pos [OF x] using float_ulp_pos by (intro mult_right_mono) (auto simp: less_imp_le)
  moreover have "(2 :: rat) powi k \<le> 2 powi rat_exponent x" using k by (intro power_int_increasing) auto
  ultimately show ?thesis using m by linarith
qed

lemma float_round_le_binade:
  assumes "0 < x"
  shows "float_round x \<le> 2 powi (max (rat_exponent x) (- 126) + 1)"
proof -
  let ?k = "max (rat_exponent x) (- 126)"
  have m: "of_int (2 ^ 24) * float_ulp x = 2 powi (?k + 1)"
    by (simp add: float_ulp_def power_int_diff power_int_add)
  have "x \<le> 2 powi (?k + 1)"
  proof -
    have "x < 2 powi (rat_exponent x + 1)" using rat_exponent_bounds(2) [OF assms] .
    also have "\<dots> \<le> 2 powi (?k + 1)" by (intro power_int_increasing) auto
    finally show ?thesis by simp
  qed
  then have "x / float_ulp x \<le> of_int (2 ^ 24)"
    using m float_ulp_pos by (simp add: pos_divide_le_eq)
  then have "(of_int (round_int (x / float_ulp x)) :: rat) \<le> of_int (2 ^ 24)"
    unfolding of_int_le_iff by (rule round_int_le)
  then have "float_round x \<le> of_int (2 ^ 24) * float_ulp x"
    unfolding float_round_pos [OF assms] using float_ulp_pos by (intro mult_right_mono) (auto simp: less_imp_le)
  with m show ?thesis by simp
qed

lemma float_round_nonneg: "0 \<le> x \<Longrightarrow> 0 \<le> float_round x"
proof (cases "x = 0")
  case False
  assume "0 \<le> x"
  with False have x: "0 < x" by simp
  have "0 \<le> round_int (x / float_ulp x)"
    using x float_ulp_pos [of x] by (intro round_int_ge) (simp add: less_imp_le)
  then show ?thesis using float_ulp_pos [of x] by (simp add: float_round_pos x)
qed simp

lemma float_round_mono_pos:
  assumes "0 < x" "x \<le> y"
  shows "float_round x \<le> float_round y"
proof -
  have y: "0 < y" using assms by simp
  have e: "rat_exponent x \<le> rat_exponent y"
    using rat_exponent_bounds(1) [OF assms(1)] assms(2) by (intro rat_exponent_ge) linarith
  show ?thesis
  proof (cases "max (rat_exponent x) (- 126) = max (rat_exponent y) (- 126)")
    case True
    then have u: "float_ulp x = float_ulp y" by (simp add: float_ulp_def)
    have "round_int (x / float_ulp y) \<le> round_int (y / float_ulp y)"
      using assms(2) float_ulp_pos [of y] by (intro round_int_mono divide_right_mono) auto
    then show ?thesis
      using float_ulp_pos [of y] by (simp add: float_round_pos assms(1) y u mult_right_mono)
  next
    case False
    then have k: "max (rat_exponent x) (- 126) + 1 \<le> rat_exponent y" using e by (auto simp: max_def split: if_splits)
    have "float_round x \<le> 2 powi (max (rat_exponent x) (- 126) + 1)" using float_round_le_binade [OF assms(1)] .
    also have "\<dots> \<le> 2 powi rat_exponent y" using k by (intro power_int_increasing) auto
    also have "\<dots> \<le> float_round y"
      using k by (intro float_round_ge rat_exponent_bounds(1) [OF y]) simp
    finally show ?thesis .
  qed
qed

lemma float_round_mono:
  assumes "x \<le> y"
  shows "float_round x \<le> float_round y"
proof -
  consider "0 < x" | "y < 0" | "x \<le> 0" "0 \<le> y" by linarith
  then show ?thesis
  proof cases
    case 1
    then show ?thesis using assms by (rule float_round_mono_pos)
  next
    case 2
    then show ?thesis
      using float_round_mono_pos [of "- y" "- x"] assms by (simp add: float_round_minus)
  next
    case 3
    then show ?thesis
      using float_round_nonneg [of y] float_round_nonneg [of "- x"] by (simp add: float_round_minus)
  qed
qed

section \<open>The numbers that are floats\<close>

definition is_float :: "rat \<Rightarrow> bool" where
  "is_float x \<longleftrightarrow> (\<exists>m e. x = of_int m * 2 powi e \<and> \<bar>m\<bar> < 2 ^ 24 \<and> - 149 \<le> e)"

lemma is_float_minus: "is_float x \<Longrightarrow> is_float (- x)"
  unfolding is_float_def by (elim exE) (rule_tac x = "- m" in exI, auto)

lemma float_round_exact_pos:
  assumes "0 < x" "is_float x"
  shows "float_round x = x"
proof -
  obtain m e where x: "x = of_int m * 2 powi e" and m: "\<bar>m\<bar> < 2 ^ 24" and e: "- 149 \<le> e"
    using assms(2) by (auto simp: is_float_def)
  let ?k = "max (rat_exponent x) (- 126) - 23"
  have "?k \<le> e"
  proof (rule ccontr)
    assume "\<not> ?k \<le> e"
    then have k: "e + 24 \<le> rat_exponent x" using e by (simp add: max_def split: if_splits)
    have "(of_int m :: rat) < of_int (2 ^ 24)" using m unfolding of_int_less_iff by simp
    then have "x < of_int (2 ^ 24) * 2 powi e"
      unfolding x using powi_pos by (intro mult_strict_right_mono) auto
    also have "\<dots> = 2 powi (e + 24)" by (simp add: power_int_add)
    also have "\<dots> \<le> 2 powi rat_exponent x" using k by (intro power_int_increasing) auto
    also have "\<dots> \<le> x" using rat_exponent_bounds(1) [OF assms(1)] .
    finally show False by simp
  qed
  then have "(2 :: rat) powi e = of_int (2 ^ nat (e - ?k)) * float_ulp x"
    by (simp add: float_ulp_def power_int_def [of _ "e - ?k", symmetric] flip: power_int_add power_int_nonneg_exp)
  then have "x / float_ulp x = of_int (m * 2 ^ nat (e - ?k))"
    using float_ulp_pos [of x] by (simp add: x [symmetric] field_simps) (simp add: x)
  then show ?thesis
    using float_ulp_pos [of x] by (simp only: float_round_pos [OF assms(1)] round_int_of_int) (simp add: field_simps)
qed

lemma float_round_exact:
  assumes "is_float x"
  shows "float_round x = x"
proof -
  consider "x = 0" | "0 < x" | "0 < - x" by linarith
  then show ?thesis
  proof cases
    case 3
    then show ?thesis
      using float_round_exact_pos [OF 3 is_float_minus [OF assms]] by (simp add: float_round_minus)
  qed (use assms float_round_exact_pos in auto)
qed

lemma is_float_of_int: "\<bar>m\<bar> < 2 ^ 24 \<Longrightarrow> is_float (of_int m)"
  unfolding is_float_def by (rule exI [of _ m], rule exI [of _ 0]) simp

lemma float_round_of_nat: "n < 2 ^ 24 \<Longrightarrow> float_round (of_nat n) = of_nat n"
  using float_round_exact [OF is_float_of_int [of "int n"]] by simp

lemma float_of_uint_exact: "unat w < 2 ^ 24 \<Longrightarrow> float_of_uint w = of_nat (unat w)"
  unfolding float_of_uint_def by (rule float_round_of_nat)

lemma is_floatI: "x = of_int m * 2 powi e \<Longrightarrow> \<bar>m\<bar> < 2 ^ 24 \<Longrightarrow> - 149 \<le> e \<Longrightarrow> is_float x"
  by (auto simp: is_float_def)

lemma float_round_is_float_pos:
  assumes "0 < x"
  shows "is_float (float_round x)"
proof -
  let ?m = "round_int (x / float_ulp x)" and ?k = "max (rat_exponent x) (- 126) - 23"
  have r: "float_round x = of_int ?m * 2 powi ?k" using assms by (simp add: float_round_pos float_ulp_def)
  have ge: "0 \<le> ?m" using assms float_ulp_pos [of x] by (intro round_int_ge) (simp add: less_imp_le)
  have "of_int ?m * 2 powi ?k \<le> (2 :: rat) ^ 24 * 2 powi ?k"
    using float_round_le_binade [OF assms] by (simp add: r power_int_diff power_int_add)
  then have "(of_int ?m :: rat) \<le> of_int (2 ^ 24)" using powi_pos [of ?k] by simp
  then have le: "?m \<le> 2 ^ 24" unfolding of_int_le_iff .
  show ?thesis
  proof (cases "?m = 2 ^ 24")
    case True
    have "(2 :: rat) powi (?k + 1) = 2 powi ?k * 2 powi 1" by (intro power_int_add) simp
    then have "float_round x = of_int (2 ^ 23) * 2 powi (?k + 1)" unfolding r True by simp
    then show ?thesis by (rule is_floatI) simp_all
  next
    case False
    then show ?thesis using le ge by (intro is_floatI [OF r]) simp_all
  qed
qed

text \<open>Every result is a float, and rounding it again changes nothing.\<close>

lemma is_float_float_round: "is_float (float_round x)"
proof -
  consider "x = 0" | "0 < x" | "0 < - x" by linarith
  then show ?thesis
  proof cases
    case 1
    then show ?thesis using is_float_of_int [of 0] by simp
  next
    case 3
    then show ?thesis using is_float_minus [OF float_round_is_float_pos [OF 3]] by (simp add: float_round_minus)
  qed (rule float_round_is_float_pos)
qed

lemma float_round_idem: "float_round (float_round x) = float_round x"
  by (rule float_round_exact [OF is_float_float_round])

section \<open>Relative error of nonnegative results\<close>

text \<open>Zero, or in the normal range: what sums, products and quotients of the program's
  nonnegative quantities are.\<close>

definition normal0 :: "rat \<Rightarrow> bool" where
  "normal0 x \<longleftrightarrow> x = 0 \<or> 2 powi (- 126) \<le> x"

lemma normal0_nonneg: "normal0 x \<Longrightarrow> 0 \<le> x"
  using powi_pos [of "- 126"] by (auto simp: normal0_def)

lemma normal0_add: "normal0 x \<Longrightarrow> normal0 y \<Longrightarrow> normal0 (x + y)"
  using normal0_nonneg [of x] normal0_nonneg [of y] by (auto simp: normal0_def)

lemma normal0_round: "normal0 x \<Longrightarrow> normal0 (float_round x)"
  using float_round_ge [of "- 126" x] by (auto simp only: normal0_def float_round_0)

lemma normal0_ge_one: "1 \<le> x \<Longrightarrow> normal0 x"
  by (simp add: normal0_def power_int_minus field_simps)

lemma float_round_error:
  assumes "normal0 x"
  shows "\<bar>float_round x - x\<bar> \<le> x / 2 ^ 24"
  using assms float_round_normal [of x] by (auto simp: normal0_def)

text \<open>Any result: the relative error, or half of the smallest float.\<close>

lemma float_round_abs_error: "\<bar>float_round x - x\<bar> \<le> \<bar>x\<bar> / 2 ^ 24 + 1 / 2 ^ 150"
proof -
  have pos: "\<bar>float_round y - y\<bar> \<le> y / 2 ^ 24 + 1 / 2 ^ 150" if y: "0 < y" for y
  proof (cases "2 powi (- 126) \<le> y")
    case True
    then show ?thesis using float_round_normal [OF True] by (rule_tac add_increasing2) simp_all
  next
    case False
    have "rat_exponent y < - 126"
    proof (rule ccontr)
      assume "\<not> rat_exponent y < - 126"
      then have "(2 :: rat) powi (- 126) \<le> 2 powi rat_exponent y" by (intro power_int_increasing) auto
      then show False using False rat_exponent_bounds(1) [OF y] by linarith
    qed
    then have "max (rat_exponent y) (- 126) = - 126" by simp
    then have "float_ulp y = 2 powi (- 126 - 23)" by (simp only: float_ulp_def)
    then have "float_ulp y / 2 = 1 / 2 ^ 150" by (simp add: power_int_minus)
    with float_round_half_ulp [OF y] y show ?thesis by simp
  qed
  consider "x = 0" | "0 < x" | "0 < - x" by linarith
  then show ?thesis
  proof cases
    case 3
    then have "\<bar>x\<bar> = - x" by simp
    then show ?thesis using pos [OF 3] by (simp only: float_round_minus abs_minus_cancel minus_diff_minus)
  qed (use pos in simp_all)
qed

section \<open>Accumulated relative errors\<close>

text \<open>\<open>near k x X\<close>: the computed \<open>x\<close> is at most \<open>k\<close> roundings away from the exact \<open>X\<close>.\<close>

abbreviation eps :: rat where "eps \<equiv> 1 / 2 ^ 24"

definition near :: "nat \<Rightarrow> rat \<Rightarrow> rat \<Rightarrow> bool" where
  "near k x X \<longleftrightarrow> 0 \<le> x \<and> 0 \<le> X \<and> X * (1 - eps) ^ k \<le> x \<and> x * (1 - eps) ^ k \<le> X"

lemma eps_power: "0 < (1 - eps) ^ k" "(1 - eps) ^ k \<le> 1"
  by (simp_all add: power_le_one)

lemma near_0_iff [simp]: "near k 0 X \<longleftrightarrow> X = 0" "near k x 0 \<longleftrightarrow> x = 0"
  using eps_power(1) [of k] unfolding near_def by (auto simp only: mult_le_0_iff mult_zero_left)

lemma near_refl: "0 \<le> x \<Longrightarrow> near 0 x x"
  by (simp add: near_def)

lemma near_mono:
  assumes "near j x X" "j \<le> k"
  shows "near k x X"
proof -
  have "(1 - eps) ^ k \<le> (1 - eps) ^ j" using assms(2) by (intro power_decreasing) auto
  then have "X * (1 - eps) ^ k \<le> X * (1 - eps) ^ j" "x * (1 - eps) ^ k \<le> x * (1 - eps) ^ j"
    using assms(1) by (auto simp only: near_def intro: mult_left_mono)
  with assms(1) show ?thesis unfolding near_def by linarith
qed

lemma near_trans:
  assumes "near j x y" "near k y z"
  shows "near (j + k) x z"
proof -
  have "z * (1 - eps) ^ k * (1 - eps) ^ j \<le> y * (1 - eps) ^ j"
    "x * (1 - eps) ^ j * (1 - eps) ^ k \<le> y * (1 - eps) ^ k"
    using assms eps_power(1) [THEN less_imp_le] by (auto simp only: near_def intro!: mult_right_mono)
  then have "z * (1 - eps) ^ (j + k) \<le> y * (1 - eps) ^ j" "x * (1 - eps) ^ (j + k) \<le> y * (1 - eps) ^ k"
    by (simp_all only: power_add ac_simps)
  with assms show ?thesis unfolding near_def by linarith
qed

lemma near_round:
  assumes "normal0 x"
  shows "near 1 (float_round x) x"
proof -
  have e: "\<bar>float_round x - x\<bar> \<le> x / 2 ^ 24" by (rule float_round_error [OF assms])
  have x: "0 \<le> x" by (rule normal0_nonneg [OF assms])
  have "float_round x * (1 - eps) \<le> (x + x / 2 ^ 24) * (1 - eps)"
    using abs_le_D1 [OF e] by (intro mult_right_mono) auto
  also have "\<dots> \<le> x" using x by (simp add: field_simps)
  finally show ?thesis
    using abs_le_D2 [OF e] x float_round_nonneg [OF x] by (simp add: near_def field_simps)
qed

lemma near_add:
  assumes "near k x X" "near k y Y"
  shows "near k (x + y) (X + Y)"
  using assms unfolding near_def distrib_right by linarith

lemma near_mult:
  assumes "near j x X" "near k y Y"
  shows "near (j + k) (x * y) (X * Y)"
proof -
  have "(X * (1 - eps) ^ j) * (Y * (1 - eps) ^ k) \<le> x * y"
    "(x * (1 - eps) ^ j) * (y * (1 - eps) ^ k) \<le> X * Y"
    using assms eps_power(1) [THEN less_imp_le]
    by (auto simp only: near_def intro!: mult_mono mult_nonneg_nonneg)
  then show ?thesis using assms unfolding near_def by (simp add: power_add ac_simps)
qed

lemma near_inverse:
  assumes "near k y Y" "0 < y"
  shows "near k (inverse y) (inverse Y)"
proof -
  have Y: "0 < Y" using assms less_le_trans [OF mult_pos_pos [OF assms(2) eps_power(1) [of k]]]
    by (simp add: near_def)
  show ?thesis
    using assms Y unfolding near_def by (auto simp: inverse_eq_divide pos_divide_le_eq pos_le_divide_eq mult.commute)
qed

lemma near_divide:
  "near j x X \<Longrightarrow> near k y Y \<Longrightarrow> 0 < y \<Longrightarrow> near (j + k) (x / y) (X / Y)"
  using near_mult [OF _ near_inverse] by (simp add: divide_inverse)

section \<open>Evaluation\<close>

text \<open>The exponent is determined by its two bounds, which makes a rounding a short calculation.\<close>

lemma rat_exponent_eq:
  assumes "2 powi e \<le> x" "x < 2 powi (e + 1)"
  shows "rat_exponent x = e"
proof (rule antisym)
  have x: "0 < x" using assms(1) powi_pos by (rule less_le_trans [rotated])
  show "e \<le> rat_exponent x" using assms(1) by (rule rat_exponent_ge)
  show "rat_exponent x \<le> e"
  proof (rule ccontr)
    assume "\<not> rat_exponent x \<le> e"
    then have "(2 :: rat) powi (e + 1) \<le> 2 powi rat_exponent x" by (intro power_int_increasing) auto
    then show False using assms(2) rat_exponent_bounds(1) [OF x] by linarith
  qed
qed

lemma float_round_eval:
  assumes "2 powi e \<le> x" "x < 2 powi (e + 1)" "- 126 \<le> e"
  shows "float_round x = of_int (round_int (x / 2 powi (e - 23))) * 2 powi (e - 23)"
proof -
  have "0 < x" using assms(1) powi_pos by (rule less_le_trans [rotated])
  moreover have "float_ulp x = 2 powi (e - 23)"
    using assms(3) by (simp add: float_ulp_def rat_exponent_eq [OF assms(1,2)] max_absorb1)
  ultimately show ?thesis by (simp add: float_round_pos)
qed

lemma round_int_unique:
  assumes "\<bar>x - of_int n\<bar> < 1 / 2"
  shows "round_int x = n"
proof -
  have "\<bar>of_int (round_int x) - (of_int n :: rat)\<bar> < 1"
    using round_int_error [of x] assms by linarith
  then have "\<bar>of_int (round_int x - n) :: rat\<bar> < 1" by simp
  then show ?thesis by linarith
qed

lemma float_round_to:
  assumes "2 powi e \<le> x" "x < 2 powi (e + 1)" "- 126 \<le> e"
    "\<bar>x / 2 powi (e - 23) - of_int n\<bar> < 1 / 2"
  shows "float_round x = of_int n * 2 powi (e - 23)"
  by (simp add: float_round_eval [OF assms(1-3)] round_int_unique [OF assms(4)])

lemma float_twentieth: "float_round (1 / 20) = 13421773 / 268435456"
  using float_round_to [of "- 5" "1 / 20" 13421773] by (simp add: power_int_minus)

end
