(* ===== verification/Ipc_Batch.thy ===== *)
theory Ipc_Batch
  imports Ipc_PubSub C_Float
begin

text \<open>
  Batches of fixed-size messages (lib/libipc/ipc_batch.h, ipc_batch.c).  The storage of a
  batch is the byte block behind \<open>batch->messages\<close>; messages are copied into it one after
  the other.  \<open>malloc\<close> is an argument: for each of the two calls the block it returns, or
  \<open>None\<close>.
\<close>

section \<open>Data and operations\<close>

record ipc_batch_t =
  ib_messages :: "u8 list"
  ib_message_size :: u64
  ib_message_count :: u32
  ib_max_messages :: u32
  ib_error_count :: u32

definition SIZE_MAX :: u64 where
  "SIZE_MAX = 0xFFFFFFFFFFFFFFFF"

definition ipc_create_batch ::
  "(u64 \<Rightarrow> u8 list option) \<Rightarrow> bool \<Rightarrow> u64 \<Rightarrow> u32 \<Rightarrow> ipc_batch_t option" where
  "ipc_create_batch malloc struct_ok message_size max_messages =
     (if message_size = 0 then None
      else if max_messages = 0 then None
      else if SIZE_MAX div ucast max_messages < message_size then None
      else if \<not> struct_ok then None
      else
        let total_size = message_size * ucast max_messages in
        case malloc total_size of
          None \<Rightarrow> None
        | Some block \<Rightarrow>
            Some \<lparr>ib_messages = block, ib_message_size = message_size, ib_message_count = 0,
                  ib_max_messages = max_messages, ib_error_count = 0\<rparr>)"

text \<open>\<open>memcpy(base + off, src, len(src))\<close> inside a block.\<close>

definition store_at :: "nat \<Rightarrow> 'a list \<Rightarrow> 'a list \<Rightarrow> 'a list" where
  "store_at off src block = take off block @ src @ drop (off + length src) block"

definition batch_fail :: "ipc_batch_t \<Rightarrow> int \<times> ipc_batch_t" where
  "batch_fail b = (-1, b\<lparr>ib_error_count := ib_error_count b + 1\<rparr>)"

text \<open>\<open>message\<close> is the memory at the caller's pointer, of which \<open>message_size\<close> bytes are
  read.\<close>

definition batch_add :: "u8 list option \<Rightarrow> ipc_batch_t \<Rightarrow> int \<times> ipc_batch_t" where
  "batch_add message b =
     (case message of
        None \<Rightarrow> batch_fail b
      | Some m \<Rightarrow>
          if ib_max_messages b \<le> ib_message_count b then batch_fail b
          else
            let dest = (ucast (ib_message_count b) :: u64) * ib_message_size b
            in (0, b\<lparr>ib_messages :=
                        store_at (unat dest) (take (unat (ib_message_size b)) m) (ib_messages b),
                      ib_message_count := ib_message_count b + 1\<rparr>))"

definition ipc_batch_add_message ::
  "ipc_batch_t option \<Rightarrow> u8 list option \<Rightarrow> int \<times> ipc_batch_t option" where
  "ipc_batch_add_message batch message =
     (case batch of
        None \<Rightarrow> (-1, None)
      | Some b \<Rightarrow> (case batch_add message b of (r, b') \<Rightarrow> (r, Some b')))"

definition ipc_send_batch ::
  "ipc_publisher option \<Rightarrow> ipc_batch_t option \<Rightarrow> int \<times> ipc_publisher option" where
  "ipc_send_batch publisher batch =
     (case publisher of
        None \<Rightarrow> (-1, None)
      | Some pub \<Rightarrow>
        (case batch of
           None \<Rightarrow> (-1, Some pub)
         | Some b \<Rightarrow>
             if ib_message_count b = 0 then (0, Some pub)
             else
               let total_size = (ucast (ib_message_count b) :: u64) * ib_message_size b
               in ipc_publish (Some pub) (Some (ib_messages b)) total_size))"

text \<open>A received batch would be reported by one callback with a 26-byte placeholder (the
  string and its terminating NUL).\<close>

definition placeholder_message :: "u8 list" where
  "placeholder_message = map (\<lambda>c. word_of_nat (of_char c)) ''Batch message placeholder'' @ [0]"

definition ipc_receive_batch ::
  "ipc_subscriber option \<Rightarrow> nat option \<Rightarrow> nat option \<Rightarrow> u32 \<Rightarrow>
   int \<times> ipc_subscriber option \<times> callback_call list" where
  "ipc_receive_batch subscriber callback user_data timeout_ms =
     (case (subscriber, callback) of
        (Some sub, Some cb) \<Rightarrow>
          (case ipc_subscriber_receive (Some sub) timeout_ms of
             (result, sub', calls) \<Rightarrow>
               if result = 0 then
                 (1, sub', calls @ [\<lparr>cb_function = cb, cb_message = placeholder_message, cb_size = 26,
                                cb_user_data = user_data\<rparr>])
               else (-1, sub', calls))
      | _ \<Rightarrow> (-1, subscriber, []))"

text \<open>The blocks that the release of a batch gives back to \<open>free\<close>, in order: the storage of the
  messages, which every batch of \<open>ipc_create_batch\<close> has, then the structure.\<close>

datatype freed_block = Freed_messages "u8 list" | Freed_batch

definition ipc_destroy_batch :: "ipc_batch_t option \<Rightarrow> freed_block list" where
  "ipc_destroy_batch batch =
     (case batch of None \<Rightarrow> [] | Some b \<Rightarrow> [Freed_messages (ib_messages b), Freed_batch])"

definition ipc_batch_get_count :: "ipc_batch_t option \<Rightarrow> int" where
  "ipc_batch_get_count batch =
     (case batch of None \<Rightarrow> -1 | Some b \<Rightarrow> sint (ib_message_count b))"

text \<open>The efficiency is the number of messages as a float.\<close>

definition ipc_batch_get_efficiency :: "ipc_batch_t option \<Rightarrow> rat" where
  "ipc_batch_get_efficiency batch =
     (case batch of
        None \<Rightarrow> -1
      | Some b \<Rightarrow> if ib_message_count b = 0 then 0 else float_of_uint (ib_message_count b))"

definition ipc_batch_is_full :: "ipc_batch_t option \<Rightarrow> int" where
  "ipc_batch_is_full batch =
     (case batch of None \<Rightarrow> -1
      | Some b \<Rightarrow> if ib_max_messages b \<le> ib_message_count b then 1 else 0)"

definition batch_reset :: "ipc_batch_t \<Rightarrow> ipc_batch_t" where
  "batch_reset b = b\<lparr>ib_message_count := 0\<rparr>"

definition ipc_batch_clear :: "ipc_batch_t option \<Rightarrow> int \<times> ipc_batch_t option" where
  "ipc_batch_clear batch =
     (case batch of None \<Rightarrow> (-1, None) | Some b \<Rightarrow> (0, Some (batch_reset b)))"

definition ipc_batch_get_stats ::
  "ipc_batch_t option \<Rightarrow> bool \<Rightarrow> bool \<Rightarrow> int \<times> (u32 \<times> u32) option" where
  "ipc_batch_get_stats batch count_given error_given =
     (case batch of
        None \<Rightarrow> (-1, None)
      | Some b \<Rightarrow>
          if \<not> count_given \<or> \<not> error_given then (-1, None)
          else (0, Some (ib_message_count b, ib_error_count b)))"

section \<open>The abstract batch: a bounded list of messages\<close>

definition batch_invar :: "ipc_batch_t \<Rightarrow> bool" where
  "batch_invar b \<longleftrightarrow>
     0 < unat (ib_message_size b) \<and> 0 < unat (ib_max_messages b) \<and>
     unat (ib_message_count b) \<le> unat (ib_max_messages b) \<and>
     unat (ib_message_size b) * unat (ib_max_messages b) < 2 ^ 64 \<and>
     length (ib_messages b) = unat (ib_message_size b) * unat (ib_max_messages b)"

definition batch_view :: "ipc_batch_t \<Rightarrow> u8 list list" where
  "batch_view b =
     map (\<lambda>i. take (unat (ib_message_size b)) (drop (i * unat (ib_message_size b)) (ib_messages b)))
       [0..<unat (ib_message_count b)]"

definition batch_cap :: "ipc_batch_t \<Rightarrow> nat" where
  "batch_cap b = unat (ib_max_messages b)"

definition batch_ok :: "ipc_batch_t \<Rightarrow> u8 list \<Rightarrow> bool" where
  "batch_ok b m \<longleftrightarrow> length m = unat (ib_message_size b)"

definition batch_put :: "u8 list \<Rightarrow> ipc_batch_t \<Rightarrow> ipc_batch_t" where
  "batch_put m b = snd (batch_add (Some m) b)"

lemmas batch_simps = batch_invar_def batch_view_def batch_cap_def batch_ok_def batch_put_def

lemma length_store_at [simp]:
  "off + length src \<le> length block \<Longrightarrow> length (store_at off src block) = length block"
  by (simp add: store_at_def)

text \<open>A store behind the messages leaves them alone.\<close>

lemma take_store_at: "off + length src \<le> length block \<Longrightarrow> take off (store_at off src block) = take off block"
  by (simp add: store_at_def)

lemma chunk_store_at_before:
  assumes "i < n" and "n * s + length src \<le> length block"
  shows "take s (drop (i * s) (store_at (n * s) src block)) = take s (drop (i * s) block)"
proof -
  have "i * s + s \<le> n * s"
    using mult_le_mono1 [of "Suc i" n s] assms(1) by simp
  then have "take s (drop (i * s) xs) = take s (drop (i * s) (take (n * s) xs))" for xs :: "'a list"
    by (simp add: drop_take min_absorb1)
  then show ?thesis
    using take_store_at [OF assms(2)] by metis
qed

lemma chunk_store_at: "off + length src \<le> length block \<Longrightarrow>
  take (length src) (drop off (store_at off src block)) = src"
  by (simp add: store_at_def)

lemma batch_dest:
  assumes "batch_invar b" and "unat (ib_message_count b) < unat (ib_max_messages b)"
  shows "unat ((ucast (ib_message_count b) :: u64) * ib_message_size b) =
           unat (ib_message_count b) * unat (ib_message_size b)"
    and "unat (ib_message_count b) * unat (ib_message_size b) + unat (ib_message_size b)
           \<le> length (ib_messages b)"
proof -
  let ?c = "unat (ib_message_count b)" and ?s = "unat (ib_message_size b)"
  have "?c * ?s + ?s \<le> unat (ib_max_messages b) * ?s"
    using mult_le_mono1 [of "Suc ?c" "unat (ib_max_messages b)" ?s] assms(2) by simp
  then show "?c * ?s + ?s \<le> length (ib_messages b)"
    using assms(1) by (simp add: batch_invar_def mult.commute)
  moreover have "length (ib_messages b) < 2 ^ 64"
    using assms(1) by (simp add: batch_invar_def)
  ultimately have "?c * ?s < 2 ^ 64" by linarith
  moreover have "unat (ucast (ib_message_count b) :: u64) = ?c"
    using unat_lt_u32 [of "ib_message_count b"] by (simp add: unsigned_ucast_eq take_bit_eq_mod)
  ultimately show "unat ((ucast (ib_message_count b) :: u64) * ib_message_size b) = ?c * ?s"
    by (simp add: unat_word_ariths)
qed

lemma batch_put_room:
  assumes inv: "batch_invar b" and ok: "batch_ok b m"
    and room: "unat (ib_message_count b) < unat (ib_max_messages b)"
  shows "batch_invar (batch_put m b)" and "batch_view (batch_put m b) = batch_view b @ [m]"
proof -
  let ?n = "unat (ib_message_count b)" and ?s = "unat (ib_message_size b)"
  have fits: "?n * ?s + length m \<le> length (ib_messages b)"
    using batch_dest(2) [OF inv room] ok by (simp add: batch_ok_def)
  have count: "unat (ib_message_count b + 1) = Suc ?n"
    using room unat_lt_u32 [of "ib_max_messages b"] by (simp add: unat_inc)
  have put: "batch_put m b = b\<lparr>ib_messages := store_at (?n * ?s) m (ib_messages b),
                               ib_message_count := ib_message_count b + 1\<rparr>"
    using room ok batch_dest(1) [OF inv room]
    by (simp add: batch_put_def batch_add_def word_le_nat_alt Let_def batch_ok_def)
  then show "batch_invar (batch_put m b)"
    using inv room fits count by (simp add: batch_invar_def)
  have "map (\<lambda>i. take ?s (drop (i * ?s) (store_at (?n * ?s) m (ib_messages b)))) [0..<?n] =
        batch_view b"
    using fits by (simp add: batch_view_def chunk_store_at_before)
  moreover have "take ?s (drop (?n * ?s) (store_at (?n * ?s) m (ib_messages b))) = m"
    using chunk_store_at [OF fits] ok by (simp add: batch_ok_def)
  ultimately show "batch_view (batch_put m b) = batch_view b @ [m]"
    using count put by (simp add: batch_view_def)
qed

lemma batch_put_full:
  assumes "\<not> unat (ib_message_count b) < unat (ib_max_messages b)"
  shows "batch_put m b = b\<lparr>ib_error_count := ib_error_count b + 1\<rparr>"
  using assms by (simp add: batch_put_def batch_add_def batch_fail_def word_le_nat_alt)

lemma batch_put_fixed [simp]:
  "ib_message_size (batch_put m b) = ib_message_size b"
  "ib_max_messages (batch_put m b) = ib_max_messages b"
  by (simp_all add: batch_put_def batch_add_def batch_fail_def Let_def)

lemma fold_batch_put_fixed:
  "ib_message_size (fold batch_put ms b) = ib_message_size b"
  "ib_max_messages (fold batch_put ms b) = ib_max_messages b"
  by (induction ms arbitrary: b) simp_all

interpretation batch: rejecting_fifo batch_invar batch_ok batch_view batch_cap batch_put
proof (unfold_locales, goal_cases)
  case (1 b)
  then show ?case by (simp add: batch_invar_def batch_cap_def)
next
  case (2 b)
  then show ?case by (simp add: batch_invar_def batch_cap_def batch_view_def)
next
  case (3 b x)
  then show ?case
    using batch_put_room(1) [of b x] batch_put_full [of b x]
    by (cases "unat (ib_message_count b) < unat (ib_max_messages b)") (auto simp: batch_invar_def)
next
  case (4 b x)
  then show ?case by (simp add: batch_cap_def)
next
  case (5 b x)
  then show ?case by (simp add: fun_eq_iff batch_ok_def)
next
  case (6 b x)
  then show ?case
    using batch_put_room(2) [of b x] batch_put_full [of b x]
    by (cases "unat (ib_message_count b) < unat (ib_max_messages b)")
       (auto simp: batch_view_def batch_cap_def)
qed

lemma concat_chunks:
  "n * s \<le> length xs \<Longrightarrow> concat (map (\<lambda>i. take s (drop (i * s) xs)) [0..<n]) = take (n * s) xs"
proof (induction n)
  case 0
  then show ?case by simp
next
  case (Suc n)
  then have "concat (map (\<lambda>i. take s (drop (i * s) xs)) [0..<n]) = take (n * s) xs"
    by simp
  then show ?case
    using take_add [of "n * s" s xs] by (simp add: add.commute)
qed

lemma batch_bytes:
  assumes "batch_invar b"
  shows "concat (batch_view b) = take (unat (ib_message_count b) * unat (ib_message_size b)) (ib_messages b)"
proof -
  have "unat (ib_message_count b) * unat (ib_message_size b)
          \<le> unat (ib_max_messages b) * unat (ib_message_size b)"
    using assms by (intro mult_le_mono1) (simp add: batch_invar_def)
  then have "unat (ib_message_count b) * unat (ib_message_size b) \<le> length (ib_messages b)"
    using assms by (simp add: batch_invar_def mult.commute)
  then show ?thesis
    unfolding batch_view_def by (rule concat_chunks)
qed

text \<open>What a successful create establishes, for a \<open>malloc\<close> that returns blocks of the
  requested size.\<close>

lemma create_batch_invar:
  assumes malloc: "\<And>n block. malloc n = Some block \<Longrightarrow> length block = unat n"
    and create: "ipc_create_batch malloc struct_ok sz n = Some b"
  shows "batch_invar b" "batch_view b = []" "ib_message_size b = sz" "ib_max_messages b = n"
    "ib_error_count b = 0"
proof -
  from create obtain block where c: "sz \<noteq> 0" "n \<noteq> 0" "\<not> SIZE_MAX div ucast n < sz"
    and block: "malloc (sz * ucast n) = Some block"
    and b: "b = \<lparr>ib_messages = block, ib_message_size = sz, ib_message_count = 0,
                ib_max_messages = n, ib_error_count = 0\<rparr>"
    by (auto simp: ipc_create_batch_def Let_def split: if_splits option.splits)
  have n: "unat (ucast n :: u64) = unat n"
    using unat_lt_u32 [of n] by (simp add: unsigned_ucast_eq take_bit_eq_mod)
  have pos: "0 < unat n" "0 < unat sz"
    using c by (auto simp: word_unat_eq_iff)
  have "unat sz \<le> (2 ^ 64 - 1) div unat n"
    using c(3) n by (simp add: SIZE_MAX_def word_less_nat_alt unat_div not_less)
  then have "unat sz * unat n \<le> 2 ^ 64 - 1"
    using pos by (simp add: less_eq_div_iff_mult_less_eq)
  then have fits: "unat sz * unat n < 2 ^ 64" by simp
  then have "length block = unat sz * unat n"
    using malloc [OF block] n by (simp add: unat_word_ariths)
  then show "batch_invar b"
    using pos fits b by (simp add: batch_invar_def)
  show "batch_view b = []" "ib_message_size b = sz" "ib_max_messages b = n" "ib_error_count b = 0"
    using b by (simp_all add: batch_view_def)
qed

section \<open>Properties\<close>

text \<open>C25: A batch is a bounded list: after it is created for \<open>n\<close> messages of \<open>sz\<close> bytes and
  any messages of that size are added, it holds exactly the first \<open>n\<close> of them, laid out one
  after the other in its storage, with no overflow of the size computation.\<close>

theorem batch_keeps_first_messages:
  assumes "\<And>k block. malloc k = Some block \<Longrightarrow> length block = unat k"
    and "ipc_create_batch malloc struct_ok sz n = Some b"
    and "list_all (\<lambda>m. length m = unat sz) ms"
  shows "let b' = fold (\<lambda>m b. snd (batch_add (Some m) b)) ms b in
     take (unat (ib_message_count b') * unat sz) (ib_messages b') = concat (take (unat n) ms) \<and>
     length (ib_messages b') = unat sz * unat n \<and>
     unat (ib_message_count b') = min (length ms) (unat n)"
proof -
  note c = create_batch_invar [OF assms(1,2)]
  have all_ok: "list_all (batch_ok b) ms"
    using assms(3) c by (simp add: batch_ok_def [abs_def])
  let ?b = "fold batch_put ms b"
  have inv: "batch_invar ?b"
    using batch.invar_fold [OF c(1) all_ok] .
  have view: "batch_view ?b = take (unat n) ms"
    using batch.view_fold [OF c(1) all_ok] c by (simp add: batch_cap_def)
  have fixed: "ib_message_size ?b = sz" "ib_max_messages ?b = n"
    using c(3,4) by (simp_all add: fold_batch_put_fixed)
  have "unat (ib_message_count ?b) = min (length ms) (unat n)"
    using arg_cong [OF view, of length] by (simp add: batch_view_def)
  moreover have "length (ib_messages ?b) = unat sz * unat n"
    using inv fixed by (simp add: batch_invar_def)
  moreover have "take (unat (ib_message_count ?b) * unat sz) (ib_messages ?b) = concat (take (unat n) ms)"
    using batch_bytes [OF inv] view fixed by simp
  ultimately show ?thesis
    by (simp add: Let_def batch_put_def [abs_def])
qed

theorem batch_keeps_first_messages_witness:
  "let b = the (ipc_create_batch (\<lambda>k. Some (replicate (unat k) 0)) True 2 2);
       b' = fold (\<lambda>m b. snd (batch_add (Some m) b)) [[1, 2], [3, 4], [5, 6]] b
   in unat (ib_message_count b') = 2 \<and> take 4 (ib_messages b') = [1, 2, 3, 4]"
proof -
  let ?m = "\<lambda>k :: u64. Some (replicate (unat k) (0 :: u8))"
  have "ipc_create_batch ?m True 2 2 \<noteq> None"
    by (simp add: ipc_create_batch_def SIZE_MAX_def Let_def)
  then obtain b where b: "ipc_create_batch ?m True 2 2 = Some b" by blast
  let ?b = "fold (\<lambda>m b. snd (batch_add (Some m) b)) [[1, 2], [3, 4], [5, 6]] b"
  have "take (unat (ib_message_count ?b) * 2) (ib_messages ?b) = [1, 2, 3, 4] \<and>
        unat (ib_message_count ?b) = Suc (Suc 0)"
    using batch_keeps_first_messages [OF _ b, of "[[1, 2], [3, 4], [5, 6]]"]
    by (auto simp add: Let_def simp del: fold_simps fold.simps)
  then show ?thesis
    by (auto simp add: b Let_def simp del: fold_simps fold.simps)
qed

text \<open>Sending a batch that satisfies its invariant succeeds exactly if it is empty or its
  messages together fit into 4096 bytes, however many of them there are; a batch that is
  refused counts one publish error.\<close>

theorem send_batch_iff:
  assumes "batch_invar b"
  shows "ipc_send_batch (Some pub) (Some b) =
    (if batch_view b = [] then (0, Some pub)
     else if length (concat (batch_view b)) \<le> 4096
     then (0, Some (pub\<lparr>pub_message_count := pub_message_count pub + 1\<rparr>))
     else (-1, Some (pub\<lparr>pub_error_count := pub_error_count pub + 1\<rparr>)))"
proof -
  let ?c = "unat (ib_message_count b)" and ?s = "unat (ib_message_size b)"
  let ?t = "(ucast (ib_message_count b) :: u64) * ib_message_size b"
  have le: "?c * ?s \<le> length (ib_messages b)"
    using assms mult_le_mono1 [of ?c "unat (ib_max_messages b)" ?s]
    by (simp add: batch_invar_def mult.commute)
  have "unat (ucast (ib_message_count b) :: u64) = ?c"
    using unat_lt_u32 [of "ib_message_count b"] by (simp add: unsigned_ucast_eq take_bit_eq_mod)
  moreover have "length (ib_messages b) < 2 ^ 64"
    using assms by (simp add: batch_invar_def)
  then have "?c * ?s < 2 ^ 64"
    using le by linarith
  ultimately have t: "unat ?t = ?c * ?s"
    by (simp add: unat_word_ariths)
  have len: "length (concat (batch_view b)) = ?c * ?s"
    using batch_bytes [OF assms] le by simp
  have empty: "batch_view b = [] \<longleftrightarrow> ?c = 0"
    by (simp add: batch_view_def)
  have s: "?s \<noteq> 0" using assms by (simp add: batch_invar_def)
  have "0 < ?t \<and> ?t \<le> 4096 \<longleftrightarrow> 0 < ?c * ?s \<and> ?c * ?s \<le> 4096"
    using t by (simp add: word_less_nat_alt word_le_nat_alt)
  then show ?thesis
    using s len empty publish_on_result [of "Some (ib_messages b)" ?t pub]
      publish_on_state [of "Some (ib_messages b)" ?t pub]
    by (auto simp: ipc_send_batch_def ipc_publish_def Let_def split_def word_unat_eq_iff)
qed

theorem send_batch_iff_witness:
  "fst (ipc_send_batch (Some \<lparr>pub_topic = ''a/b/c'', pub_message_count = 0, pub_error_count = 0\<rparr>)
     (Some \<lparr>ib_messages = [7, 8], ib_message_size = 2, ib_message_count = 1, ib_max_messages = 1,
            ib_error_count = 0\<rparr>)) = 0"
proof -
  let ?b = "\<lparr>ib_messages = [7, 8], ib_message_size = 2, ib_message_count = 1, ib_max_messages = 1,
            ib_error_count = 0\<rparr>"
  have "batch_invar ?b" "batch_view ?b = [[7, 8]]"
    by (simp_all add: batch_invar_def batch_view_def)
  then show ?thesis
    using send_batch_iff [of ?b] by simp
qed

end
