(* ===== verification/Log_Core.thy ===== *)
theory Log_Core
  imports System_Errors
begin

text \<open>
  The binary log of lib/logging (log_common.h, log_core.h, log_core.c): the packed 20-byte
  entry, its checksum, the circular buffer of 64 entries with its integrity checksum, and
  the record and configuration operations.  Entry and buffer are records; the functions
  that read them through a \<open>uint8_t *\<close> use their little-endian byte images.
\<close>

section \<open>Entries\<close>

definition LOG_LEVEL_COUNT :: nat where "LOG_LEVEL_COUNT = 4"
definition LOG_TAG_COUNT :: nat where "LOG_TAG_COUNT = 9"
definition LOG_MSG_COUNT :: nat where "LOG_MSG_COUNT = 18"

record log_entry_binary_t =
  le_timestamp :: u32
  le_process_id :: u16
  le_level :: u8
  le_tag_id :: u8
  le_message_id :: u16
  le_data0 :: u32
  le_data1 :: u32
  le_checksum :: u16

text \<open>The bytes of the packed structure before its checksum field (offset 18), and all 20.\<close>

definition entry_body_bytes :: "log_entry_binary_t \<Rightarrow> u8 list" where
  "entry_body_bytes e =
     le32 (le_timestamp e) @ le16 (le_process_id e) @ [le_level e, le_tag_id e] @
     le16 (le_message_id e) @ le32 (le_data0 e) @ le32 (le_data1 e)"

definition entry_bytes :: "log_entry_binary_t \<Rightarrow> u8 list" where
  "entry_bytes e = entry_body_bytes e @ le16 (le_checksum e)"

lemma length_entry_body_bytes [simp]: "length (entry_body_bytes e) = 18"
  by (simp add: entry_body_bytes_def)

lemma length_entry_bytes [simp]: "length (entry_bytes e) = 20"
  by (simp add: entry_bytes_def)

definition log_calculate_checksum :: "log_entry_binary_t option \<Rightarrow> u16" where
  "log_calculate_checksum ep =
     (case ep of None \<Rightarrow> 0xFFFF | Some e \<Rightarrow> checksum16 (take 18 (entry_bytes e)))"

lemma log_calculate_checksum_eq:
  "log_calculate_checksum (Some e) = word_of_nat (sum_bytes (entry_body_bytes e))"
  by (simp add: log_calculate_checksum_def entry_bytes_def checksum16_eq)

definition log_ok :: system_error where
  "log_ok = system_error_create ERR_BASE_OK ERROR_CATEGORY_SUCCESS ERROR_SEVERITY_NONE MODULE_ID_LOGGING"

definition log_critical :: "u32 \<Rightarrow> system_error" where
  "log_critical code =
     system_error_create code ERROR_CATEGORY_SAFETY ERROR_SEVERITY_CRITICAL MODULE_ID_LOGGING"

definition log_invalid :: "u32 \<Rightarrow> system_error" where
  "log_invalid sev =
     system_error_create ERR_SYS_INVALID_PARAM ERROR_CATEGORY_SYSTEM sev MODULE_ID_LOGGING"

definition log_verify_entry_integrity_safe :: "log_entry_binary_t option \<Rightarrow> system_error" where
  "log_verify_entry_integrity_safe ep =
     (case ep of
        None \<Rightarrow> log_critical ERR_SAFE_CRITICAL_NULL
      | Some e \<Rightarrow>
          if log_calculate_checksum (Some e) \<noteq> le_checksum e then
            system_error_create ERR_BASE_DATA_CORRUPT ERROR_CATEGORY_SYSTEM ERROR_SEVERITY_HIGH
              MODULE_ID_LOGGING
          else log_ok)"

text \<open>The three range checks, in the order of the macros; \<open>None\<close> lets the caller go on.\<close>

definition log_safety_checks :: "u8 \<Rightarrow> u8 \<Rightarrow> u16 \<Rightarrow> system_error option" where
  "log_safety_checks level tag_id message_id =
     (if LOG_LEVEL_COUNT \<le> unat level then Some (log_invalid ERROR_SEVERITY_HIGH)
      else if LOG_TAG_COUNT \<le> unat tag_id then Some (log_invalid ERROR_SEVERITY_HIGH)
      else if LOG_MSG_COUNT \<le> unat message_id then Some (log_invalid ERROR_SEVERITY_HIGH)
      else None)"

text \<open>The answers of \<open>sys_getpid\<close> and \<open>sys_time_get_us\<close>, and the mocks that stand for
  them outside the kernel build.\<close>

record log_env =
  env_getpid :: "system_error \<times> u16"
  env_time :: "system_error \<times> u64"

definition mock_sys_getpid :: "system_error \<times> u16" where
  "mock_sys_getpid =
     (system_error_create ERR_BASE_OK ERROR_CATEGORY_SYSTEM ERROR_SEVERITY_LOW MODULE_ID_LOGGING, 0)"

definition mock_time_get_us :: "system_error \<times> u64" where
  "mock_time_get_us =
     (system_error_create ERR_BASE_OK ERROR_CATEGORY_SYSTEM ERROR_SEVERITY_LOW MODULE_ID_LOGGING, 0)"

definition mock_env :: log_env where
  "mock_env = \<lparr>env_getpid = mock_sys_getpid, env_time = mock_time_get_us\<rparr>"

definition with_checksum :: "log_entry_binary_t \<Rightarrow> log_entry_binary_t" where
  "with_checksum e = e\<lparr>le_checksum := log_calculate_checksum (Some e)\<rparr>"

definition new_entry :: "u32 \<Rightarrow> u16 \<Rightarrow> u8 \<Rightarrow> u8 \<Rightarrow> u16 \<Rightarrow> u32 \<Rightarrow> u32 \<Rightarrow> log_entry_binary_t" where
  "new_entry ts pid level tag_id message_id data1 data2 =
     with_checksum \<lparr>le_timestamp = ts, le_process_id = pid, le_level = level, le_tag_id = tag_id,
       le_message_id = message_id, le_data0 = data1, le_data1 = data2, le_checksum = 0\<rparr>"

text \<open>The result is the error value and, if the entry was written, the entry.\<close>

definition log_create_entry ::
  "log_env \<Rightarrow> bool \<Rightarrow> u8 \<Rightarrow> u8 \<Rightarrow> u16 \<Rightarrow> u32 \<Rightarrow> u32 \<Rightarrow> system_error \<times> log_entry_binary_t option" where
  "log_create_entry env entry_given level tag_id message_id data1 data2 =
     (if \<not> entry_given then (log_critical ERR_SAFE_CRITICAL_NULL, None)
      else
        (case log_safety_checks level tag_id message_id of
           Some err \<Rightarrow> (err, None)
         | None \<Rightarrow>
             if error_code (fst (env_getpid env)) \<noteq> ERR_BASE_OK then (fst (env_getpid env), None)
             else if error_code (fst (env_time env)) \<noteq> ERR_BASE_OK then (fst (env_time env), None)
             else (log_ok, Some (new_entry (ucast (snd (env_time env))) (snd (env_getpid env))
                                   level tag_id message_id data1 data2))))"

section \<open>The circular buffer\<close>

definition LOG_BUFFER_CAPACITY :: nat where "LOG_BUFFER_CAPACITY = 64"

record log_buffer_t =
  lb_entries :: "log_entry_binary_t list"
  lb_write_index :: u16
  lb_read_index :: u16
  lb_entry_count :: u16
  lb_buffer_size :: u16
  lb_safety_checksum :: u16

text \<open>The 1288 bytes in front of \<open>safety_checksum\<close>.\<close>

definition buffer_bytes :: "log_buffer_t \<Rightarrow> u8 list" where
  "buffer_bytes b =
     concat (map entry_bytes (lb_entries b)) @ le16 (lb_write_index b) @ le16 (lb_read_index b) @
     le16 (lb_entry_count b) @ le16 (lb_buffer_size b)"

definition log_calculate_buffer_checksum :: "log_buffer_t option \<Rightarrow> u32" where
  "log_calculate_buffer_checksum bp =
     (case bp of None \<Rightarrow> 0xFFFFFFFF | Some b \<Rightarrow> checksum32 (buffer_bytes b))"

definition log_calculate_buffer_checksum_enhanced :: "log_buffer_t option \<Rightarrow> u16" where
  "log_calculate_buffer_checksum_enhanced bp =
     (case bp of None \<Rightarrow> 0 | Some b \<Rightarrow> checksum16 (buffer_bytes b))"

definition log_verify_buffer_integrity :: "log_buffer_t option \<Rightarrow> system_error" where
  "log_verify_buffer_integrity bp =
     (case bp of
        None \<Rightarrow> log_critical ERR_SAFE_CRITICAL_NULL
      | Some b \<Rightarrow>
          if LOG_BUFFER_CAPACITY \<le> unat (lb_write_index b) then log_critical ERR_BASE_INDEX_OOB
          else if LOG_BUFFER_CAPACITY \<le> unat (lb_read_index b) then log_critical ERR_BASE_INDEX_OOB
          else if ucast (lb_safety_checksum b) \<noteq> log_calculate_buffer_checksum (Some b)
          then log_critical ERR_BASE_DATA_CORRUPT
          else if LOG_BUFFER_CAPACITY < unat (lb_entry_count b)
          then log_critical ERR_BASE_DATA_CORRUPT
          else log_ok)"

definition log_check_buffer_boundary :: "log_buffer_t option \<Rightarrow> u16 \<Rightarrow> system_error" where
  "log_check_buffer_boundary bp index =
     (case bp of
        None \<Rightarrow> log_critical ERR_SAFE_CRITICAL_NULL
      | Some b \<Rightarrow>
          if lb_buffer_size b \<le> index then log_critical ERR_BASE_INDEX_OOB else log_ok)"

definition seal :: "log_buffer_t \<Rightarrow> log_buffer_t" where
  "seal b = b\<lparr>lb_safety_checksum := ucast (log_calculate_buffer_checksum (Some b))\<rparr>"

text \<open>The copy of the entry and the index updates of \<open>log_buffer_put_safe\<close>.\<close>

definition put_core :: "log_entry_binary_t \<Rightarrow> log_buffer_t \<Rightarrow> log_buffer_t" where
  "put_core e b =
     (let b1 = b\<lparr>lb_entries := (lb_entries b)[unat (lb_write_index b) := e],
                 lb_write_index := idx_next (lb_write_index b) (lb_buffer_size b)\<rparr>
      in if lb_entry_count b1 < lb_buffer_size b1
         then b1\<lparr>lb_entry_count := lb_entry_count b1 + 1\<rparr>
         else b1\<lparr>lb_read_index := idx_next (lb_read_index b1) (lb_buffer_size b1)\<rparr>)"

definition buffer_put :: "log_entry_binary_t \<Rightarrow> log_buffer_t \<Rightarrow> system_error \<times> log_buffer_t" where
  "buffer_put e b =
     (let boundary_check = log_check_buffer_boundary (Some b) (lb_write_index b) in
      if error_code boundary_check \<noteq> ERR_BASE_OK then (boundary_check, b)
      else
        let buffer_check = log_verify_buffer_integrity (Some b) in
        if system_error_is_critical (Some buffer_check) then (buffer_check, b)
        else
          let b' = seal (put_core e b);
              final_check = log_verify_buffer_integrity (Some b')
          in if system_error_is_critical (Some final_check) then (final_check, b')
             else (log_ok, b'))"

definition log_buffer_put_safe ::
  "log_buffer_t option \<Rightarrow> log_entry_binary_t option \<Rightarrow> system_error \<times> log_buffer_t option" where
  "log_buffer_put_safe bp ep =
     (case (bp, ep) of
        (Some b, Some e) \<Rightarrow> (case buffer_put e b of (err, b') \<Rightarrow> (err, Some b'))
      | _ \<Rightarrow> (log_critical ERR_SAFE_CRITICAL_NULL, bp))"

definition buffer_get ::
  "log_buffer_t \<Rightarrow> system_error \<times> log_entry_binary_t option \<times> log_buffer_t" where
  "buffer_get b =
     (let buffer_check = log_verify_buffer_integrity (Some b) in
      if system_error_is_critical (Some buffer_check) then (buffer_check, None, b)
      else if lb_entry_count b = 0 then
        (system_error_create ERR_BASE_BUF_EMPTY ERROR_CATEGORY_SYSTEM ERROR_SEVERITY_MEDIUM
           MODULE_ID_LOGGING, None, b)
      else
        (log_ok, Some (lb_entries b ! unat (lb_read_index b)),
         seal (b\<lparr>lb_read_index := idx_next (lb_read_index b) (lb_buffer_size b),
                 lb_entry_count := lb_entry_count b - 1\<rparr>)))"

definition log_buffer_get_safe ::
  "log_buffer_t option \<Rightarrow> bool \<Rightarrow> system_error \<times> log_entry_binary_t option \<times> log_buffer_t option" where
  "log_buffer_get_safe bp entry_given =
     (case bp of
        None \<Rightarrow> (log_critical ERR_SAFE_CRITICAL_NULL, None, None)
      | Some b \<Rightarrow>
          if \<not> entry_given then (log_critical ERR_SAFE_CRITICAL_NULL, None, Some b)
          else (case buffer_get b of (err, e, b') \<Rightarrow> (err, e, Some b')))"

section \<open>The log system\<close>

definition zero_entry :: log_entry_binary_t where
  "zero_entry = \<lparr>le_timestamp = 0, le_process_id = 0, le_level = 0, le_tag_id = 0,
     le_message_id = 0, le_data0 = 0, le_data1 = 0, le_checksum = 0\<rparr>"

text \<open>\<open>memset(buffer, 0, sizeof)\<close>\<close>

definition zero_buffer :: log_buffer_t where
  "zero_buffer = \<lparr>lb_entries = replicate 64 zero_entry, lb_write_index = 0, lb_read_index = 0,
     lb_entry_count = 0, lb_buffer_size = 0, lb_safety_checksum = 0\<rparr>"

definition log_buffer_init :: "log_buffer_t option \<Rightarrow> log_buffer_t option" where
  "log_buffer_init bp =
     (case bp of None \<Rightarrow> None | Some _ \<Rightarrow> Some (zero_buffer\<lparr>lb_buffer_size := 64\<rparr>))"

text \<open>The statics \<open>g_log_buffer\<close> and \<open>g_log_system_initialized\<close>.\<close>

record log_system =
  g_log_buffer :: log_buffer_t
  g_log_system_initialized :: bool

definition log_system_boot :: log_system where
  "log_system_boot = \<lparr>g_log_buffer = zero_buffer, g_log_system_initialized = False\<rparr>"

definition log_system_init_safe :: "log_system \<Rightarrow> system_error \<times> log_system" where
  "log_system_init_safe s =
     (log_ok, s\<lparr>g_log_buffer := seal (zero_buffer\<lparr>lb_buffer_size := 64\<rparr>),
                g_log_system_initialized := True\<rparr>)"

definition log_system_init :: "log_system \<Rightarrow> log_system" where
  "log_system_init s = snd (log_system_init_safe s)"

definition record_after_init ::
  "log_env \<Rightarrow> u8 \<Rightarrow> u8 \<Rightarrow> u16 \<Rightarrow> u32 \<Rightarrow> u32 \<Rightarrow> log_system \<Rightarrow> system_error \<times> log_system" where
  "record_after_init env level tag_id message_id data1 data2 s =
     (case log_safety_checks level tag_id message_id of
        Some err \<Rightarrow> (err, s)
      | None \<Rightarrow>
          if error_code (fst (env_getpid env)) \<noteq> ERR_BASE_OK then (fst (env_getpid env), s)
          else if error_code (fst (env_time env)) \<noteq> ERR_BASE_OK then (fst (env_time env), s)
          else
            let entry = new_entry (ucast (snd (env_time env))) (snd (env_getpid env))
                          level tag_id message_id data1 data2;
                (buffer_error, b') = buffer_put entry (g_log_buffer s);
                s' = s\<lparr>g_log_buffer := b'\<rparr>
            in if error_code buffer_error \<noteq> ERR_BASE_OK then (buffer_error, s') else (log_ok, s'))"

definition log_record_binary_safe ::
  "log_env \<Rightarrow> u8 \<Rightarrow> u8 \<Rightarrow> u16 \<Rightarrow> u32 \<Rightarrow> u32 \<Rightarrow> log_system \<Rightarrow> system_error \<times> log_system" where
  "log_record_binary_safe env level tag_id message_id data1 data2 s =
     (if \<not> g_log_system_initialized s then
        (case log_system_init_safe s of
           (init_error, s') \<Rightarrow>
             if error_code init_error \<noteq> ERR_BASE_OK then (init_error, s')
             else record_after_init env level tag_id message_id data1 data2 s')
      else record_after_init env level tag_id message_id data1 data2 s)"

definition log_record_binary ::
  "log_env \<Rightarrow> u8 \<Rightarrow> u8 \<Rightarrow> u16 \<Rightarrow> u32 \<Rightarrow> u32 \<Rightarrow> log_system \<Rightarrow> log_system" where
  "log_record_binary env level tag_id message_id data1 data2 s =
     snd (log_record_binary_safe env level tag_id message_id data1 data2 s)"

definition get_global_log_buffer :: "log_system \<Rightarrow> log_buffer_t option" where
  "get_global_log_buffer s = (if \<not> g_log_system_initialized s then None else Some (g_log_buffer s))"

section \<open>Configuration\<close>

record log_config_t =
  lcfg_buffer_capacity :: u16
  lcfg_entry_size :: u16
  lcfg_ipc_timeout_ms :: u32
  lcfg_max_retry_count :: u8
  lcfg_checksum_algorithm :: u16
  lcfg_safety_level :: u8

definition g_log_config :: log_config_t where
  "g_log_config = \<lparr>lcfg_buffer_capacity = 64, lcfg_entry_size = 20, lcfg_ipc_timeout_ms = 1000,
     lcfg_max_retry_count = 2, lcfg_checksum_algorithm = 1, lcfg_safety_level = 2\<rparr>"

definition log_config_init :: "log_config_t option \<Rightarrow> system_error \<times> log_config_t option" where
  "log_config_init config =
     (case config of
        None \<Rightarrow> (log_invalid ERROR_SEVERITY_MEDIUM, None)
      | Some _ \<Rightarrow> (log_ok, Some g_log_config))"

definition log_config_validate :: "log_config_t option \<Rightarrow> system_error" where
  "log_config_validate config =
     (case config of
        None \<Rightarrow> log_invalid ERROR_SEVERITY_MEDIUM
      | Some c \<Rightarrow>
          if lcfg_buffer_capacity c = 0 \<or> 256 < lcfg_buffer_capacity c
          then log_invalid ERROR_SEVERITY_MEDIUM
          else if lcfg_entry_size c \<noteq> 20 then log_invalid ERROR_SEVERITY_MEDIUM
          else log_ok)"

definition log_config_set ::
  "log_config_t option \<Rightarrow> log_config_t \<Rightarrow> system_error \<times> log_config_t" where
  "log_config_set new_config g =
     (case new_config of
        None \<Rightarrow> (log_invalid ERROR_SEVERITY_MEDIUM, g)
      | Some c \<Rightarrow>
          if 10 < lcfg_max_retry_count c then (log_invalid ERROR_SEVERITY_MEDIUM, g)
          else
            (log_ok,
             g\<lparr>lcfg_buffer_capacity := lcfg_buffer_capacity c,
               lcfg_entry_size := lcfg_entry_size c,
               lcfg_ipc_timeout_ms := lcfg_ipc_timeout_ms c,
               lcfg_max_retry_count := lcfg_max_retry_count c,
               lcfg_checksum_algorithm := lcfg_checksum_algorithm c,
               lcfg_safety_level := lcfg_safety_level c\<rparr>))"

definition log_config_get ::
  "log_config_t option \<Rightarrow> log_config_t \<Rightarrow> system_error \<times> log_config_t option" where
  "log_config_get current_config g =
     (case current_config of
        None \<Rightarrow> (log_invalid ERROR_SEVERITY_MEDIUM, None)
      | Some _ \<Rightarrow> (log_ok, Some g))"

section \<open>Entry integrity\<close>

lemma log_errors [simp]:
  "error_code log_ok = 0" "error_code (log_critical c) = c"
  "error_code (log_invalid v) = ERR_SYS_INVALID_PARAM"
  by (simp_all add: log_ok_def log_critical_def log_invalid_def)

lemma log_errors_critical [simp]:
  "\<not> system_error_is_critical (Some log_ok)" "system_error_is_critical (Some (log_critical c))"
  by (simp_all add: system_error_is_critical_def log_ok_def log_critical_def)

lemma verify_entry_ok_iff:
  "error_code (log_verify_entry_integrity_safe (Some e)) = ERR_BASE_OK \<longleftrightarrow>
     le_checksum e = word_of_nat (sum_bytes (entry_body_bytes e))"
  by (auto simp: log_verify_entry_integrity_safe_def log_calculate_checksum_eq)

lemma body_with_checksum [simp]: "entry_body_bytes (with_checksum e) = entry_body_bytes e"
  by (simp add: with_checksum_def entry_body_bytes_def)

lemma new_entry_verifies:
  "error_code (log_verify_entry_integrity_safe (Some (new_entry ts pid l t m a b))) = ERR_BASE_OK"
  by (simp add: verify_entry_ok_iff new_entry_def)
     (simp add: with_checksum_def log_calculate_checksum_eq)

text \<open>Two byte images with the same sum modulo 2 to the 16 and one differing byte are equal.\<close>

lemma sum_bytes_update_neq:
  assumes "i < length bs" and "bs ! i \<noteq> x"
  shows "(word_of_nat (sum_bytes (bs[i := x])) :: u16) \<noteq> word_of_nat (sum_bytes bs)"
proof
  assume "(word_of_nat (sum_bytes (bs[i := x])) :: u16) = word_of_nat (sum_bytes bs)"
  moreover have "(word_of_nat (sum_bytes (bs[i := x])) :: u16) + word_of_nat (unat (bs ! i)) =
                 word_of_nat (sum_bytes bs) + word_of_nat (unat x)"
    using sum_bytes_list_update [OF assms(1), of x] by (metis of_nat_add)
  ultimately have "(word_of_nat (unat (bs ! i)) :: u16) = word_of_nat (unat x)"
    by simp
  moreover have "unat (word_of_nat (unat b) :: u16) = unat b" for b :: u8
    using unat_lt_u8 [of b] by (intro unat_u16_of_nat) simp
  ultimately have "unat (bs ! i) = unat x"
    by metis
  then show False
    using assms(2) by (simp add: word_unat_eq_iff)
qed

section \<open>Buffer integrity\<close>

definition lb_wf :: "log_buffer_t \<Rightarrow> bool" where
  "lb_wf b \<longleftrightarrow> length (lb_entries b) = 64 \<and> unat (lb_write_index b) < 64 \<and>
     unat (lb_read_index b) < 64 \<and> unat (lb_entry_count b) \<le> 64 \<and> lb_buffer_size b = 64"

text \<open>The byte sum that the checksum stands for, and a buffer whose stored checksum is it.\<close>

definition buffer_sum :: "log_buffer_t \<Rightarrow> nat" where
  "buffer_sum b = sum_bytes (buffer_bytes b)"

definition sealed :: "log_buffer_t \<Rightarrow> bool" where
  "sealed b \<longleftrightarrow> unat (lb_safety_checksum b) = buffer_sum b"

lemma sum_bytes_le16_small: "unat (w :: u16) < 256 \<Longrightarrow> sum_bytes (le16 w) = unat w"
  by (simp add: sum_bytes_le16)

lemma length_concat_entries: "length (concat (map entry_bytes es)) = 20 * length es"
  by (induction es) auto

lemma buffer_sum_lt: "length (lb_entries b) = 64 \<Longrightarrow> buffer_sum b < 2 ^ 32"
  using sum_bytes_le [of "buffer_bytes b"]
  by (simp add: buffer_sum_def buffer_bytes_def length_concat_entries)

lemma unat_buffer_checksum:
  "length (lb_entries b) = 64 \<Longrightarrow> unat (log_calculate_buffer_checksum (Some b)) = buffer_sum b"
  using buffer_sum_lt [of b]
  by (simp add: log_calculate_buffer_checksum_def checksum32_eq unat_u32_of_nat buffer_sum_def)

lemma verify_buffer_ok_iff:
  assumes "lb_wf b"
  shows "error_code (log_verify_buffer_integrity (Some b)) = ERR_BASE_OK \<longleftrightarrow> sealed b"
    and "system_error_is_critical (Some (log_verify_buffer_integrity (Some b))) \<longleftrightarrow> \<not> sealed b"
proof -
  have "unat (ucast (lb_safety_checksum b) :: u32) = unat (lb_safety_checksum b)"
    using unat_lt_u16 [of "lb_safety_checksum b"] by (simp add: unsigned_ucast_eq take_bit_eq_mod)
  then have "ucast (lb_safety_checksum b) = log_calculate_buffer_checksum (Some b) \<longleftrightarrow> sealed b"
    using assms by (simp add: word_unat_eq_iff unat_buffer_checksum sealed_def lb_wf_def)
  then show "error_code (log_verify_buffer_integrity (Some b)) = ERR_BASE_OK \<longleftrightarrow> sealed b"
    "system_error_is_critical (Some (log_verify_buffer_integrity (Some b))) \<longleftrightarrow> \<not> sealed b"
    using assms by (auto simp: log_verify_buffer_integrity_def lb_wf_def LOG_BUFFER_CAPACITY_def)
qed

lemma verify_buffer_unsealed:
  "lb_wf b \<Longrightarrow> \<not> sealed b \<Longrightarrow> log_verify_buffer_integrity (Some b) = log_critical ERR_BASE_DATA_CORRUPT"
  using verify_buffer_ok_iff(1) [of b]
  by (auto simp: log_verify_buffer_integrity_def lb_wf_def LOG_BUFFER_CAPACITY_def)

lemma seal_simps [simp]:
  "lb_entries (seal b) = lb_entries b" "lb_write_index (seal b) = lb_write_index b"
  "lb_read_index (seal b) = lb_read_index b" "lb_entry_count (seal b) = lb_entry_count b"
  "lb_buffer_size (seal b) = lb_buffer_size b" "lb_wf (seal b) = lb_wf b"
  "buffer_sum (seal b) = buffer_sum b"
  by (simp_all add: seal_def lb_wf_def buffer_sum_def buffer_bytes_def)

text \<open>Sealing works exactly while the byte sum fits into the 16-bit field.\<close>

lemma sealed_seal_iff:
  assumes "lb_wf b"
  shows "sealed (seal b) \<longleftrightarrow> buffer_sum b < 65536"
proof -
  have "unat (lb_safety_checksum (seal b)) = buffer_sum b mod 65536"
    using assms by (simp add: seal_def unat_buffer_checksum lb_wf_def unsigned_ucast_eq take_bit_eq_mod)
  then show ?thesis
    by (simp add: sealed_def) (metis mod_less mod_less_divisor zero_less_numeral)
qed

lemma idx_next_64: "unat (idx_next i 64) = (unat i + 1) mod 64"
  by (simp add: unat_idx_next)

lemma put_core_wf: "lb_wf b \<Longrightarrow> lb_wf (put_core e b)"
  by (auto simp: put_core_def lb_wf_def Let_def idx_next_64 word_less_nat_alt unat_inc)

lemma buffer_put_eq:
  assumes "lb_wf b" and "sealed b"
  shows "buffer_put e b =
    (if buffer_sum (put_core e b) < 65536 then log_ok else log_critical ERR_BASE_DATA_CORRUPT,
     seal (put_core e b))"
proof -
  have bound: "error_code (log_check_buffer_boundary (Some b) (lb_write_index b)) = 0"
    using assms by (simp add: log_check_buffer_boundary_def lb_wf_def word_le_nat_alt)
  have wf: "lb_wf (seal (put_core e b))"
    using assms by (simp add: put_core_wf)
  have "sealed (seal (put_core e b)) \<longleftrightarrow> buffer_sum (put_core e b) < 65536"
    using assms by (simp add: sealed_seal_iff put_core_wf)
  then show ?thesis
    using bound assms wf verify_buffer_ok_iff(2) [OF assms(1)] verify_buffer_ok_iff(2) [OF wf]
      verify_buffer_unsealed [OF wf]
    by (simp add: buffer_put_def Let_def)
qed

text \<open>A buffer whose checksum does not match refuses every access and stays as it is.\<close>

lemma unsealed_refuses:
  assumes "lb_wf b" and "\<not> sealed b"
  shows "buffer_put e b = (log_critical ERR_BASE_DATA_CORRUPT, b)"
    and "buffer_get b = (log_critical ERR_BASE_DATA_CORRUPT, None, b)"
  using assms verify_buffer_unsealed [OF assms]
  by (simp_all add: buffer_put_def buffer_get_def Let_def log_check_buffer_boundary_def lb_wf_def
      word_le_nat_alt)

section \<open>The buffer as a first-in first-out queue\<close>

text \<open>Entries light enough for 64 of them to stay below the 16-bit checksum limit.\<close>

definition light :: "log_entry_binary_t \<Rightarrow> bool" where
  "light e \<longleftrightarrow> sum_bytes (entry_bytes e) \<le> 1020"

text \<open>A buffer that is in order, and one whose entries are light besides.\<close>

definition lb_ring :: "log_buffer_t \<Rightarrow> bool" where
  "lb_ring b \<longleftrightarrow> lb_wf b \<and> sealed b \<and>
     unat (lb_write_index b) = (unat (lb_read_index b) + unat (lb_entry_count b)) mod 64"

definition lb_invar :: "log_buffer_t \<Rightarrow> bool" where
  "lb_invar b \<longleftrightarrow> lb_ring b \<and> list_all light (lb_entries b)"

definition lb_view :: "log_buffer_t \<Rightarrow> log_entry_binary_t list" where
  "lb_view b = ring_view (lb_entries b) (unat (lb_read_index b)) (unat (lb_entry_count b))"

lemma light_sum:
  "list_all light es \<Longrightarrow> sum_bytes (concat (map entry_bytes es)) \<le> 1020 * length es"
  by (induction es) (auto simp: light_def)

lemma light_buffer_sum:
  assumes "lb_wf b" and "list_all light (lb_entries b)"
  shows "buffer_sum b < 65536"
proof -
  have "buffer_sum b = sum_bytes (concat (map entry_bytes (lb_entries b))) +
      unat (lb_write_index b) + unat (lb_read_index b) + unat (lb_entry_count b) + 64"
    using assms(1) by (simp add: buffer_sum_def buffer_bytes_def sum_bytes_le16_small lb_wf_def)
  then show ?thesis
    using light_sum [OF assms(2)] assms(1) by (simp add: lb_wf_def)
qed

lemma list_all_update: "list_all P xs \<Longrightarrow> P x \<Longrightarrow> list_all P (xs[i := x])"
  by (auto simp: list_all_iff dest!: set_update_subset_insert [THEN subsetD])

lemma put_core_light:
  "list_all light (lb_entries b) \<Longrightarrow> light e \<Longrightarrow> list_all light (lb_entries (put_core e b))"
  by (simp add: put_core_def Let_def list_all_update)

lemma put_core_indices:
  assumes "lb_ring b"
  shows "unat (lb_write_index (put_core e b)) =
    (unat (lb_read_index (put_core e b)) + unat (lb_entry_count (put_core e b))) mod 64"
proof (cases "unat (lb_entry_count b) < 64")
  case True
  then have "unat (lb_entry_count b + 1) = Suc (unat (lb_entry_count b))"
    by (simp add: unat_inc)
  then show ?thesis
    using True assms
    by (simp add: put_core_def Let_def lb_ring_def lb_wf_def word_less_nat_alt idx_next_64
        mod_Suc_eq)
next
  case False
  then have "unat (lb_entry_count b) = 64"
    using assms by (simp add: lb_ring_def lb_wf_def)
  then show ?thesis
    using assms
    by (simp add: put_core_def Let_def lb_ring_def lb_wf_def word_less_nat_alt idx_next_64
        mod_Suc_eq)
qed

text \<open>A put that keeps the byte sum within 16 bits is accepted; one into a buffer of light
  entries always is.\<close>

lemma buffer_put_ring:
  assumes "lb_ring b" and "buffer_sum (put_core e b) < 65536"
  shows "buffer_put e b = (log_ok, seal (put_core e b))" and "lb_ring (seal (put_core e b))"
  using assms put_core_indices [OF assms(1), of e]
  by (simp_all add: buffer_put_eq lb_ring_def put_core_wf sealed_seal_iff)

lemma buffer_put_light:
  assumes "lb_invar b" and "light e"
  shows "buffer_put e b = (log_ok, seal (put_core e b))" and "lb_invar (seal (put_core e b))"
proof -
  have lights: "list_all light (lb_entries (put_core e b))"
    using assms by (simp add: lb_invar_def put_core_light)
  moreover have "lb_wf (put_core e b)"
    using assms by (simp add: lb_invar_def lb_ring_def put_core_wf)
  ultimately have "buffer_sum (put_core e b) < 65536"
    by (intro light_buffer_sum)
  with assms(1) show "buffer_put e b = (log_ok, seal (put_core e b))" "lb_invar (seal (put_core e b))"
    using buffer_put_ring [of b e] lights by (simp_all add: lb_invar_def)
qed

lemma put_core_view:
  assumes "lb_ring b"
  shows "lb_view (put_core e b) =
    (if length (lb_view b) < 64 then lb_view b @ [e] else tl (lb_view b) @ [e])"
proof (cases "unat (lb_entry_count b) < 64")
  case True
  then have "unat (lb_entry_count b + 1) = Suc (unat (lb_entry_count b))"
    by (simp add: unat_inc)
  then show ?thesis
    using True assms ring_view_put [of "unat (lb_entry_count b)" "lb_entries b" "unat (lb_read_index b)" e]
    by (simp add: lb_view_def put_core_def Let_def lb_ring_def lb_wf_def word_less_nat_alt)
next
  case False
  then have "unat (lb_entry_count b) = 64"
    using assms by (simp add: lb_ring_def lb_wf_def)
  then show ?thesis
    using assms ring_view_overwrite [of "unat (lb_read_index b)" "lb_entries b" e]
    by (simp add: lb_view_def put_core_def Let_def lb_ring_def lb_wf_def word_less_nat_alt idx_next_64)
qed

definition lb_put :: "log_entry_binary_t \<Rightarrow> log_buffer_t \<Rightarrow> log_buffer_t" where
  "lb_put e b = snd (buffer_put e b)"

definition lb_get :: "log_buffer_t \<Rightarrow> (log_entry_binary_t \<times> log_buffer_t) option" where
  "lb_get b = (case buffer_get b of (_, None, _) \<Rightarrow> None | (_, Some e, b') \<Rightarrow> Some (e, b'))"

lemma lb_view_seal [simp]: "lb_view (seal b) = lb_view b"
  by (simp add: lb_view_def)

interpretation lb: overwriting_fifo lb_invar "\<lambda>_. light" lb_view "\<lambda>_. 64" lb_put
proof (unfold_locales, goal_cases)
  case (2 b)
  then show ?case by (simp add: lb_view_def lb_invar_def lb_ring_def lb_wf_def)
next
  case (3 b x)
  then show ?case by (simp add: lb_put_def buffer_put_light)
next
  case (6 b x)
  then show ?case by (simp add: lb_put_def buffer_put_light put_core_view lb_invar_def)
qed simp_all

text \<open>Taking the oldest entry out.\<close>

lemma buffer_get_some:
  assumes inv: "lb_ring b" and view: "lb_view b = x # xs"
  shows "\<exists>b'. buffer_get b = (log_ok, Some x, b') \<and> lb_ring b' \<and> lb_view b' = xs \<and>
    lb_entries b' = lb_entries b"
proof -
  let ?r = "unat (lb_read_index b)"
  let ?b1 = "b\<lparr>lb_read_index := idx_next (lb_read_index b) (lb_buffer_size b),
               lb_entry_count := lb_entry_count b - 1\<rparr>"
  have wf: "lb_wf b" "sealed b"
    using inv by (simp_all add: lb_ring_def)
  obtain n where n: "unat (lb_entry_count b) = Suc n"
    using view by (cases "unat (lb_entry_count b)") (auto simp: lb_view_def)
  have cnt: "unat (lb_entry_count b - 1) = n"
    using n by (simp add: unat_dec)
  have nonzero: "lb_entry_count b \<noteq> 0"
    using n by auto
  have wf1: "lb_wf ?b1"
    using wf n cnt by (simp add: lb_wf_def idx_next_64)
  have "buffer_sum ?b1 \<le> buffer_sum b"
    using wf wf1 n cnt
    by (simp add: buffer_sum_def buffer_bytes_def sum_bytes_le16_small lb_wf_def idx_next_64)
  moreover have "buffer_sum b < 65536"
    using wf(2) unat_lt_u16 [of "lb_safety_checksum b"] by (simp add: sealed_def)
  moreover have "unat (lb_write_index b) = ((?r + 1) mod 64 + n) mod 64"
    using inv n by (simp add: lb_ring_def mod_simps)
  ultimately have inv1: "lb_ring (seal ?b1)"
    using wf1 cnt by (simp add: lb_ring_def sealed_seal_iff idx_next_64 lb_wf_def)
  have len: "length (lb_entries b) = 64" "?r < 64" "lb_buffer_size b = 64"
    using wf by (simp_all add: lb_wf_def)
  have "x = lb_entries b ! ?r" "xs = ring_view (lb_entries b) ((?r + 1) mod 64) n"
    using view n len by (simp_all add: lb_view_def ring_view_Cons)
  moreover have "lb_view (seal ?b1) = ring_view (lb_entries b) ((?r + 1) mod 64) n"
    using cnt len by (simp add: lb_view_def idx_next_64)
  ultimately show ?thesis
    using verify_buffer_ok_iff(2) [OF wf(1)] wf(2) nonzero inv1
    by (simp add: buffer_get_def Let_def)
qed

lemma buffer_get_empty: "lb_ring b \<Longrightarrow> lb_view b = [] \<Longrightarrow> lb_get b = None"
  using verify_buffer_ok_iff(2) [of b]
  by (simp add: lb_get_def buffer_get_def Let_def lb_ring_def lb_view_def word_unat_eq_iff
      flip: length_0_conv)

interpretation lb_read: readable_buffer lb_ring lb_view lb_get
proof (unfold_locales, goal_cases)
  case (1 b)
  then show ?case by (rule buffer_get_empty)
next
  case (2 b x xs)
  then show ?case using buffer_get_some [OF 2] by (auto simp: lb_get_def)
qed

interpretation lb_drain: drainable_buffer lb_invar "\<lambda>_. light" lb_view "\<lambda>_. 64" lb_put lb_get
proof (unfold_locales, goal_cases)
  case (1 b)
  then show ?case using buffer_get_empty by (simp add: lb_invar_def)
next
  case (2 b x xs)
  then show ?case using buffer_get_some [of b x xs] by (auto simp: lb_get_def lb_invar_def)
qed

section \<open>Runs of puts\<close>

text \<open>The byte sum of entries.  While a buffer is only filled, the slots outside its contents
  are zero, so its entries weigh no more than its contents.\<close>

definition weight :: "log_entry_binary_t list \<Rightarrow> nat" where
  "weight es = sum_bytes (concat (map entry_bytes es))"

lemma weight_simps [simp]:
  "weight [] = 0" "weight (e # es) = sum_bytes (entry_bytes e) + weight es"
  "weight (es @ fs) = weight es + weight fs"
  by (simp_all add: weight_def)

lemma weight_update:
  "i < length es \<Longrightarrow> weight (es[i := e]) + sum_bytes (entry_bytes (es ! i)) = weight es + sum_bytes (entry_bytes e)"
  by (induction es arbitrary: i) (auto split: nat.split)

lemma buffer_sum_le_weight: "lb_wf b \<Longrightarrow> buffer_sum b \<le> weight (lb_entries b) + 254"
  by (simp add: buffer_sum_def buffer_bytes_def sum_bytes_le16_small lb_wf_def weight_def)

definition lb_filled :: "log_buffer_t \<Rightarrow> bool" where
  "lb_filled b \<longleftrightarrow> lb_ring b \<and> weight (lb_entries b) \<le> weight (lb_view b)"

definition last_n :: "nat \<Rightarrow> 'a list \<Rightarrow> 'a list" where
  "last_n n xs = drop (length xs - n) xs"

lemma last_n_append: "last_n n (last_n n xs @ ys) = last_n n (xs @ ys)"
proof (cases "length xs \<le> n")
  case False
  then have "drop (length xs - n) xs @ ys = drop (length xs - n) (xs @ ys)" by simp
  with False show ?thesis by (simp add: last_n_def add.commute)
qed (simp add: last_n_def)

lemma lb_view_length: "lb_wf b \<Longrightarrow> length (lb_view b) \<le> 64"
  by (simp add: lb_view_def lb_wf_def)

lemma put_core_last: "lb_ring b \<Longrightarrow> lb_view (put_core e b) = last_n 64 (lb_view b @ [e])"
  using lb_view_length [of b]
  by (cases "lb_view b") (auto simp: put_core_view last_n_def lb_ring_def)

lemma put_core_weight:
  assumes "lb_filled b"
  shows "weight (lb_entries (put_core e b)) \<le> weight (lb_view (put_core e b))"
proof -
  let ?w = "unat (lb_write_index b)" and ?n = "unat (lb_entry_count b)" and ?r = "unat (lb_read_index b)"
  have b: "lb_ring b" "length (lb_entries b) = 64" "?w < 64" "?r < 64" "?w = (?r + ?n) mod 64" "?n \<le> 64"
    "weight (lb_entries b) \<le> weight (lb_view b)"
    using assms by (simp_all add: lb_filled_def lb_ring_def lb_wf_def)
  have entries: "lb_entries (put_core e b) = (lb_entries b)[?w := e]"
    by (simp add: put_core_def Let_def)
  have upd: "weight ((lb_entries b)[?w := e]) + sum_bytes (entry_bytes (lb_entries b ! ?w)) =
      weight (lb_entries b) + sum_bytes (entry_bytes e)"
    using b by (intro weight_update) simp
  show ?thesis
  proof (cases "?n < 64")
    case True
    then show ?thesis
      using b upd by (simp add: entries put_core_view) (simp add: lb_view_def)
  next
    case False
    then have n: "?n = 64" "?w = ?r" using b by simp_all
    then have "lb_view b = lb_entries b ! ?r # ring_view (lb_entries b) ((?r + 1) mod 64) 63"
      using b ring_view_Cons [of "lb_entries b" ?r 63] by (simp add: lb_view_def)
    then show ?thesis
      using b n upd by (simp add: entries put_core_view)
  qed
qed

text \<open>A put is accepted while the contents it leaves weigh at most 65280.\<close>

lemma buffer_put_filled:
  assumes "lb_filled b" and "weight (last_n 64 (lb_view b @ [e])) \<le> 65280"
  shows "buffer_put e b = (log_ok, seal (put_core e b)) \<and> lb_filled (seal (put_core e b)) \<and>
    lb_view (seal (put_core e b)) = last_n 64 (lb_view b @ [e])"
proof -
  have ring: "lb_ring b" "lb_wf (put_core e b)"
    using assms by (simp_all add: lb_filled_def lb_ring_def put_core_wf)
  have view: "lb_view (put_core e b) = last_n 64 (lb_view b @ [e])"
    using ring by (simp add: put_core_last)
  have w: "weight (lb_entries (put_core e b)) \<le> weight (lb_view (put_core e b))"
    by (rule put_core_weight [OF assms(1)])
  have "buffer_sum (put_core e b) < 65536"
    using buffer_sum_le_weight [OF ring(2)] w assms(2) by (simp add: view)
  from buffer_put_ring [OF ring(1) this] show ?thesis
    using w view by (simp add: lb_filled_def)
qed

lemma put_run:
  assumes "lb_filled b"
    and "\<And>k. k \<le> length es \<Longrightarrow> weight (last_n 64 (lb_view b @ take k es)) \<le> 65280"
  shows "case run_calls buffer_put es b of (errs, b') \<Rightarrow>
    errs = replicate (length es) log_ok \<and> lb_filled b' \<and> lb_view b' = last_n 64 (lb_view b @ es)"
  using assms
proof (induction es arbitrary: b)
  case Nil
  then show ?case
    using lb_view_length [of b] by (simp add: last_n_def lb_filled_def lb_ring_def)
next
  case (Cons e es)
  let ?b = "seal (put_core e b)"
  have "weight (last_n 64 (lb_view b @ [e])) \<le> 65280"
    using Cons.prems(2) [of 1] by simp
  from buffer_put_filled [OF Cons.prems(1) this]
  have put: "buffer_put e b = (log_ok, ?b)" "lb_filled ?b" "lb_view (put_core e b) = last_n 64 (lb_view b @ [e])"
    by auto
  have "weight (last_n 64 (lb_view ?b @ take k es)) \<le> 65280" if "k \<le> length es" for k
    using Cons.prems(2) [of "Suc k"] that by (simp add: put(3) last_n_append [of 64 "lb_view b @ [e]"])
  from Cons.IH [OF put(2) this] show ?case
    by (simp add: put(1) put(3) last_n_append [of 64 "lb_view b @ [e]"] case_prod_unfold)
qed

section \<open>Properties of the checksum\<close>

text \<open>C11: The entry checksum detects every corruption of one byte: if an entry verifies and
  exactly one of its 18 body bytes is changed, the changed entry is reported as corrupt.\<close>

theorem single_byte_corruption_detected:
  assumes "error_code (log_verify_entry_integrity_safe (Some e)) = ERR_BASE_OK"
    and "i < 18" and "entry_body_bytes e ! i \<noteq> x"
    and "entry_body_bytes e' = (entry_body_bytes e)[i := x]"
    and "le_checksum e' = le_checksum e"
  shows "error_code (log_verify_entry_integrity_safe (Some e')) = ERR_BASE_DATA_CORRUPT"
proof -
  have "error_code (log_verify_entry_integrity_safe (Some e')) \<noteq> ERR_BASE_OK"
    using assms sum_bytes_update_neq [of i "entry_body_bytes e" x] by (simp add: verify_entry_ok_iff)
  then show ?thesis
    by (auto simp: log_verify_entry_integrity_safe_def split: if_splits)
qed

theorem single_byte_corruption_detected_witness:
  "error_code (log_verify_entry_integrity_safe (Some ((new_entry 1 2 0 3 4 5 6)\<lparr>le_level := 1\<rparr>))) =
     ERR_BASE_DATA_CORRUPT"
proof (rule single_byte_corruption_detected [where i = 6 and x = 1])
  show "error_code (log_verify_entry_integrity_safe (Some (new_entry 1 2 0 3 4 5 6))) = ERR_BASE_OK"
    by (rule new_entry_verifies)
qed (simp_all add: new_entry_def with_checksum_def entry_body_bytes_def le32_def le16_def)

text \<open>The checksum is a sum, so it does not detect bytes that change places: exchanging
  the level and the tag of a valid entry leaves it valid.\<close>

theorem swapped_level_and_tag_undetected:
  "error_code (log_verify_entry_integrity_safe (Some (e\<lparr>le_level := le_tag_id e, le_tag_id := le_level e\<rparr>))) =
   error_code (log_verify_entry_integrity_safe (Some e))"
proof -
  have "sum_bytes (entry_body_bytes (e\<lparr>le_level := le_tag_id e, le_tag_id := le_level e\<rparr>)) =
        sum_bytes (entry_body_bytes e)"
    by (simp add: entry_body_bytes_def)
  then show ?thesis
    by (simp add: log_verify_entry_integrity_safe_def log_calculate_checksum_eq)
qed

text \<open>\<open>log_create_entry\<close> succeeds exactly for a level, tag and message in range when both
  system calls answer OK; the entry carries the arguments and the truncated time and passes
  its integrity check.\<close>

theorem create_entry_spec:
  "case log_create_entry env True l t m a b of
     (err, Some e) \<Rightarrow>
        err = log_ok \<and> unat l < 4 \<and> unat t < 9 \<and> unat m < 18 \<and>
        le_timestamp e = ucast (snd (env_time env)) \<and> le_process_id e = snd (env_getpid env) \<and>
        le_level e = l \<and> le_tag_id e = t \<and> le_message_id e = m \<and> le_data0 e = a \<and> le_data1 e = b \<and>
        error_code (log_verify_entry_integrity_safe (Some e)) = ERR_BASE_OK
   | (err, None) \<Rightarrow>
        error_code err \<noteq> ERR_BASE_OK \<and>
        \<not> (unat l < 4 \<and> unat t < 9 \<and> unat m < 18 \<and> error_code (fst (env_getpid env)) = ERR_BASE_OK \<and>
           error_code (fst (env_time env)) = ERR_BASE_OK)"
proof -
  have sel: "le_timestamp (new_entry ts p l t m a b) = ts" "le_process_id (new_entry ts p l t m a b) = p"
    "le_level (new_entry ts p l t m a b) = l" "le_tag_id (new_entry ts p l t m a b) = t"
    "le_message_id (new_entry ts p l t m a b) = m" "le_data0 (new_entry ts p l t m a b) = a"
    "le_data1 (new_entry ts p l t m a b) = b" for ts p
    by (simp_all add: new_entry_def with_checksum_def)
  show ?thesis
    by (simp add: log_create_entry_def log_safety_checks_def LOG_LEVEL_COUNT_def LOG_TAG_COUNT_def
        LOG_MSG_COUNT_def not_le [symmetric] sel new_entry_verifies)
qed

section \<open>Properties of the buffer\<close>

lemma lb_invar_init: "lb_invar (g_log_buffer (snd (log_system_init_safe s)))"
  and lb_view_init: "lb_view (g_log_buffer (snd (log_system_init_safe s))) = []"
proof -
  let ?b = "zero_buffer\<lparr>lb_buffer_size := 64\<rparr>"
  have wf: "lb_wf ?b" by (simp add: lb_wf_def zero_buffer_def)
  moreover have lights: "list_all light (lb_entries ?b)"
    by (simp add: zero_buffer_def list_all_length light_def entry_bytes_def entry_body_bytes_def
        zero_entry_def le32_def le16_def)
  ultimately have "sealed (seal ?b)"
    by (simp add: sealed_seal_iff light_buffer_sum)
  then show "lb_invar (g_log_buffer (snd (log_system_init_safe s)))"
    using wf lights by (simp add: log_system_init_safe_def lb_invar_def lb_ring_def) (simp add: zero_buffer_def)
  show "lb_view (g_log_buffer (snd (log_system_init_safe s))) = []"
    by (simp add: log_system_init_safe_def lb_view_def zero_buffer_def)
qed

lemma lb_filled_init: "lb_filled (g_log_buffer (snd (log_system_init_safe s)))"
proof -
  have "weight (replicate n zero_entry) = 0" for n
    by (induction n) (simp_all add: entry_bytes_def entry_body_bytes_def zero_entry_def le32_def le16_def)
  then show ?thesis
    using lb_invar_init [of s]
    by (simp add: lb_filled_def lb_invar_def) (simp add: log_system_init_safe_def zero_buffer_def)
qed

definition heavy_entry :: log_entry_binary_t where
  "heavy_entry = \<lparr>le_timestamp = 0xFFFFFFFF, le_process_id = 0xFFFF, le_level = 0xFF,
     le_tag_id = 0xFF, le_message_id = 0xFFFF, le_data0 = 0xFFFFFFFF, le_data1 = 0xFFFFFFFF,
     le_checksum = 0xFFFF\<rparr>"

lemma sum_entry_bytes_examples:
  "sum_bytes (entry_bytes heavy_entry) = 5100" "sum_bytes (entry_bytes zero_entry) = 0"
  by (simp_all add: heavy_entry_def zero_entry_def entry_bytes_def entry_body_bytes_def le32_def le16_def)

lemma sum_entries_replicate:
  "sum_bytes (concat (map entry_bytes (replicate n e))) = n * sum_bytes (entry_bytes e)"
  by (induction n) auto

text \<open>C2: After initialisation the log buffer is a queue that overwrites its oldest entry.  Whatever
  entries are put, each of them is accepted and reading the buffer out returns the last 64 of them,
  oldest first, as long as no window of at most 64 consecutive ones has a byte sum above 65280.\<close>

theorem log_buffer_is_fifo:
  assumes "\<And>k. k \<le> length es \<Longrightarrow> sum_bytes (concat (map entry_bytes (drop (k - 64) (take k es)))) \<le> 65280"
  shows "case run_calls buffer_put es (g_log_buffer (snd (log_system_init_safe s))) of (errs, b) \<Rightarrow>
    errs = replicate (length es) log_ok \<and> drain lb_get 64 b = drop (length es - 64) es"
proof -
  let ?b0 = "g_log_buffer (snd (log_system_init_safe s))"
  have "weight (last_n 64 (lb_view ?b0 @ take k es)) \<le> 65280" if "k \<le> length es" for k
    using assms [OF that] that by (simp add: weight_def last_n_def lb_view_init min_absorb2)
  from put_run [OF lb_filled_init this]
  obtain b where run: "run_calls buffer_put es ?b0 = (replicate (length es) log_ok, b)"
    and b: "lb_ring b" "lb_view b = drop (length es - 64) es"
    by (auto simp: last_n_def lb_view_init lb_filled_def case_prod_unfold prod_eq_iff)
  moreover have "length (lb_view b) \<le> 64" using b(2) by simp
  ultimately show ?thesis
    by (simp add: lb_read.drain_view)
qed

theorem log_buffer_is_fifo_witness:
  "drain lb_get 64 (snd (run_calls buffer_put (replicate 70 zero_entry)
     (g_log_buffer (snd (log_system_init_safe log_system_boot))))) = drop 6 (replicate 70 zero_entry)"
proof -
  have "sum_bytes (concat (map entry_bytes (drop (k - 64) (take k (replicate 70 zero_entry))))) \<le> 65280" for k
    by (simp add: sum_entries_replicate sum_entry_bytes_examples del: map_replicate)
  from log_buffer_is_fifo [where es = "replicate 70 zero_entry" and s = log_system_boot, OF this]
  show ?thesis by (simp add: case_prod_unfold)
qed

text \<open>C30: The integrity field has 16 bits but is compared with a 32-bit sum.  As soon as the
  byte sum of the buffer reaches 65536, a put stores its entry and still reports corruption,
  and from then on every put and every get is refused: the buffer is lost.\<close>

theorem checksum_overflow_bricks_buffer:
  assumes "lb_wf b" and "sealed b" and "65536 \<le> buffer_sum (put_core e b)"
  shows "case buffer_put e b of (err, b') \<Rightarrow>
    error_code err = ERR_BASE_DATA_CORRUPT \<and> lb_entries b' ! unat (lb_write_index b) = e \<and>
    (\<forall>e2. buffer_put e2 b' = (log_critical ERR_BASE_DATA_CORRUPT, b')) \<and>
    buffer_get b' = (log_critical ERR_BASE_DATA_CORRUPT, None, b')"
proof -
  let ?b = "seal (put_core e b)"
  have "lb_wf ?b" "\<not> sealed ?b"
    using assms by (simp_all add: put_core_wf sealed_seal_iff)
  moreover have "lb_entries ?b ! unat (lb_write_index b) = e"
    using assms(1) by (simp add: put_core_def Let_def lb_wf_def)
  ultimately show ?thesis
    using assms by (simp add: buffer_put_eq unsealed_refuses)
qed

theorem checksum_overflow_bricks_buffer_witness:
  "\<exists>b. lb_wf b \<and> sealed b \<and> error_code (fst (buffer_put heavy_entry b)) = ERR_BASE_DATA_CORRUPT"
proof -
  let ?es = "replicate 12 heavy_entry @ zero_entry # replicate 51 zero_entry"
  let ?b = "\<lparr>lb_entries = ?es, lb_write_index = 12, lb_read_index = 0, lb_entry_count = 12,
              lb_buffer_size = 64, lb_safety_checksum = 0\<rparr>"
  note sums = sum_entry_bytes_examples sum_entries_replicate [unfolded map_replicate] sum_bytes_le16_small
  have wf: "lb_wf ?b" by (simp add: lb_wf_def)
  have "buffer_sum ?b < 65536"
    by (simp add: buffer_sum_def buffer_bytes_def sums)
  then have sealed: "sealed (seal ?b)"
    using wf by (simp add: sealed_seal_iff)
  have "put_core heavy_entry (seal ?b) =
        (seal ?b)\<lparr>lb_entries := ?es[12 := heavy_entry], lb_write_index := idx_next 12 64,
                  lb_entry_count := 13\<rparr>"
    by (simp add: put_core_def Let_def seal_def)
  moreover have "idx_next 12 64 = 13"
    by (simp add: idx_next_def)
  ultimately have "65536 \<le> buffer_sum (put_core heavy_entry (seal ?b))"
    by (simp add: buffer_sum_def buffer_bytes_def sums list_update_append)
  then have "case buffer_put heavy_entry (seal ?b) of (err, b') \<Rightarrow> error_code err = ERR_BASE_DATA_CORRUPT"
    using checksum_overflow_bricks_buffer [of "seal ?b" heavy_entry] wf sealed by auto
  then have "error_code (fst (buffer_put heavy_entry (seal ?b))) = ERR_BASE_DATA_CORRUPT"
    by (simp only: case_prod_unfold)
  moreover have "lb_wf (seal ?b)" using wf by simp
  ultimately show ?thesis using sealed by blast
qed

text \<open>A buffer prepared by \<open>log_buffer_init\<close> is unusable: the function leaves the
  integrity field zero although the bytes sum to 64, so every put and every get is refused
  as corrupt.  Only \<open>log_system_init_safe\<close> stores the checksum.\<close>

theorem log_buffer_init_unusable:
  "case log_buffer_init (Some b) of
     None \<Rightarrow> False
   | Some b' \<Rightarrow> buffer_sum b' = 64 \<and> lb_safety_checksum b' = 0 \<and>
       (\<forall>e. buffer_put e b' = (log_critical ERR_BASE_DATA_CORRUPT, b')) \<and>
       buffer_get b' = (log_critical ERR_BASE_DATA_CORRUPT, None, b')"
proof -
  let ?b = "zero_buffer\<lparr>lb_buffer_size := 64\<rparr>"
  have "buffer_sum ?b = 64"
    by (simp add: buffer_sum_def buffer_bytes_def zero_buffer_def map_replicate sum_bytes_le16_small
        sum_entry_bytes_examples sum_entries_replicate [unfolded map_replicate])
  moreover have "lb_safety_checksum ?b = 0" "lb_wf ?b"
    by (simp_all add: zero_buffer_def lb_wf_def)
  ultimately show ?thesis
    by (simp add: log_buffer_init_def unsealed_refuses sealed_def)
qed

section \<open>Recording\<close>

text \<open>A call of \<open>log_record_binary_safe\<close>: level, tag, message and the two payload words.\<close>

type_synonym record_request = "u8 \<times> u8 \<times> u16 \<times> u32 \<times> u32"

fun record_call :: "record_request \<Rightarrow> log_system \<Rightarrow> system_error \<times> log_system" where
  "record_call (l, t, m, a, b) s = log_record_binary_safe mock_env l t m a b s"

fun request_entry :: "record_request \<Rightarrow> log_entry_binary_t" where
  "request_entry (l, t, m, a, b) = new_entry 0 0 l t m a b"

text \<open>In range, and with a payload of moderate byte sum.\<close>

fun request_ok :: "record_request \<Rightarrow> bool" where
  "request_ok (l, t, m, a, b) \<longleftrightarrow>
     unat l < 4 \<and> unat t < 9 \<and> unat m < 18 \<and> sum_bytes (le32 a @ le32 b) \<le> 700"

lemma light_with_checksum:
  assumes "sum_bytes (entry_body_bytes e) \<le> 760"
  shows "light (with_checksum e)"
proof -
  let ?s = "sum_bytes (entry_body_bytes e)"
  have "unat (le_checksum (with_checksum e)) = ?s"
    using assms by (simp add: with_checksum_def log_calculate_checksum_eq unat_u16_of_nat)
  then have "sum_bytes (entry_bytes (with_checksum e)) = ?s + ?s mod 256 + ?s div 256"
    by (simp add: entry_bytes_def sum_bytes_le16)
  moreover have "?s mod 256 \<le> 255" "?s div 256 \<le> 2"
    using assms by simp_all
  ultimately show ?thesis
    using assms by (simp add: light_def)
qed

lemma request_entry_light: "request_ok r \<Longrightarrow> light (request_entry r)"
proof (cases r)
  case (fields l t m a b)
  moreover assume "request_ok r"
  moreover have "sum_bytes (le16 m) \<le> 17 + 17 div 256" if "unat m < 18"
    using that by (simp add: sum_bytes_le16_small)
  moreover have "sum_bytes (le32 0) = 0" "sum_bytes (le16 0) = 0"
    by (simp_all add: le32_def le16_def)
  ultimately show ?thesis
    by (auto simp: new_entry_def entry_body_bytes_def intro!: light_with_checksum)
qed

lemma record_call_ok:
  assumes "request_ok r" and "g_log_system_initialized s" and "lb_invar (g_log_buffer s)"
  shows "record_call r s = (log_ok, s\<lparr>g_log_buffer := lb_put (request_entry r) (g_log_buffer s)\<rparr>)"
proof (cases r)
  case (fields l t m a b)
  have "buffer_put (request_entry r) (g_log_buffer s) = (log_ok, lb_put (request_entry r) (g_log_buffer s))"
    using buffer_put_light [OF assms(3) request_entry_light [OF assms(1)]] by (simp add: lb_put_def)
  then show ?thesis
    using assms fields
    by (simp add: log_record_binary_safe_def record_after_init_def log_safety_checks_def
        LOG_LEVEL_COUNT_def LOG_TAG_COUNT_def LOG_MSG_COUNT_def mock_env_def mock_sys_getpid_def
        mock_time_get_us_def)
qed

lemma record_run:
  assumes "list_all request_ok reqs" and "g_log_system_initialized s" and "lb_invar (g_log_buffer s)"
  shows "run_calls record_call reqs s =
    (replicate (length reqs) log_ok,
     s\<lparr>g_log_buffer := fold lb_put (map request_entry reqs) (g_log_buffer s)\<rparr>)"
  using assms
proof (induction reqs arbitrary: s)
  case Nil
  then show ?case by simp
next
  case (Cons r reqs)
  let ?s = "s\<lparr>g_log_buffer := lb_put (request_entry r) (g_log_buffer s)\<rparr>"
  have "lb_invar (g_log_buffer ?s)"
    using Cons.prems lb.invar_put request_entry_light by simp
  then show ?case
    using Cons.IH [of ?s] Cons.prems by (simp add: record_call_ok Let_def)
qed

lemma record_call_boot:
  "\<not> g_log_system_initialized s \<Longrightarrow> record_call r s = record_call r (snd (log_system_init_safe s))"
  by (cases r) (simp add: log_record_binary_safe_def log_system_init_safe_def)

text \<open>Recording works from a cold start: the first call initialises the system, and any
  sequence of in-range calls with moderate payloads is accepted call by call, leaving in the
  buffer the entries of the last 64 calls, oldest first.\<close>

theorem record_from_boot:
  assumes "list_all request_ok (r # reqs)" and "\<not> g_log_system_initialized s"
  shows "case run_calls record_call (r # reqs) s of (errs, s') \<Rightarrow>
    errs = replicate (length (r # reqs)) log_ok \<and> g_log_system_initialized s' \<and>
    drain lb_get 64 (g_log_buffer s') =
      drop (length (r # reqs) - 64) (map request_entry (r # reqs))"
proof -
  let ?s = "snd (log_system_init_safe s)" and ?rs = "r # reqs"
  let ?b = "fold lb_put (map request_entry ?rs) (g_log_buffer ?s)"
  have init: "g_log_system_initialized ?s" "lb_invar (g_log_buffer ?s)"
    using lb_invar_init by (simp_all add: log_system_init_safe_def)
  have run: "run_calls record_call ?rs s =
      (replicate (length ?rs) log_ok, ?s\<lparr>g_log_buffer := ?b\<rparr>)"
    using record_run [OF assms(1) init] record_call_boot [OF assms(2), of r] by simp
  have lights: "list_all light (map request_entry ?rs)"
    using assms(1) request_entry_light by (simp add: list_all_iff)
  have "lb_view ?b = drop (length ?rs - 64) (map request_entry ?rs)"
    using lb.view_fold [OF init(2) lights] lb_view_init [of s] by simp
  moreover from this have "length (lb_view ?b) \<le> 64" by simp
  moreover have "lb_invar ?b"
    using lb.invar_fold [OF init(2) lights] .
  ultimately have "drain lb_get 64 ?b = drop (length ?rs - 64) (map request_entry ?rs)"
    using lb_drain.drain_view by metis
  then show ?thesis
    using run init by simp
qed

theorem record_from_boot_witness:
  "fst (run_calls record_call [(0, 8, 17, 1, 2), (3, 0, 0, 0, 0xFFFF)] log_system_boot) = replicate 2 log_ok"
proof -
  have ok: "list_all request_ok [(0, 8, 17, 1, 2), (3, 0, 0, 0, 0xFFFF)]"
    by (simp add: le32_def)
  have boot: "\<not> g_log_system_initialized log_system_boot"
    by (simp add: log_system_boot_def)
  have "fst (run_calls record_call [(0, 8, 17, 1, 2), (3, 0, 0, 0, 0xFFFF)] log_system_boot) =
      replicate (length [(0, 8, 17, 1, 2), (3, 0, 0, 0, 0xFFFF :: u32) :: record_request]) log_ok"
    using record_from_boot [OF ok boot] by (simp only: case_prod_unfold)
  then show ?thesis
    by (simp only: list.size add_0 add_0_right plus_1_eq_Suc add_Suc_right numeral_2_eq_2)
qed

section \<open>Configuration\<close>

text \<open>What is set is what is read back; validation is not part of setting.\<close>

theorem config_set_get:
  "case log_config_set (Some c) g of (err, g') \<Rightarrow>
     snd (log_config_get (Some x) g') = Some (if lcfg_max_retry_count c \<le> 10 then c else g) \<and>
     (error_code err = ERR_BASE_OK \<longleftrightarrow> lcfg_max_retry_count c \<le> 10)"
  by (cases c; cases g) (simp add: log_config_set_def log_config_get_def not_le [symmetric])

end
