(* ===== verification/Log_Client.thy ===== *)
theory Log_Client
  imports Log_Core Ipc_PubSub
begin

text \<open>
  The logging client (lib/logging/log_client.c): entries go to the logging topic through a
  publisher or, when that is not possible, into an early buffer of 32 entries.
  \<open>log_verify_entry_integrity\<close> is declared in log_common.h and defined nowhere in the
  sources; it is the parameter \<open>verify\<close>.  Functions that publish also return the payloads
  handed to \<open>ipc_publish\<close>, in order.
\<close>

section \<open>State\<close>

definition EARLY_LOG_BUFFER_CAPACITY :: u16 where
  "EARLY_LOG_BUFFER_CAPACITY = 32"

record early_log_buffer_t =
  eb_entries :: "log_entry_binary_t list"
  eb_write_index :: u16
  eb_read_index :: u16
  eb_count :: u16
  eb_initialized :: bool

record log_client =
  g_log_publisher :: "ipc_publisher option"
  g_early_log_buffer :: early_log_buffer_t

definition zero_early_buffer :: early_log_buffer_t where
  "zero_early_buffer = \<lparr>eb_entries = replicate 32 zero_entry, eb_write_index = 0,
     eb_read_index = 0, eb_count = 0, eb_initialized = False\<rparr>"

definition log_client_boot :: log_client where
  "log_client_boot = \<lparr>g_log_publisher = None, g_early_log_buffer = zero_early_buffer\<rparr>"

definition client_ok :: system_error where
  "client_ok = system_error_create ERR_BASE_OK ERROR_CATEGORY_SYSTEM ERROR_SEVERITY_LOW MODULE_ID_LOGGING"

definition client_high :: "u32 \<Rightarrow> system_error" where
  "client_high code = system_error_create code ERROR_CATEGORY_SYSTEM ERROR_SEVERITY_HIGH MODULE_ID_LOGGING"

section \<open>The early buffer\<close>

definition early_log_buffer_init :: "log_client \<Rightarrow> system_error \<times> log_client" where
  "early_log_buffer_init s =
     (client_ok, s\<lparr>g_early_log_buffer := zero_early_buffer\<lparr>eb_initialized := True\<rparr>\<rparr>)"

text \<open>The storing part of \<open>early_log_buffer_store\<close>, after its guard.\<close>

definition early_store :: "log_entry_binary_t \<Rightarrow> early_log_buffer_t \<Rightarrow> early_log_buffer_t" where
  "early_store e b =
     (let b1 = (if EARLY_LOG_BUFFER_CAPACITY \<le> eb_count b
                then b\<lparr>eb_read_index := idx_next (eb_read_index b) EARLY_LOG_BUFFER_CAPACITY,
                       eb_count := eb_count b - 1\<rparr>
                else b)
      in b1\<lparr>eb_entries := (eb_entries b1)[unat (eb_write_index b1) := e],
            eb_write_index := idx_next (eb_write_index b1) EARLY_LOG_BUFFER_CAPACITY,
            eb_count := eb_count b1 + 1\<rparr>)"

definition early_log_buffer_store ::
  "log_entry_binary_t option \<Rightarrow> log_client \<Rightarrow> system_error \<times> log_client" where
  "early_log_buffer_store entry s =
     (case entry of
        None \<Rightarrow> (log_critical ERR_SAFE_CRITICAL_NULL, s)
      | Some e \<Rightarrow>
          if \<not> eb_initialized (g_early_log_buffer s)
          then (log_critical ERR_SAFE_CRITICAL_NULL, s)
          else (client_ok, s\<lparr>g_early_log_buffer := early_store e (g_early_log_buffer s)\<rparr>))"

definition early_advance :: "early_log_buffer_t \<Rightarrow> early_log_buffer_t" where
  "early_advance b =
     b\<lparr>eb_read_index := idx_next (eb_read_index b) EARLY_LOG_BUFFER_CAPACITY,
       eb_count := eb_count b - 1\<rparr>"

text \<open>The \<open>while (count > 0)\<close> loop of the flush; each round decreases the count.\<close>

function flush_loop ::
  "ipc_publisher \<Rightarrow> early_log_buffer_t \<Rightarrow>
   system_error \<times> ipc_publisher \<times> early_log_buffer_t \<times> u8 list list" where
  "flush_loop p b =
     (if 0 < eb_count b then
        let payload = entry_bytes (eb_entries b ! unat (eb_read_index b));
            (r, p') = ipc_publish_on (Some payload) 20 p
        in if r \<noteq> 0 then (client_high ERR_SYS_SERVICE_NOT_FOUND, p', b, [payload])
           else
             (case flush_loop p' (early_advance b) of
                (err, p'', b', payloads) \<Rightarrow> (err, p'', b', payload # payloads))
      else (client_ok, p, b, []))"
  by pat_completeness auto
termination
proof (relation "measure (\<lambda>(p, b). unat (eb_count b))", goal_cases)
  case 1
  show ?case by simp
next
  case (2 p b)
  then show ?case by (simp add: early_advance_def unat_dec word_less_nat_alt)
qed

declare flush_loop.simps [simp del]

definition early_log_buffer_flush :: "log_client \<Rightarrow> system_error \<times> log_client \<times> u8 list list" where
  "early_log_buffer_flush s =
     (case g_log_publisher s of
        None \<Rightarrow> (client_high ERR_SYS_NOT_INIT, s, [])
      | Some p \<Rightarrow>
          if \<not> eb_initialized (g_early_log_buffer s) then (client_high ERR_SYS_NOT_INIT, s, [])
          else
            (case flush_loop p (g_early_log_buffer s) of
               (err, p', b', payloads) \<Rightarrow>
                 (err, s\<lparr>g_log_publisher := Some p', g_early_log_buffer := b'\<rparr>, payloads)))"

section \<open>Client operations\<close>

definition log_client_init :: "bool \<Rightarrow> log_client \<Rightarrow> system_error \<times> log_client \<times> u8 list list" where
  "log_client_init malloc_ok s =
     (let (err, s1) = early_log_buffer_init s in
      if error_code err \<noteq> ERR_BASE_OK then (err, s1, [])
      else if g_log_publisher s1 \<noteq> None then (client_ok, s1, [])
      else
        (case ipc_create_publisher malloc_ok (Some ''system/logging/info'') of
           None \<Rightarrow> (client_high ERR_SYS_SERVICE_NOT_FOUND, s1\<lparr>g_log_publisher := None\<rparr>, [])
         | Some p \<Rightarrow>
             (case early_log_buffer_flush (s1\<lparr>g_log_publisher := Some p\<rparr>) of
                (err2, s2, payloads) \<Rightarrow>
                  if error_code err2 \<noteq> ERR_BASE_OK then (err2, s2, payloads)
                  else (client_ok, s2, payloads))))"

definition send_log_entry_pubsub ::
  "(log_entry_binary_t \<Rightarrow> system_error) \<Rightarrow> log_entry_binary_t option \<Rightarrow> log_client \<Rightarrow>
   system_error \<times> log_client \<times> u8 list list" where
  "send_log_entry_pubsub verify entry s =
     (case entry of
        None \<Rightarrow> (log_critical ERR_SAFE_CRITICAL_NULL, s, [])
      | Some e \<Rightarrow>
          if error_code (verify e) \<noteq> ERR_BASE_OK then (verify e, s, [])
          else
            (case g_log_publisher s of
               None \<Rightarrow> (case early_log_buffer_store (Some e) s of (err, s') \<Rightarrow> (err, s', []))
             | Some p \<Rightarrow>
                 (case ipc_publish_on (Some (entry_bytes e)) 20 p of
                    (r, p') \<Rightarrow>
                      if r = 0 then (client_ok, s\<lparr>g_log_publisher := Some p'\<rparr>, [entry_bytes e])
                      else
                        (case early_log_buffer_store (Some e) (s\<lparr>g_log_publisher := Some p'\<rparr>) of
                           (err, s') \<Rightarrow> (err, s', [entry_bytes e])))))"

definition log_client_send_entry ::
  "(log_entry_binary_t \<Rightarrow> system_error) \<Rightarrow> log_env \<Rightarrow> u8 \<Rightarrow> u8 \<Rightarrow> u16 \<Rightarrow> u32 \<Rightarrow> u32 \<Rightarrow> log_client \<Rightarrow>
   system_error \<times> log_client \<times> u8 list list" where
  "log_client_send_entry verify env level tag_id message_id data1 data2 s =
     (case log_create_entry env True level tag_id message_id data1 data2 of
        (create_result, entry) \<Rightarrow>
          if error_code create_result \<noteq> ERR_BASE_OK then (create_result, s, [])
          else send_log_entry_pubsub verify entry s)"

definition log_client_send_entry_timeout ::
  "(log_entry_binary_t \<Rightarrow> system_error) \<Rightarrow> log_env \<Rightarrow> u8 \<Rightarrow> u8 \<Rightarrow> u16 \<Rightarrow> u32 \<Rightarrow> u32 \<Rightarrow> u32 \<Rightarrow> log_client \<Rightarrow>
   system_error \<times> log_client \<times> u8 list list" where
  "log_client_send_entry_timeout verify env level tag_id message_id data1 data2 timeout_ms s =
     log_client_send_entry verify env level tag_id message_id data1 data2 s"

definition log_client_get_status :: system_error where
  "log_client_get_status = client_ok"

definition log_client_get_status_timeout :: "u32 \<Rightarrow> system_error" where
  "log_client_get_status_timeout timeout_ms = log_client_get_status"

definition log_client_cleanup :: "log_client \<Rightarrow> log_client" where
  "log_client_cleanup s = s\<lparr>g_log_publisher := ipc_destroy_publisher (g_log_publisher s)\<rparr>"

section \<open>The early buffer is an overwriting queue\<close>

definition eb_invar :: "early_log_buffer_t \<Rightarrow> bool" where
  "eb_invar b \<longleftrightarrow> length (eb_entries b) = 32 \<and> unat (eb_write_index b) < 32 \<and>
     unat (eb_read_index b) < 32 \<and> unat (eb_count b) \<le> 32 \<and> eb_initialized b \<and>
     unat (eb_write_index b) = (unat (eb_read_index b) + unat (eb_count b)) mod 32"

definition eb_view :: "early_log_buffer_t \<Rightarrow> log_entry_binary_t list" where
  "eb_view b = ring_view (eb_entries b) (unat (eb_read_index b)) (unat (eb_count b))"

definition eb_get :: "early_log_buffer_t \<Rightarrow> (log_entry_binary_t \<times> early_log_buffer_t) option" where
  "eb_get b =
     (if 0 < eb_count b then Some (eb_entries b ! unat (eb_read_index b), early_advance b) else None)"

lemma idx_next_32: "unat (idx_next i EARLY_LOG_BUFFER_CAPACITY) = (unat i + 1) mod 32"
  by (simp add: unat_idx_next EARLY_LOG_BUFFER_CAPACITY_def)

lemma early_store_room:
  assumes "eb_invar b" and "unat (eb_count b) < 32"
  shows "eb_invar (early_store e b)" and "eb_view (early_store e b) = eb_view b @ [e]"
proof -
  let ?n = "unat (eb_count b)" and ?r = "unat (eb_read_index b)"
  have cnt: "unat (eb_count b + 1) = Suc ?n"
    using assms by (simp add: unat_inc)
  have store: "early_store e b = b\<lparr>eb_entries := (eb_entries b)[(?r + ?n) mod 32 := e],
      eb_write_index := idx_next (eb_write_index b) EARLY_LOG_BUFFER_CAPACITY,
      eb_count := eb_count b + 1\<rparr>"
    using assms by (simp add: early_store_def EARLY_LOG_BUFFER_CAPACITY_def eb_invar_def word_le_nat_alt)
  show "eb_invar (early_store e b)"
    using assms cnt unfolding store by (simp add: eb_invar_def idx_next_32 mod_Suc_eq)
  show "eb_view (early_store e b) = eb_view b @ [e]"
    using assms cnt ring_view_put [of ?n "eb_entries b" ?r e] unfolding store
    by (simp add: eb_view_def eb_invar_def)
qed

lemma early_advance_invar:
  assumes "eb_invar b" and "0 < unat (eb_count b)"
  shows "eb_invar (early_advance b)" and "eb_view (early_advance b) = tl (eb_view b)"
    and "unat (eb_count (early_advance b)) = unat (eb_count b) - 1"
proof -
  let ?r = "unat (eb_read_index b)"
  obtain n where n: "unat (eb_count b) = Suc n"
    using assms(2) by (cases "unat (eb_count b)") auto
  have cnt: "unat (eb_count b - 1) = n"
    using n by (simp add: unat_dec)
  then show "unat (eb_count (early_advance b)) = unat (eb_count b) - 1"
    using n by (simp add: early_advance_def)
  show "eb_invar (early_advance b)"
    using assms n cnt by (simp add: eb_invar_def early_advance_def idx_next_32 mod_simps)
  show "eb_view (early_advance b) = tl (eb_view b)"
    using assms n cnt ring_view_drop [of "eb_entries b" ?r n]
    by (simp add: eb_view_def eb_invar_def early_advance_def idx_next_32)
qed

lemma eb_view_Cons:
  assumes "eb_invar b" and "0 < unat (eb_count b)"
  shows "eb_view b = eb_entries b ! unat (eb_read_index b) # eb_view (early_advance b)"
proof -
  obtain n where "unat (eb_count b) = Suc n"
    using assms(2) by (cases "unat (eb_count b)") auto
  then have "eb_view b = eb_entries b ! unat (eb_read_index b) # tl (eb_view b)"
    using assms(1) by (simp add: eb_view_def ring_view_Cons eb_invar_def)
  then show ?thesis using early_advance_invar(2) [OF assms] by simp
qed

lemma early_store_full:
  assumes "eb_invar b" and "\<not> unat (eb_count b) < 32"
  shows "early_store e b = early_store e (early_advance b)"
proof -
  have "unat (eb_count b) = 32"
    using assms by (simp add: eb_invar_def)
  moreover from this have "unat (eb_count b - 1) = 31"
    by (simp add: unat_dec)
  ultimately show ?thesis
    by (simp add: early_store_def early_advance_def EARLY_LOG_BUFFER_CAPACITY_def word_le_nat_alt)
qed

lemma length_eb_view [simp]: "length (eb_view b) = unat (eb_count b)"
  by (simp add: eb_view_def)

interpretation early: overwriting_fifo eb_invar "\<lambda>_ _. True" eb_view "\<lambda>_. 32" early_store
proof (unfold_locales, goal_cases)
  case (2 b)
  then show ?case by (simp add: eb_invar_def)
next
  case (3 b x)
  then show ?case
    using early_store_room(1) [of b x] early_store_full [of b x] early_advance_invar [of b]
      early_store_room(1) [of "early_advance b" x]
    by (cases "unat (eb_count b) < 32") (auto simp: eb_invar_def)
next
  case (6 b x)
  then show ?case
    using early_store_room(2) [of b x] early_store_full [of b x] early_advance_invar [of b]
      early_store_room(2) [of "early_advance b" x]
    by (cases "unat (eb_count b) < 32") (auto simp: eb_invar_def)
qed simp_all

interpretation early_drain: drainable_buffer eb_invar "\<lambda>_ _. True" eb_view "\<lambda>_. 32" early_store eb_get
proof (unfold_locales, goal_cases)
  case (1 b)
  then have "unat (eb_count b) = 0"
    using length_eb_view [of b] by simp
  then show ?case by (simp add: eb_get_def word_less_nat_alt)
next
  case (2 b x xs)
  then have pos: "0 < unat (eb_count b)"
    using length_eb_view [of b] by simp
  then have "x = eb_entries b ! unat (eb_read_index b)"
    using 2 eb_view_Cons [of b] by simp
  then show ?case
    using 2 pos early_advance_invar [of b] by (simp add: eb_get_def word_less_nat_alt)
qed

section \<open>Flushing\<close>

text \<open>The publisher accepts any entry, so the loop runs to the end.\<close>

lemma flush_loop_spec:
  assumes "eb_invar b"
  shows "\<exists>p' b'. flush_loop p b = (client_ok, p', b', map entry_bytes (eb_view b)) \<and>
    eb_invar b' \<and> eb_view b' = [] \<and>
    pub_message_count p' = pub_message_count p + word_of_nat (length (eb_view b))"
  using assms
proof (induction "unat (eb_count b)" arbitrary: p b)
  case 0
  then show ?case
    by (simp add: flush_loop.simps [of p b] word_less_nat_alt eb_view_def)
next
  case (Suc n)
  let ?e = "eb_entries b ! unat (eb_read_index b)"
  obtain p1 where pub: "ipc_publish_on (Some (entry_bytes ?e)) 20 p = (0, p1)"
    and count: "pub_message_count p1 = pub_message_count p + 1"
    using publish_on_result [of "Some (entry_bytes ?e)" 20 p] publish_on_state [of "Some (entry_bytes ?e)" 20 p]
    by (cases "ipc_publish_on (Some (entry_bytes ?e)) 20 p") auto
  have pos: "0 < unat (eb_count b)" using Suc.hyps(2) by simp
  note adv = early_advance_invar [OF Suc.prems pos]
  have n: "n = unat (eb_count (early_advance b))"
    using adv(3) Suc.hyps(2) by simp
  obtain p' b' where rest:
    "flush_loop p1 (early_advance b) = (client_ok, p', b', map entry_bytes (eb_view (early_advance b)))"
    "eb_invar b'" "eb_view b' = []"
    "pub_message_count p' = pub_message_count p1 + word_of_nat (length (eb_view (early_advance b)))"
    using Suc.hyps(1) [OF n adv(1), of p1] by blast
  have view: "eb_view b = ?e # eb_view (early_advance b)"
    using eb_view_Cons [OF Suc.prems pos] .
  have "0 < eb_count b"
    using pos by (simp add: word_less_nat_alt)
  then have "flush_loop p b = (client_ok, p', b', map entry_bytes (?e # eb_view (early_advance b)))"
    by (simp add: flush_loop.simps [of p b] pub rest(1))
  moreover have "pub_message_count p' =
      pub_message_count p + word_of_nat (length (?e # eb_view (early_advance b)))"
    using rest(4) count by (simp add: algebra_simps)
  ultimately show ?case using rest(2,3) view by metis
qed

lemma init_early_invar:
  "eb_invar (g_early_log_buffer (snd (early_log_buffer_init s)))"
  "eb_view (g_early_log_buffer (snd (early_log_buffer_init s))) = []"
  by (simp_all add: early_log_buffer_init_def eb_invar_def eb_view_def zero_early_buffer_def)

lemma store_run:
  assumes "eb_invar (g_early_log_buffer s)"
  shows "fold (\<lambda>e s. snd (early_log_buffer_store (Some e) s)) es s =
    s\<lparr>g_early_log_buffer := fold early_store es (g_early_log_buffer s)\<rparr>"
  using assms
proof (induction es arbitrary: s)
  case Nil
  then show ?case by simp
next
  case (Cons e es)
  then have "snd (early_log_buffer_store (Some e) s) =
      s\<lparr>g_early_log_buffer := early_store e (g_early_log_buffer s)\<rparr>"
    by (simp add: early_log_buffer_store_def eb_invar_def)
  then show ?case
    using Cons early.invar_put by simp
qed

text \<open>C21: The early buffer keeps startup entries for the flush: after it is initialised and
  any entries are stored, a flush over a publisher publishes exactly the last 32 of them,
  oldest first, as 20-byte messages, counts each of them, and empties the buffer.\<close>

theorem early_flush_publishes_last_32:
  "case early_log_buffer_flush
      ((fold (\<lambda>e s. snd (early_log_buffer_store (Some e) s)) es
         (snd (early_log_buffer_init s)))\<lparr>g_log_publisher := Some p\<rparr>) of
     (err, s', payloads) \<Rightarrow>
       err = client_ok \<and> payloads = map entry_bytes (drop (length es - 32) es) \<and>
       eb_view (g_early_log_buffer s') = [] \<and>
       map_option pub_message_count (g_log_publisher s') =
         Some (pub_message_count p + word_of_nat (min (length es) 32))"
proof -
  let ?b0 = "g_early_log_buffer (snd (early_log_buffer_init s))"
  let ?b = "fold early_store es ?b0"
  have "eb_invar ?b"
    using early.invar_fold [OF init_early_invar(1)] by (simp add: list_all_iff)
  moreover have view: "eb_view ?b = drop (length es - 32) es"
    using early.view_fold [OF init_early_invar(1)] by (simp add: list_all_iff init_early_invar)
  ultimately obtain p' b' where
    "flush_loop p ?b = (client_ok, p', b', map entry_bytes (drop (length es - 32) es))"
    "eb_view b' = []"
    "pub_message_count p' = pub_message_count p + word_of_nat (length es - (length es - 32))"
    using flush_loop_spec [of ?b p] by auto
  moreover have "length es - (length es - 32) = min (length es) 32" by simp
  moreover have "eb_initialized ?b"
    using \<open>eb_invar ?b\<close> by (simp add: eb_invar_def)
  ultimately show ?thesis
    by (simp add: store_run [OF init_early_invar(1)] early_log_buffer_flush_def)
qed

section \<open>Initialisation\<close>

lemma create_logging_publisher:
  "ipc_create_publisher malloc_ok (Some ''system/logging/info'') =
     (if malloc_ok then Some \<lparr>pub_topic = ''system/logging/info'', pub_message_count = 0, pub_error_count = 0\<rparr>
      else None)"
proof -
  have "ipc_validate_topic (Some ''system/logging/info'') = IPC_TOPIC_VALID" by code_simp
  then show ?thesis by (simp add: create_publisher_eq validate_iff_well_formed)
qed

text \<open>\<open>log_client_init\<close> loses every early entry: in whatever state it is called, it clears
  the early buffer before it would flush it, publishes nothing, and leaves the buffer empty.
  (The publisher exists afterwards unless its allocation failed.)\<close>

theorem client_init_discards_early_logs:
  "case log_client_init malloc_ok s of (err, s', payloads) \<Rightarrow>
     payloads = [] \<and> eb_view (g_early_log_buffer s') = [] \<and> eb_initialized (g_early_log_buffer s') \<and>
     (error_code err = ERR_BASE_OK \<longleftrightarrow> g_log_publisher s' \<noteq> None) \<and>
     (g_log_publisher s' \<noteq> None \<longleftrightarrow> malloc_ok \<or> g_log_publisher s \<noteq> None)"
  by (simp add: log_client_init_def early_log_buffer_init_def client_ok_def client_high_def
      create_logging_publisher early_log_buffer_flush_def flush_loop.simps zero_early_buffer_def eb_view_def
      split: option.split)

text \<open>Before the first \<open>log_client_init\<close> no entry is kept: every send fails, nothing is
  published and the early buffer, which is meant for exactly this time, stays empty.\<close>

theorem send_before_init_lost:
  "case log_client_send_entry verify env l t m a b log_client_boot of (err, s', payloads) \<Rightarrow>
     error_code err \<noteq> ERR_BASE_OK \<and> s' = log_client_boot \<and> payloads = []"
proof -
  have "log_create_entry env True l t m a b = (err, None) \<Longrightarrow> error_code err \<noteq> ERR_BASE_OK" for err
    by (auto simp: log_create_entry_def log_safety_checks_def split: if_splits)
  then show ?thesis
    by (auto simp: log_client_send_entry_def send_log_entry_pubsub_def early_log_buffer_store_def
        log_client_boot_def zero_early_buffer_def split: prod.split option.split)
qed

lemma send_entry_published:
  assumes "\<And>e. error_code (verify e) = ERR_BASE_OK \<longleftrightarrow>
             error_code (log_verify_entry_integrity_safe (Some e)) = ERR_BASE_OK"
    and "g_log_publisher s = Some p"
  shows "log_client_send_entry verify mock_env l t m a b s =
    (if unat l < 4 \<and> unat t < 9 \<and> unat m < 18
     then (client_ok, s\<lparr>g_log_publisher := Some (p\<lparr>pub_message_count := pub_message_count p + 1\<rparr>)\<rparr>,
           [entry_bytes (new_entry 0 0 l t m a b)])
     else (log_invalid ERROR_SEVERITY_HIGH, s, []))"
proof -
  have "error_code (verify (new_entry 0 0 l t m a b)) = ERR_BASE_OK"
    using assms(1) new_entry_verifies by blast
  moreover have "ipc_publish_on (Some (entry_bytes e)) 20 p =
      (0, p\<lparr>pub_message_count := pub_message_count p + 1\<rparr>)" for e
    by (simp add: prod_eq_iff publish_on_result publish_on_state)
  ultimately show ?thesis
    using assms(2)
    by (simp add: log_client_send_entry_def log_create_entry_def log_safety_checks_def
        LOG_LEVEL_COUNT_def LOG_TAG_COUNT_def LOG_MSG_COUNT_def mock_env_def mock_sys_getpid_def
        mock_time_get_us_def send_log_entry_pubsub_def not_le)
qed

text \<open>Once a publisher exists, a send with arguments in range (and an integrity check
  that accepts entries with a correct checksum) publishes exactly one message, the 20 bytes
  of the created entry, and counts it; an argument out of range changes nothing.\<close>

theorem send_publishes_entry:
  assumes "\<And>e. error_code (verify e) = ERR_BASE_OK \<longleftrightarrow>
             error_code (log_verify_entry_integrity_safe (Some e)) = ERR_BASE_OK"
    and "g_log_publisher s = Some p"
  shows "log_client_send_entry verify mock_env l t m a b s =
    (if unat l < 4 \<and> unat t < 9 \<and> unat m < 18
     then (client_ok, s\<lparr>g_log_publisher := Some (p\<lparr>pub_message_count := pub_message_count p + 1\<rparr>)\<rparr>,
           [entry_bytes (new_entry 0 0 l t m a b)])
     else (log_invalid ERROR_SEVERITY_HIGH, s, []))"
  using assms by (rule send_entry_published)

theorem send_publishes_entry_witness:
  "fst (log_client_send_entry (\<lambda>e. log_verify_entry_integrity_safe (Some e)) mock_env 1 2 3 4 5
     \<lparr>g_log_publisher = Some \<lparr>pub_topic = ''system/logging/info'', pub_message_count = 0, pub_error_count = 0\<rparr>,
      g_early_log_buffer = zero_early_buffer\<rparr>) = client_ok"
  by (subst send_publishes_entry) simp_all

end
