(* ===== verification/Log_Storage.thy ===== *)
theory Log_Storage
  imports Log_Core
begin

text \<open>
  The optional storage adapter (lib/logging/log_storage_adapter.h, log_storage_adapter.c):
  a static structure with four transitions.  A callback is the number of a function.
\<close>

datatype storage_mode_t = STORAGE_MODE_DISABLED | STORAGE_MODE_BUFFER_ONLY | STORAGE_MODE_PERSISTENT

record storage_adapter =
  sa_mode :: storage_mode_t
  sa_callback :: "nat option"
  sa_initialized :: bool
  sa_subscription_active :: bool

definition g_storage_adapter :: storage_adapter where
  "g_storage_adapter = \<lparr>sa_mode = STORAGE_MODE_DISABLED, sa_callback = None,
     sa_initialized = False, sa_subscription_active = False\<rparr>"

definition storage_adapter_init :: "storage_mode_t \<Rightarrow> storage_adapter \<Rightarrow> storage_adapter" where
  "storage_adapter_init mode s =
     (if sa_initialized s then s
      else s\<lparr>sa_mode := mode, sa_initialized := True, sa_subscription_active := False\<rparr>)"

definition storage_adapter_shutdown :: "storage_adapter \<Rightarrow> storage_adapter" where
  "storage_adapter_shutdown s =
     (if \<not> sa_initialized s then s
      else s\<lparr>sa_initialized := False, sa_subscription_active := False, sa_callback := None\<rparr>)"

definition storage_adapter_subscribe :: "nat option \<Rightarrow> storage_adapter \<Rightarrow> storage_adapter" where
  "storage_adapter_subscribe callback s =
     (if \<not> sa_initialized s then s
      else s\<lparr>sa_callback := callback, sa_subscription_active := True\<rparr>)"

definition storage_adapter_unsubscribe :: "storage_adapter \<Rightarrow> storage_adapter" where
  "storage_adapter_unsubscribe s = s\<lparr>sa_subscription_active := False, sa_callback := None\<rparr>"

definition storage_adapter_is_available :: "storage_adapter \<Rightarrow> bool" where
  "storage_adapter_is_available s \<longleftrightarrow> sa_initialized s \<and> sa_subscription_active s"

section \<open>Reachable states\<close>

text \<open>The calls a client can make.\<close>

inductive storage_step :: "storage_adapter \<Rightarrow> storage_adapter \<Rightarrow> bool" where
  step_init: "storage_step s (storage_adapter_init m s)"
| step_shutdown: "storage_step s (storage_adapter_shutdown s)"
| step_subscribe: "storage_step s (storage_adapter_subscribe c s)"
| step_unsubscribe: "storage_step s (storage_adapter_unsubscribe s)"

inductive storage_reachable :: "storage_adapter \<Rightarrow> bool" where
  reach_boot: "storage_reachable g_storage_adapter"
| reach_step: "storage_reachable s \<Longrightarrow> storage_step s s' \<Longrightarrow> storage_reachable s'"

inductive_cases storage_stepE: "storage_step s s'"

text \<open>A subscription is only active on an initialised adapter, and a registered callback
  implies an active subscription.\<close>

definition storage_invar :: "storage_adapter \<Rightarrow> bool" where
  "storage_invar s \<longleftrightarrow>
     (sa_subscription_active s \<longrightarrow> sa_initialized s) \<and> (sa_callback s \<noteq> None \<longrightarrow> sa_subscription_active s)"

lemma storage_step_invar: "storage_step s s' \<Longrightarrow> storage_invar s \<Longrightarrow> storage_invar s'"
  by (auto elim!: storage_stepE simp: storage_invar_def storage_adapter_init_def
      storage_adapter_shutdown_def storage_adapter_subscribe_def storage_adapter_unsubscribe_def
      split: if_splits)

lemma storage_reachable_invar: "storage_reachable s \<Longrightarrow> storage_invar s"
  by (induction rule: storage_reachable.induct)
     (auto simp: storage_invar_def g_storage_adapter_def dest: storage_step_invar [unfolded storage_invar_def])

text \<open>In every state the adapter can reach, it is available exactly while a subscription
  is active, and a stored callback belongs to an active subscription of an initialised
  adapter (no call ever leaves a stale callback behind).\<close>

theorem storage_available_iff_subscribed:
  "storage_reachable s \<Longrightarrow>
     (storage_adapter_is_available s \<longleftrightarrow> sa_subscription_active s) \<and>
     (sa_callback s = None \<or> storage_adapter_is_available s)"
  using storage_reachable_invar [of s] by (auto simp: storage_invar_def storage_adapter_is_available_def)

theorem storage_available_iff_subscribed_witness:
  "storage_adapter_is_available
     (storage_adapter_subscribe (Some 7) (storage_adapter_init STORAGE_MODE_PERSISTENT g_storage_adapter))"
proof -
  let ?s = "storage_adapter_subscribe (Some 7) (storage_adapter_init STORAGE_MODE_PERSISTENT g_storage_adapter)"
  have "storage_reachable ?s"
    by (rule reach_step [OF reach_step [OF reach_boot step_init] step_subscribe])
  from storage_available_iff_subscribed [OF this] show ?thesis
    by (simp add: storage_adapter_subscribe_def storage_adapter_init_def g_storage_adapter_def)
qed

end
