(* ===== verification/Logger_Service.thy ===== *)
theory Logger_Service
  imports Log_Core Ipc_PubSub
begin

text \<open>
  The logger service (services/logger/logger_service.h, logger_service.c, logger_main.c):
  one buffer of 100 entries per level, filled from received log entries, and the status it
  reports.  The main loop receives through a subscriber; a callback is the number of the
  function, and the service's own callback has number 0.
\<close>

section \<open>Data\<close>

abbreviation LOGGER_MSG_LOG_ENTRY :: u8 where "LOGGER_MSG_LOG_ENTRY \<equiv> 1"
abbreviation LOGGER_MSG_BUFFER_STATUS :: u8 where "LOGGER_MSG_BUFFER_STATUS \<equiv> 2"
abbreviation LOGGER_MSG_RETRIEVE_LOGS :: u8 where "LOGGER_MSG_RETRIEVE_LOGS \<equiv> 3"

definition LOGGER_SERVICE_BUFFER_CAPACITY :: u16 where
  "LOGGER_SERVICE_BUFFER_CAPACITY = 100"

definition LOGGER_SERVICE_LEVEL_COUNT :: nat where
  "LOGGER_SERVICE_LEVEL_COUNT = 6"

record logger_service_entry_t =
  se_timestamp :: u32
  se_process_id :: u16
  se_level :: u8
  se_tag_id :: u8
  se_message_id :: u16
  se_data0 :: u32
  se_data1 :: u32
  se_checksum :: u16

record logger_msg_entry_t =
  me_type :: u8
  me_source_pid :: u16
  me_entry :: logger_service_entry_t

record logger_msg_status_t =
  ms_type :: u8
  ms_requester_pid :: u16

record logger_status_response_t =
  sr_entry_count :: u16
  sr_buffer_capacity :: u16
  sr_dropped_count :: u16
  sr_storage_usage :: u32

record logger_service_buffer_t =
  sb_entries :: "logger_service_entry_t list"
  sb_write_index :: u16
  sb_read_index :: u16
  sb_entry_count :: u16
  sb_buffer_size :: u16

text \<open>The statics of logger_service.c, and the static clock of \<open>sys_time_get_us\<close>.\<close>

record logger_state =
  g_level_buffers :: "logger_service_buffer_t list"
  ls_storage_base_address :: u32
  ls_storage_capacity :: u32
  ls_current_write_offset :: u32
  ls_last_flush_time :: u64
  ls_storage_available :: bool
  ls_service_running :: bool
  g_last_status :: logger_status_response_t
  ls_clock :: u64

definition svc_ok :: system_error where
  "svc_ok = system_error_create ERR_BASE_OK ERROR_CATEGORY_SYSTEM ERROR_SEVERITY_LOW MODULE_ID_LOGGING"

definition svc_not_running :: system_error where
  "svc_not_running =
     system_error_create ERR_SYS_NOT_INIT ERROR_CATEGORY_SYSTEM ERROR_SEVERITY_MEDIUM MODULE_ID_LOGGING"

section \<open>Entries and buffers\<close>

definition se_body_bytes :: "logger_service_entry_t \<Rightarrow> u8 list" where
  "se_body_bytes e =
     le32 (se_timestamp e) @ le16 (se_process_id e) @ [se_level e, se_tag_id e] @
     le16 (se_message_id e) @ le32 (se_data0 e) @ le32 (se_data1 e)"

text \<open>Here the accumulator has 32 bits and is truncated at the end.\<close>

definition logger_service_calculate_checksum :: "logger_service_entry_t option \<Rightarrow> u16" where
  "logger_service_calculate_checksum ep =
     (case ep of None \<Rightarrow> 0xFFFF | Some e \<Rightarrow> ucast (checksum32 (se_body_bytes e)))"

definition logger_service_verify_entry_integrity :: "logger_service_entry_t option \<Rightarrow> bool" where
  "logger_service_verify_entry_integrity ep =
     (case ep of
        None \<Rightarrow> False
      | Some e \<Rightarrow>
          if se_checksum e \<noteq> logger_service_calculate_checksum (Some e) then False
          else if LOGGER_SERVICE_LEVEL_COUNT \<le> unat (se_level e) then False
          else True)"

definition zero_service_entry :: logger_service_entry_t where
  "zero_service_entry = \<lparr>se_timestamp = 0, se_process_id = 0, se_level = 0, se_tag_id = 0,
     se_message_id = 0, se_data0 = 0, se_data1 = 0, se_checksum = 0\<rparr>"

definition logger_service_buffer_init :: "logger_service_buffer_t option \<Rightarrow> logger_service_buffer_t option" where
  "logger_service_buffer_init bp =
     (case bp of
        None \<Rightarrow> None
      | Some _ \<Rightarrow> Some \<lparr>sb_entries = replicate 100 zero_service_entry, sb_write_index = 0,
                        sb_read_index = 0, sb_entry_count = 0,
                        sb_buffer_size = LOGGER_SERVICE_BUFFER_CAPACITY\<rparr>)"

definition svc_put ::
  "logger_service_entry_t option \<Rightarrow> logger_service_buffer_t \<Rightarrow> int \<times> logger_service_buffer_t" where
  "svc_put entry b =
     (case entry of
        None \<Rightarrow> (-1, b)
      | Some e \<Rightarrow>
          if \<not> logger_service_verify_entry_integrity (Some e) then (-1, b)
          else if sb_buffer_size b \<le> sb_entry_count b then (-1, b)
          else (0, b\<lparr>sb_entries := (sb_entries b)[unat (sb_write_index b) := e],
                     sb_write_index := idx_next (sb_write_index b) (sb_buffer_size b),
                     sb_entry_count := sb_entry_count b + 1\<rparr>))"

definition logger_service_buffer_put ::
  "logger_service_buffer_t option \<Rightarrow> logger_service_entry_t option \<Rightarrow> int \<times> logger_service_buffer_t option" where
  "logger_service_buffer_put bp entry =
     (case bp of
        None \<Rightarrow> (-1, None)
      | Some b \<Rightarrow> (case svc_put entry b of (r, b') \<Rightarrow> (r, Some b')))"

section \<open>Service operations\<close>

definition zero_status :: logger_status_response_t where
  "zero_status = \<lparr>sr_entry_count = 0, sr_buffer_capacity = 0, sr_dropped_count = 0, sr_storage_usage = 0\<rparr>"

definition logger_service_init :: "logger_state \<Rightarrow> system_error \<times> logger_state" where
  "logger_service_init s =
     (let s1 = s\<lparr>g_level_buffers := map (\<lambda>b. the (logger_service_buffer_init (Some b))) (g_level_buffers s),
                 ls_storage_base_address := 0, ls_storage_capacity := 0, ls_current_write_offset := 0,
                 ls_last_flush_time := 0, ls_storage_available := False, ls_service_running := False\<rparr>
      in if error_code (sys_ipc_register_topic (Some ''system/logger'') 0) \<noteq> ERR_BASE_OK then
           (system_error_create ERR_SYS_SERVICE_REG_FAILED ERROR_CATEGORY_SYSTEM
              ERROR_SEVERITY_CRITICAL MODULE_ID_LOGGING, s1)
         else
           (case sys_time_get_us (ls_clock s1) True of
              (err, ts, clock) \<Rightarrow>
                (svc_ok, s1\<lparr>ls_service_running := True, ls_clock := clock,
                            ls_last_flush_time := (if error_code err = ERR_BASE_OK
                                                   then the ts else ls_last_flush_time s1)\<rparr>)))"

text \<open>The store into the buffer of the entry's level; the result of the put is ignored.\<close>

definition store_by_level :: "logger_service_entry_t \<Rightarrow> logger_state \<Rightarrow> logger_state" where
  "store_by_level e s =
     (let level = unat (se_level e) in
      if level < LOGGER_SERVICE_LEVEL_COUNT then
        s\<lparr>g_level_buffers := (g_level_buffers s)[level := snd (svc_put (Some e) (g_level_buffers s ! level))]\<rparr>
      else s)"

definition process_log_entry_message ::
  "logger_msg_entry_t option \<Rightarrow> u64 \<Rightarrow> logger_state \<Rightarrow> system_error \<times> logger_state" where
  "process_log_entry_message msg msg_size s =
     (if msg_size \<noteq> 23 then (log_critical ERR_BASE_INVALID_SIZE, s)
      else
        (case msg of
           None \<Rightarrow> (log_critical ERR_SAFE_CRITICAL_NULL, s)
         | Some m \<Rightarrow>
             if me_type m \<noteq> LOGGER_MSG_LOG_ENTRY then (log_critical ERR_SYS_INVALID_PARAM, s)
             else if me_source_pid m = 0 then (log_critical ERR_SYS_INVALID_PARAM, s)
             else (svc_ok, store_by_level (me_entry m) s)))"

definition total_entries :: "logger_state \<Rightarrow> u16" where
  "total_entries s = foldl (\<lambda>t b. t + sb_entry_count b) 0 (g_level_buffers s)"

definition status_now :: "logger_state \<Rightarrow> logger_status_response_t" where
  "status_now s =
     \<lparr>sr_entry_count = total_entries s, sr_buffer_capacity = 600, sr_dropped_count = 0,
      sr_storage_usage = (if ls_storage_available s then ls_current_write_offset s else 0)\<rparr>"

text \<open>The response (10 bytes) is handed to \<open>sys_ipc_send\<close>; it is returned with the result.\<close>

definition process_buffer_status_message ::
  "logger_msg_status_t option \<Rightarrow> u64 \<Rightarrow> logger_state \<Rightarrow> system_error \<times> (u16 \<times> logger_status_response_t) option" where
  "process_buffer_status_message msg msg_size s =
     (if msg_size \<noteq> 3 then (log_critical ERR_BASE_INVALID_SIZE, None)
      else
        (case msg of
           None \<Rightarrow> (log_critical ERR_SAFE_CRITICAL_NULL, None)
         | Some m \<Rightarrow>
             if ms_type m \<noteq> LOGGER_MSG_BUFFER_STATUS then (log_critical ERR_SYS_INVALID_PARAM, None)
             else if ms_requester_pid m = 0 then (log_critical ERR_SYS_INVALID_PARAM, None)
             else
               let response = status_now s;
                   send_result = sys_ipc_send (ms_requester_pid m) (Some response) 10
               in if error_code send_result \<noteq> ERR_BASE_OK
                  then (send_result, Some (ms_requester_pid m, response))
                  else (svc_ok, Some (ms_requester_pid m, response))))"

text \<open>The copy into the service format, with a fresh checksum.\<close>

definition service_entry_of :: "log_entry_binary_t \<Rightarrow> logger_service_entry_t" where
  "service_entry_of e =
     (let se = \<lparr>se_timestamp = le_timestamp e, se_process_id = le_process_id e, se_level = le_level e,
                se_tag_id = le_tag_id e, se_message_id = le_message_id e, se_data0 = le_data0 e,
                se_data1 = le_data1 e, se_checksum = 0\<rparr>
      in se\<lparr>se_checksum := logger_service_calculate_checksum (Some se)\<rparr>)"

definition process_log_entry_pubsub ::
  "log_entry_binary_t option \<Rightarrow> u64 \<Rightarrow> logger_state \<Rightarrow> system_error \<times> logger_state" where
  "process_log_entry_pubsub entry entry_size s =
     (if entry_size \<noteq> 20 then (log_critical ERR_BASE_INVALID_SIZE, s)
      else
        (case entry of
           None \<Rightarrow> (log_critical ERR_SAFE_CRITICAL_NULL, s)
         | Some e \<Rightarrow>
             let integrity_result = log_verify_entry_integrity_safe (Some e) in
             if error_code integrity_result \<noteq> ERR_BASE_OK then (integrity_result, s)
             else (svc_ok, store_by_level (service_entry_of e) s)))"

text \<open>A message is the entry found at the given address, and the size passed with it.\<close>

definition logger_service_process_message ::
  "log_entry_binary_t option \<Rightarrow> u64 \<Rightarrow> logger_state \<Rightarrow> system_error \<times> logger_state" where
  "logger_service_process_message message sz s =
     (if message = None \<or> sz < 20 then (log_critical ERR_SAFE_CRITICAL_NULL, s)
      else process_log_entry_pubsub message sz s)"

definition logger_service_get_status :: "logger_state \<Rightarrow> system_error \<times> logger_state" where
  "logger_service_get_status s =
     (if \<not> ls_service_running s then (svc_not_running, s)
      else (svc_ok, s\<lparr>g_last_status := status_now s\<rparr>))"

definition logger_service_get_last_status ::
  "bool \<Rightarrow> logger_state \<Rightarrow> system_error \<times> logger_status_response_t option" where
  "logger_service_get_last_status status_given s =
     (if \<not> status_given then (log_critical ERR_SAFE_CRITICAL_NULL, None)
      else if \<not> ls_service_running s then (svc_not_running, None)
      else (svc_ok, Some (g_last_status s)))"

section \<open>The main program\<close>

record logger_main =
  lm_subscriber :: "ipc_subscriber option"
  lm_state :: logger_state

text \<open>\<open>read\<close> gives the structure a byte block holds, as the cast of the message pointer does.\<close>

definition log_entry_callback ::
  "(u8 list \<Rightarrow> log_entry_binary_t) \<Rightarrow> u8 list option \<Rightarrow> u64 \<Rightarrow> logger_state \<Rightarrow> logger_state" where
  "log_entry_callback read message sz s =
     (case message of
        None \<Rightarrow> s
      | Some bs \<Rightarrow>
          if sz < 20 then s else snd (logger_service_process_message (Some (read bs)) sz s))"

definition logger_service_init_pubsub :: "bool \<Rightarrow> logger_main \<Rightarrow> system_error \<times> logger_main" where
  "logger_service_init_pubsub malloc_ok m =
     (let (result, s) = logger_service_init (lm_state m); m1 = m\<lparr>lm_state := s\<rparr> in
      if error_code result \<noteq> ERR_BASE_OK then (result, m1)
      else
        (case ipc_create_subscriber malloc_ok (Some ''system/logging/info'') (Some 0) None of
           None \<Rightarrow>
             (system_error_create ERR_SYS_SERVICE_NOT_FOUND ERROR_CATEGORY_SYSTEM
                ERROR_SEVERITY_HIGH MODULE_ID_LOGGING, m1\<lparr>lm_subscriber := None\<rparr>)
         | Some sub \<Rightarrow> (svc_ok, m1\<lparr>lm_subscriber := Some sub\<rparr>)))"

text \<open>One round of \<open>logger_service_loop\<close>: receive with a timeout of 100 ms; the receive runs
  the callbacks.  The system call is an argument.\<close>

definition logger_service_loop_round ::
  "(u8 list \<Rightarrow> log_entry_binary_t) \<Rightarrow> (u8 list option \<Rightarrow> u64 \<Rightarrow> u32 \<Rightarrow> system_error \<times> u8 list option) \<Rightarrow>
   logger_main \<Rightarrow> logger_main" where
  "logger_service_loop_round read receive m =
     (case ipc_subscriber_receive_with receive (lm_subscriber m) 100 of
        (result, sub, calls) \<Rightarrow>
          m\<lparr>lm_subscriber := sub,
            lm_state := fold (\<lambda>c s. log_entry_callback read (Some (cb_message c)) (cb_size c) s)
                          calls (lm_state m)\<rparr>)"

definition logger_service_cleanup :: "logger_main \<Rightarrow> logger_main" where
  "logger_service_cleanup m = m\<lparr>lm_subscriber := snd (ipc_destroy_subscriber (lm_subscriber m))\<rparr>"

text \<open>The loop has no exit: it is given what the kernel's receive call does in each round.  The
  program returns only when the initialisation fails, then with -1; the clean-up after the loop
  is not reached.\<close>

fun logger_service_loop ::
  "(u8 list \<Rightarrow> log_entry_binary_t) \<Rightarrow> (u8 list option \<Rightarrow> u64 \<Rightarrow> u32 \<Rightarrow> system_error \<times> u8 list option) list \<Rightarrow>
   logger_main \<Rightarrow> logger_main" where
  "logger_service_loop read [] m = m"
| "logger_service_loop read (receive # rs) m =
     logger_service_loop read rs (logger_service_loop_round read receive m)"

definition logger_service_main ::
  "(u8 list \<Rightarrow> log_entry_binary_t) \<Rightarrow> bool \<Rightarrow>
   (u8 list option \<Rightarrow> u64 \<Rightarrow> u32 \<Rightarrow> system_error \<times> u8 list option) list \<Rightarrow> logger_main \<Rightarrow> int + logger_main" where
  "logger_service_main read malloc_ok receives m =
     (case logger_service_init_pubsub malloc_ok m of
        (init_result, m1) \<Rightarrow>
          if error_code init_result \<noteq> ERR_BASE_OK then Inl (-1)
          else Inr (logger_service_loop read receives m1))"

section \<open>Entries in the service format\<close>

lemma svc_errors [simp]: "error_code svc_ok = 0"
  by (simp add: svc_ok_def)

lemma service_entry_of_sel [simp]: "se_level (service_entry_of e) = le_level e"
  by (simp add: service_entry_of_def Let_def)

lemma service_entry_body: "se_body_bytes (service_entry_of e) = entry_body_bytes e"
  by (simp add: service_entry_of_def se_body_bytes_def entry_body_bytes_def Let_def)

lemma service_checksum_eq: "se_checksum (service_entry_of e) = log_calculate_checksum (Some e)"
  by (simp add: service_entry_of_def Let_def logger_service_calculate_checksum_def se_body_bytes_def
      ucast_checksum32 checksum16_eq log_calculate_checksum_eq entry_body_bytes_def)

text \<open>The copy verifies in the service unless its level is out of the service's range.\<close>

lemma service_entry_verifies:
  "logger_service_verify_entry_integrity (Some (service_entry_of e)) \<longleftrightarrow> unat (le_level e) < 6"
  by (simp add: logger_service_verify_entry_integrity_def service_checksum_eq LOGGER_SERVICE_LEVEL_COUNT_def
      logger_service_calculate_checksum_def ucast_checksum32 service_entry_body checksum16_eq
      log_calculate_checksum_eq not_le)

section \<open>A level buffer keeps its first entries\<close>

definition sb_invar :: "logger_service_buffer_t \<Rightarrow> bool" where
  "sb_invar b \<longleftrightarrow> length (sb_entries b) = 100 \<and> sb_buffer_size b = 100 \<and>
     unat (sb_entry_count b) \<le> 100 \<and> unat (sb_write_index b) = unat (sb_entry_count b) mod 100"

definition sb_view :: "logger_service_buffer_t \<Rightarrow> logger_service_entry_t list" where
  "sb_view b = take (unat (sb_entry_count b)) (sb_entries b)"

definition sb_put :: "logger_service_entry_t \<Rightarrow> logger_service_buffer_t \<Rightarrow> logger_service_buffer_t" where
  "sb_put e b = snd (svc_put (Some e) b)"

definition sb_ok :: "logger_service_entry_t \<Rightarrow> bool" where
  "sb_ok e = logger_service_verify_entry_integrity (Some e)"

lemma length_sb_view: "sb_invar b \<Longrightarrow> length (sb_view b) = unat (sb_entry_count b)"
  by (simp add: sb_view_def sb_invar_def)

lemma sb_put_room:
  assumes "sb_invar b" and "sb_ok e" and "unat (sb_entry_count b) < 100"
  shows "sb_invar (sb_put e b)" and "sb_view (sb_put e b) = sb_view b @ [e]"
proof -
  have cnt: "unat (sb_entry_count b + 1) = Suc (unat (sb_entry_count b))"
    using assms by (simp add: unat_inc)
  have put: "sb_put e b = b\<lparr>sb_entries := (sb_entries b)[unat (sb_entry_count b) := e],
      sb_write_index := idx_next (sb_write_index b) 100, sb_entry_count := sb_entry_count b + 1\<rparr>"
    using assms by (simp add: sb_put_def svc_put_def sb_ok_def sb_invar_def word_le_nat_alt)
  show "sb_invar (sb_put e b)"
    using assms cnt by (simp add: put sb_invar_def unat_idx_next mod_Suc_eq)
  show "sb_view (sb_put e b) = sb_view b @ [e]"
    using assms cnt by (simp add: put sb_view_def sb_invar_def take_Suc_conv_app_nth)
qed

lemma sb_put_full:
  assumes "sb_invar b" and "\<not> unat (sb_entry_count b) < 100"
  shows "sb_put e b = b"
  using assms by (simp add: sb_put_def svc_put_def sb_invar_def word_le_nat_alt)

lemma sb_put_bad: "\<not> sb_ok e \<Longrightarrow> sb_put e b = b"
  by (simp add: sb_put_def svc_put_def sb_ok_def)

interpretation sb: rejecting_fifo sb_invar "\<lambda>_. sb_ok" sb_view "\<lambda>_. 100" sb_put
proof (unfold_locales, goal_cases)
  case (2 b)
  then show ?case by (simp add: length_sb_view) (simp add: sb_invar_def)
next
  case (3 b x)
  then show ?case
    using sb_put_room(1) [of b x] sb_put_full [of b x]
    by (cases "unat (sb_entry_count b) < 100") auto
next
  case (6 b x)
  then show ?case
    using sb_put_room(2) [of b x] sb_put_full [of b x]
    by (cases "unat (sb_entry_count b) < 100") (auto simp: length_sb_view)
qed simp_all

section \<open>Receiving entries\<close>

definition zero_service_buffer :: logger_service_buffer_t where
  "zero_service_buffer = \<lparr>sb_entries = replicate 100 zero_service_entry, sb_write_index = 0,
     sb_read_index = 0, sb_entry_count = 0, sb_buffer_size = 0\<rparr>"

definition logger_boot :: logger_state where
  "logger_boot = \<lparr>g_level_buffers = replicate 6 zero_service_buffer, ls_storage_base_address = 0,
     ls_storage_capacity = 0, ls_current_write_offset = 0, ls_last_flush_time = 0,
     ls_storage_available = False, ls_service_running = False, g_last_status = zero_status, ls_clock = 0\<rparr>"

text \<open>A received entry that is stored at level \<open>k\<close>.\<close>

definition accepted_at :: "nat \<Rightarrow> log_entry_binary_t \<Rightarrow> bool" where
  "accepted_at k e \<longleftrightarrow>
     error_code (log_verify_entry_integrity_safe (Some e)) = ERR_BASE_OK \<and> unat (le_level e) = k"

definition receive_entry :: "log_entry_binary_t \<Rightarrow> logger_state \<Rightarrow> logger_state" where
  "receive_entry e s = snd (logger_service_process_message (Some e) 20 s)"

lemma receive_entry_eq:
  "receive_entry e s =
     (if error_code (log_verify_entry_integrity_safe (Some e)) = ERR_BASE_OK
      then store_by_level (service_entry_of e) s else s)"
  by (simp add: receive_entry_def logger_service_process_message_def process_log_entry_pubsub_def Let_def)

lemma receive_entry_buffers:
  assumes "length (g_level_buffers s) = 6" and "k < 6"
  shows "g_level_buffers (receive_entry e s) ! k =
    (if accepted_at k e then sb_put (service_entry_of e) (g_level_buffers s ! k) else g_level_buffers s ! k)"
  using assms
  by (auto simp: receive_entry_eq store_by_level_def Let_def LOGGER_SERVICE_LEVEL_COUNT_def
      accepted_at_def sb_put_def)

lemma receive_entry_fixed [simp]:
  "length (g_level_buffers (receive_entry e s)) = length (g_level_buffers s)"
  "ls_service_running (receive_entry e s) = ls_service_running s"
  "ls_storage_available (receive_entry e s) = ls_storage_available s"
  by (simp_all add: receive_entry_eq store_by_level_def Let_def)

lemma fold_receive_fixed [simp]:
  "length (g_level_buffers (fold receive_entry es s)) = length (g_level_buffers s)"
  "ls_service_running (fold receive_entry es s) = ls_service_running s"
  "ls_storage_available (fold receive_entry es s) = ls_storage_available s"
  by (induction es arbitrary: s) simp_all

lemma fold_receive_buffers:
  assumes "length (g_level_buffers s) = 6" and "k < 6"
  shows "g_level_buffers (fold receive_entry es s) ! k =
    fold sb_put (map service_entry_of (filter (accepted_at k) es)) (g_level_buffers s ! k)"
  using assms
proof (induction es arbitrary: s)
  case Nil
  then show ?case by simp
next
  case (Cons e es)
  then show ?case by (simp add: receive_entry_buffers)
qed

lemma init_state:
  "length (g_level_buffers (snd (logger_service_init logger_boot))) = 6"
  "ls_service_running (snd (logger_service_init logger_boot))"
  "\<not> ls_storage_available (snd (logger_service_init logger_boot))"
  "fst (logger_service_init logger_boot) = svc_ok"
  by (simp_all add: logger_service_init_def logger_boot_def Let_def sys_ipc_register_topic_def
      sys_time_get_us_def)

lemma init_buffers:
  assumes "k < 6"
  shows "sb_invar (g_level_buffers (snd (logger_service_init logger_boot)) ! k)"
    and "sb_view (g_level_buffers (snd (logger_service_init logger_boot)) ! k) = []"
  using assms
  by (simp_all add: logger_service_init_def logger_boot_def Let_def sys_ipc_register_topic_def
      sys_time_get_us_def logger_service_buffer_init_def sb_invar_def sb_view_def
      LOGGER_SERVICE_BUFFER_CAPACITY_def)

lemma received_buffer:
  fixes es :: "log_entry_binary_t list"
  assumes "k < 6"
  defines "b \<equiv> g_level_buffers (fold receive_entry es (snd (logger_service_init logger_boot))) ! k"
  shows "sb_invar b" and "sb_view b = take 100 (map service_entry_of (filter (accepted_at k) es))"
proof -
  let ?b0 = "g_level_buffers (snd (logger_service_init logger_boot)) ! k"
  let ?es = "map service_entry_of (filter (accepted_at k) es)"
  have b: "b = fold sb_put ?es ?b0"
    using assms fold_receive_buffers init_state(1) by simp
  have ok: "list_all sb_ok ?es"
    using assms(1) by (auto simp: list_all_iff sb_ok_def service_entry_verifies accepted_at_def)
  show "sb_invar b"
    unfolding b using sb.invar_fold [OF init_buffers(1) [OF assms(1)] ok] .
  show "sb_view b = take 100 ?es"
    unfolding b using sb.view_fold [OF init_buffers(1) [OF assms(1)] ok] init_buffers(2) [OF assms(1)]
    by simp
qed

text \<open>C26: After initialisation the service keeps, for each of its six levels, exactly the
  first 100 received entries of that level whose checksum is right, converted and in order
  of arrival; later ones, corrupt ones and other levels leave a buffer alone.\<close>

theorem logger_keeps_first_100_per_level:
  "map sb_view (g_level_buffers
      (fold (\<lambda>e s. snd (logger_service_process_message (Some e) 20 s)) es
         (snd (logger_service_init logger_boot)))) =
   map (\<lambda>k. take 100 (map service_entry_of
          (filter (\<lambda>e. error_code (log_verify_entry_integrity_safe (Some e)) = ERR_BASE_OK \<and>
                       unat (le_level e) = k) es))) [0..<6]"
  by (rule nth_equalityI)
     (simp_all add: init_state received_buffer(2) accepted_at_def [abs_def] del: upt_rec_numeral
       flip: receive_entry_def)

section \<open>Status\<close>

lemma total_entries_sum:
  assumes "length bs = 6" and "list_all sb_invar bs"
  shows "unat (foldl (\<lambda>t b. t + sb_entry_count b) 0 bs) = sum_list (map (length \<circ> sb_view) bs)"
proof -
  have eq: "foldl (\<lambda>t b. t + sb_entry_count b) t bs =
        t + word_of_nat (sum_list (map (\<lambda>b. unat (sb_entry_count b)) bs))" for t
    by (induction bs arbitrary: t) (simp_all add: add.assoc)
  have "list_all sb_invar bs \<Longrightarrow> sum_list (map (\<lambda>b. unat (sb_entry_count b)) bs) \<le> 100 * length bs"
    for bs by (induction bs) (auto simp: sb_invar_def)
  then have "sum_list (map (\<lambda>b. unat (sb_entry_count b)) bs) \<le> 600"
    using assms by fastforce
  then have "unat (foldl (\<lambda>t b. t + sb_entry_count b) 0 bs) =
        sum_list (map (\<lambda>b. unat (sb_entry_count b)) bs)"
    by (simp add: eq unat_u16_of_nat)
  moreover have "map (length \<circ> sb_view) bs = map (\<lambda>b. unat (sb_entry_count b)) bs"
    using assms(2) by (simp add: list_all_iff length_sb_view)
  ultimately show ?thesis by (simp only:)
qed

text \<open>The status is exact about what is stored and silent about what is lost: the entry
  count is the sum over the six levels of the entries kept (at most 100 each, no wrap-around
  in 16 bits), while the dropped count is 0 however many entries were refused.\<close>

theorem logger_status_exact:
  "let s = fold (\<lambda>e s. snd (logger_service_process_message (Some e) 20 s)) es
             (snd (logger_service_init logger_boot));
       st = status_now s
   in fst (logger_service_get_status s) = svc_ok \<and>
      snd (logger_service_get_last_status True (snd (logger_service_get_status s))) = Some st \<and>
      unat (sr_entry_count st) = (\<Sum>k\<leftarrow>[0..<6]. min 100 (length (filter
        (\<lambda>e. error_code (log_verify_entry_integrity_safe (Some e)) = ERR_BASE_OK \<and> unat (le_level e) = k) es))) \<and>
      sr_buffer_capacity st = 600 \<and> sr_dropped_count st = 0 \<and> sr_storage_usage st = 0"
proof -
  let ?s = "fold receive_entry es (snd (logger_service_init logger_boot))"
  have "list_all sb_invar (g_level_buffers ?s)"
    by (simp add: list_all_length init_state received_buffer(1))
  then have "unat (total_entries ?s) = sum_list (map (length \<circ> sb_view) (g_level_buffers ?s))"
    by (simp add: total_entries_def total_entries_sum init_state)
  also have "map (length \<circ> sb_view) (g_level_buffers ?s) =
      map (\<lambda>k. min 100 (length (filter (accepted_at k) es))) [0..<6]"
    by (rule nth_equalityI)
       (simp_all add: init_state received_buffer(2) min.commute del: upt_rec_numeral)
  finally have "unat (total_entries ?s) = (\<Sum>k\<leftarrow>[0..<6]. min 100 (length (filter (accepted_at k) es)))" .
  then show ?thesis
    by (simp add: Let_def status_now_def logger_service_get_status_def logger_service_get_last_status_def
        init_state accepted_at_def [abs_def] del: upt_rec_numeral flip: receive_entry_def)
qed

section \<open>The main loop\<close>

lemma receive_with_no_calls: "snd (snd (ipc_subscriber_receive_with receive sub t)) = []"
  by (cases sub) (simp_all add: ipc_subscriber_receive_with_def receive_outcome_zero Let_def split_def)

lemma round_stores_nothing: "lm_state (logger_service_loop_round read receive m) = lm_state m"
  using receive_with_no_calls [of receive "lm_subscriber m" 100]
  by (simp add: logger_service_loop_round_def split_def)

text \<open>The running service never stores anything: however many rounds of its main loop
  run, and whatever the kernel's receive call answers, the state of the service stays as it
  was after initialisation, because the receive never runs the callback.\<close>

theorem logger_loop_stores_nothing:
  "lm_state ((logger_service_loop_round read receive ^^ n) m) = lm_state m"
by (induction n) (simp_all add: round_stores_nothing)

lemma loop_stores_nothing: "lm_state (logger_service_loop read receives m) = lm_state m"
  by (induction receives arbitrary: m) (simp_all add: round_stores_nothing)

text \<open>The whole program: it exits with -1 when the service is already running or the subscriber
  cannot be created, and otherwise runs for ever with the state of \<open>logger_service_init\<close>, whatever
  the kernel delivers.
\<close>

theorem logger_program_outcome:
  "logger_service_main read malloc_ok receives m =
     (if error_code (fst (logger_service_init_pubsub malloc_ok m)) \<noteq> ERR_BASE_OK then Inl (-1)
      else Inr (logger_service_loop read receives (snd (logger_service_init_pubsub malloc_ok m)))) \<and>
   (case logger_service_main read malloc_ok receives m of
      Inl r \<Rightarrow> r = -1
    | Inr m' \<Rightarrow> lm_state m' = snd (logger_service_init (lm_state m)))"
proof -
  obtain err s where i: "logger_service_init (lm_state m) = (err, s)" by (cases "logger_service_init (lm_state m)")
  have "lm_state (snd (logger_service_init_pubsub malloc_ok m)) = s"
    using i by (auto simp: logger_service_init_pubsub_def Let_def split: option.split)
  then show ?thesis
    using i by (simp add: logger_service_main_def split_def loop_stores_nothing split: sum.split)
qed

end
