(* ===== verification/Kernel_Memory.thy ===== *)
theory Kernel_Memory
  imports System_Errors
begin

text \<open>
  The pool allocator of kernel/core/memory.h and memory.c.  A pointer is its distance from
  the start of \<open>g_kernel_heap\<close> (\<open>None\<close> is NULL), and the heap a function from distances to
  bytes.  The bitmap of a pool lies in the heap, at the start of the pool itself, as in the
  source.
\<close>

section \<open>State\<close>

record memory_pool_t =
  mp_base_address :: nat
  mp_block_size :: u64
  mp_block_count :: u16
  mp_free_count :: u16
  mp_free_list :: nat
  mp_allocation_count :: u16
  mp_max_allocation_time_us :: u32

record memory_state =
  g_memory_pools :: "memory_pool_t list"
  g_kernel_heap :: "nat \<Rightarrow> u8"
  g_used_memory :: u64

definition g_total_memory :: u64 where
  "g_total_memory = 1024 * 1024"

definition zero_pool :: memory_pool_t where
  "zero_pool = \<lparr>mp_base_address = 0, mp_block_size = 0, mp_block_count = 0, mp_free_count = 0,
     mp_free_list = 0, mp_allocation_count = 0, mp_max_allocation_time_us = 0\<rparr>"

definition memory_boot :: memory_state where
  "memory_boot = \<lparr>g_memory_pools = replicate 8 zero_pool, g_kernel_heap = (\<lambda>_. 0), g_used_memory = 0\<rparr>"

definition mem_ok :: system_error where
  "mem_ok = system_error_create ERR_BASE_OK ERROR_CATEGORY_SYSTEM ERROR_SEVERITY_LOW MODULE_ID_MEMORY"

text \<open>\<open>memset(p, 0xFF, n)\<close>\<close>

definition fill_ff :: "nat \<Rightarrow> nat \<Rightarrow> (nat \<Rightarrow> u8) \<Rightarrow> nat \<Rightarrow> u8" where
  "fill_ff a n h = (\<lambda>x. if a \<le> x \<and> x < a + n then 0xFF else h x)"

section \<open>One pool\<close>

definition memory_pool_init ::
  "nat \<Rightarrow> u64 \<Rightarrow> u16 \<Rightarrow> memory_state \<Rightarrow> system_error \<times> memory_state" where
  "memory_pool_init k block_size block_count s =
     (if block_size = 0 \<or> block_count = 0 then
        (system_error_create ERR_SAFE_CRITICAL_NULL ERROR_CATEGORY_SAFETY ERROR_SEVERITY_CRITICAL
           MODULE_ID_MEMORY, s)
      else
        let pool_size = block_size * ucast block_count in
        if g_total_memory < g_used_memory s + pool_size then
          (system_error_create ERR_MOD_MEM_OUT_OF_MEMORY ERROR_CATEGORY_MODULE ERROR_SEVERITY_HIGH
             MODULE_ID_MEMORY, s)
        else
          let base = unat (g_used_memory s);
              pool = \<lparr>mp_base_address = base, mp_block_size = block_size,
                      mp_block_count = block_count, mp_free_count = block_count,
                      mp_free_list = base, mp_allocation_count = 0, mp_max_allocation_time_us = 10\<rparr>
          in (mem_ok,
              s\<lparr>g_memory_pools := (g_memory_pools s)[k := pool],
                g_kernel_heap := fill_ff base ((unat block_count + 7) div 8) (g_kernel_heap s),
                g_used_memory := g_used_memory s + pool_size\<rparr>))"

text \<open>The byte of the bitmap that holds bit \<open>i\<close>: \<open>byte_index\<close> has 8 bits.\<close>

definition bitmap_byte :: "memory_pool_t \<Rightarrow> nat \<Rightarrow> nat" where
  "bitmap_byte p i = mp_free_list p + (i div 8) mod 256"

definition block_free :: "memory_pool_t \<Rightarrow> (nat \<Rightarrow> u8) \<Rightarrow> nat \<Rightarrow> bool" where
  "block_free p h i = bit (h (bitmap_byte p i)) (i mod 8)"

text \<open>The search loop finds the first block whose bit is set.\<close>

definition memory_pool_alloc :: "nat \<Rightarrow> memory_state \<Rightarrow> nat option \<times> memory_state" where
  "memory_pool_alloc k s =
     (let p = g_memory_pools s ! k; h = g_kernel_heap s in
      if mp_free_count p = 0 then (None, s)
      else
        (case find (block_free p h) [0..<unat (mp_block_count p)] of
           None \<Rightarrow> (None, s)
         | Some i \<Rightarrow>
             (Some (mp_base_address p + i * unat (mp_block_size p)),
              s\<lparr>g_kernel_heap :=
                  h(bitmap_byte p i := and (h (bitmap_byte p i)) (not (push_bit (i mod 8) 1))),
                g_memory_pools :=
                  (g_memory_pools s)[k := p\<lparr>mp_free_count := mp_free_count p - 1,
                                           mp_allocation_count := mp_allocation_count p + 1\<rparr>]\<rparr>)))"

definition memory_pool_free :: "nat \<Rightarrow> nat \<Rightarrow> memory_state \<Rightarrow> memory_state" where
  "memory_pool_free k ptr s =
     (let p = g_memory_pools s ! k; h = g_kernel_heap s;
          block_index = (word_of_nat ((ptr - mp_base_address p) div unat (mp_block_size p)) :: u16)
      in if block_index < mp_block_count p then
           let i = unat block_index in
           s\<lparr>g_kernel_heap :=
               h(bitmap_byte p i := or (h (bitmap_byte p i)) (push_bit (i mod 8) 1)),
             g_memory_pools :=
               (g_memory_pools s)[k := p\<lparr>mp_free_count := mp_free_count p + 1,
                                        mp_allocation_count := mp_allocation_count p - 1\<rparr>]\<rparr>
         else s)"

section \<open>The allocator\<close>

text \<open>The eight initialisations, each tried only if the one before succeeded.\<close>

fun init_pools :: "(nat \<times> u64 \<times> u16) list \<Rightarrow> memory_state \<Rightarrow> system_error \<times> memory_state" where
  "init_pools [] s = (mem_ok, s)"
| "init_pools ((k, sz, n) # rest) s =
     (case memory_pool_init k sz n s of
        (err, s') \<Rightarrow> if error_code err \<noteq> ERR_BASE_OK then (err, s') else init_pools rest s')"

definition memory_init :: "memory_state \<Rightarrow> system_error \<times> memory_state" where
  "memory_init s =
     init_pools [(0, 32, 64), (1, 64, 32), (2, 128, 16), (3, 256, 8), (4, 512, 4), (5, 1024, 2),
                 (6, 2048, 1), (7, 4096, 1)] s"

fun alloc_loop :: "nat list \<Rightarrow> u64 \<Rightarrow> memory_state \<Rightarrow> nat option \<times> memory_state" where
  "alloc_loop [] sz s = (None, s)"
| "alloc_loop (k # ks) sz s =
     (if sz \<le> mp_block_size (g_memory_pools s ! k) then
        (case memory_pool_alloc k s of
           (Some ptr, s') \<Rightarrow> (Some ptr, s')
         | (None, s') \<Rightarrow> alloc_loop ks sz s')
      else alloc_loop ks sz s)"

definition memory_alloc :: "u64 \<Rightarrow> memory_state \<Rightarrow> nat option \<times> memory_state" where
  "memory_alloc sz s = (if sz = 0 then (None, s) else alloc_loop [0..<8] sz s)"

definition in_pool :: "memory_pool_t \<Rightarrow> nat \<Rightarrow> bool" where
  "in_pool p ptr \<longleftrightarrow>
     mp_base_address p \<le> ptr \<and>
     ptr < mp_base_address p + unat (mp_block_size p * ucast (mp_block_count p))"

fun free_loop :: "nat list \<Rightarrow> nat \<Rightarrow> memory_state \<Rightarrow> memory_state" where
  "free_loop [] ptr s = s"
| "free_loop (k # ks) ptr s =
     (if in_pool (g_memory_pools s ! k) ptr then memory_pool_free k ptr s else free_loop ks ptr s)"

definition memory_free :: "nat option \<Rightarrow> memory_state \<Rightarrow> memory_state" where
  "memory_free ptr s = (case ptr of None \<Rightarrow> s | Some p \<Rightarrow> free_loop [0..<8] p s)"

definition memory_validate_user_pointer :: "nat option \<Rightarrow> u64 \<Rightarrow> nat option" where
  "memory_validate_user_pointer ptr sz = ptr"

definition memory_validate_user_string :: "string option \<Rightarrow> u64 \<Rightarrow> string option" where
  "memory_validate_user_string str max_len = str"

definition memory_get_free_size :: "memory_state \<Rightarrow> u64" where
  "memory_get_free_size s = g_total_memory - g_used_memory s"

definition memory_get_used_size :: "memory_state \<Rightarrow> u64" where
  "memory_get_used_size s = g_used_memory s"

definition memory_get_total_size :: "memory_state \<Rightarrow> u64" where
  "memory_get_total_size s = g_total_memory"

section \<open>Layout and invariant\<close>

text \<open>Start, block size and number of blocks of the eight pools.\<close>

definition pool_layout :: "(nat \<times> nat \<times> nat) list" where
  "pool_layout = [(0, 32, 64), (2048, 64, 32), (4096, 128, 16), (6144, 256, 8), (8192, 512, 4),
                  (10240, 1024, 2), (12288, 2048, 1), (14336, 4096, 1)]"

definition pool_shape :: "memory_pool_t \<Rightarrow> nat \<times> nat \<times> nat" where
  "pool_shape p = (mp_base_address p, unat (mp_block_size p), unat (mp_block_count p))"

definition free_blocks :: "memory_state \<Rightarrow> nat \<Rightarrow> nat set" where
  "free_blocks s k =
     {i. i < unat (mp_block_count (g_memory_pools s ! k)) \<and>
         block_free (g_memory_pools s ! k) (g_kernel_heap s) i}"

definition pool_counts_ok :: "memory_state \<Rightarrow> nat \<Rightarrow> bool" where
  "pool_counts_ok s k \<longleftrightarrow>
     (let p = g_memory_pools s ! k in
      mp_free_list p = mp_base_address p \<and>
      unat (mp_free_count p) = card (free_blocks s k) \<and>
      unat (mp_allocation_count p) + unat (mp_free_count p) = unat (mp_block_count p))"

definition mem_invar :: "memory_state \<Rightarrow> bool" where
  "mem_invar s \<longleftrightarrow> map pool_shape (g_memory_pools s) = pool_layout \<and> (\<forall>k < 8. pool_counts_ok s k)"

text \<open>The block \<open>i\<close> of pool \<open>k\<close>: its first address and its size.\<close>

definition block_start :: "nat \<Rightarrow> nat \<Rightarrow> nat" where
  "block_start k i = fst (pool_layout ! k) + i * fst (snd (pool_layout ! k))"

definition block_len :: "nat \<Rightarrow> nat" where
  "block_len k = fst (snd (pool_layout ! k))"

definition pool_blocks :: "nat \<Rightarrow> nat" where
  "pool_blocks k = snd (snd (pool_layout ! k))"

lemma less_8_cases: "k < (8::nat) \<Longrightarrow> k = 0 \<or> k = 1 \<or> k = 2 \<or> k = 3 \<or> k = 4 \<or> k = 5 \<or> k = 6 \<or> k = 7"
  by auto

lemma layout_facts:
  assumes "k < 8"
  shows "0 < block_len k" "block_len k \<le> 4096" "0 < pool_blocks k" "pool_blocks k \<le> 64"
    "2048 \<le> block_len k * pool_blocks k" "block_start k 0 + block_len k * pool_blocks k \<le> 18432"
  using less_8_cases [OF assms] by (auto simp: block_len_def pool_blocks_def block_start_def pool_layout_def)

lemma layout_disjoint:
  assumes "j < k" and "k < 8"
  shows "block_start j 0 + block_len j * pool_blocks j \<le> block_start k 0"
  using less_8_cases [OF assms(2)] assms(1) less_8_cases [of j]
  by (auto simp: block_len_def pool_blocks_def block_start_def pool_layout_def)

lemma invar_pool:
  assumes "mem_invar s" and "k < 8"
  shows "mp_base_address (g_memory_pools s ! k) = block_start k 0"
    and "unat (mp_block_size (g_memory_pools s ! k)) = block_len k"
    and "unat (mp_block_count (g_memory_pools s ! k)) = pool_blocks k"
    and "mp_free_list (g_memory_pools s ! k) = block_start k 0"
    and "unat (mp_free_count (g_memory_pools s ! k)) = card (free_blocks s k)"
    and "unat (mp_allocation_count (g_memory_pools s ! k)) + unat (mp_free_count (g_memory_pools s ! k)) = pool_blocks k"
    and "length (g_memory_pools s) = 8"
proof -
  have shape: "map pool_shape (g_memory_pools s) = pool_layout"
    using assms(1) by (simp add: mem_invar_def)
  then show len: "length (g_memory_pools s) = 8"
    using length_map [of pool_shape "g_memory_pools s"] by (simp add: pool_layout_def)
  have "pool_layout ! k = pool_shape (g_memory_pools s ! k)"
    using shape len assms(2) by (metis nth_map)
  then show b: "mp_base_address (g_memory_pools s ! k) = block_start k 0"
    and "unat (mp_block_size (g_memory_pools s ! k)) = block_len k"
    and c: "unat (mp_block_count (g_memory_pools s ! k)) = pool_blocks k"
    by (auto simp: pool_shape_def block_start_def block_len_def pool_blocks_def)
  have "pool_counts_ok s k"
    using assms by (simp add: mem_invar_def)
  then show "mp_free_list (g_memory_pools s ! k) = block_start k 0"
    and "unat (mp_free_count (g_memory_pools s ! k)) = card (free_blocks s k)"
    and "unat (mp_allocation_count (g_memory_pools s ! k)) + unat (mp_free_count (g_memory_pools s ! k)) = pool_blocks k"
    using b c by (simp_all add: pool_counts_ok_def Let_def)
qed

section \<open>Bits of the bitmap\<close>

lemma bit_cleared: "m < 8 \<Longrightarrow> n < 8 \<Longrightarrow> bit (and (w :: u8) (not (2 ^ n))) m \<longleftrightarrow> bit w m \<and> m \<noteq> n"
  by (auto simp: bit_simps simp flip: push_bit_of_1)

lemma bit_added: "m < 8 \<Longrightarrow> n < 8 \<Longrightarrow> bit (or (w :: u8) (2 ^ n)) m \<longleftrightarrow> bit w m \<or> m = n"
  by (auto simp: bit_simps simp flip: push_bit_of_1)

lemma clear_then_set:
  assumes "bit (w :: u8) n"
  shows "or (and w (not (push_bit n 1))) (push_bit n 1) = w"
proof (rule bit_word_eqI)
  fix m assume "m < LENGTH(8)"
  then show "bit (or (and w (not (push_bit n 1))) (push_bit n 1)) m = bit w m"
    using assms by (auto simp: bit_simps)
qed

lemma bitmap_byte_eq:
  assumes "mem_invar s" and "k < 8" and "i < pool_blocks k"
  shows "bitmap_byte (g_memory_pools s ! k) i = block_start k 0 + i div 8"
  using assms layout_facts(4) [of k] by (simp add: bitmap_byte_def invar_pool)

lemma bitmap_bytes_distinct:
  assumes "mem_invar s" and "j < 8" "i < pool_blocks j" and "k < 8" "m < pool_blocks k" and "j \<noteq> k"
  shows "bitmap_byte (g_memory_pools s ! j) i \<noteq> bitmap_byte (g_memory_pools s ! k) m"
proof -
  have "i div 8 < 8" "m div 8 < 8"
    using assms layout_facts(4) [of j] layout_facts(4) [of k] by auto
  moreover have "block_start j 0 + 2048 \<le> block_start k 0 \<or> block_start k 0 + 2048 \<le> block_start j 0"
    using assms layout_disjoint [of j k] layout_disjoint [of k j] layout_facts(5) [of j]
      layout_facts(5) [of k] by linarith
  ultimately show ?thesis
    using assms by (simp add: bitmap_byte_eq) linarith
qed

text \<open>The effect of writing one byte of the bitmap of pool \<open>k\<close>.\<close>

lemma free_blocks_update:
  fixes v :: u8
  assumes inv: "mem_invar s" and k: "k < 8" and i: "i < pool_blocks k" and j: "j < 8"
    and p: "p = g_memory_pools s ! k" and p': "pool_shape p' = pool_shape p" "mp_free_list p' = mp_free_list p"
  defines "s' \<equiv> s\<lparr>g_kernel_heap := (g_kernel_heap s)(bitmap_byte p i := v),
                  g_memory_pools := (g_memory_pools s)[k := p']\<rparr>"
  shows "free_blocks s' j =
    (if j = k then {m. m < pool_blocks k \<and> (if m div 8 = i div 8 then bit v (m mod 8) else m \<in> free_blocks s k)}
     else free_blocks s j)"
proof (cases "j = k")
  case True
  have "bitmap_byte p' m = bitmap_byte p m" for m
    using p' by (simp add: bitmap_byte_def)
  moreover have "bitmap_byte p m = bitmap_byte p i \<longleftrightarrow> m div 8 = i div 8" if "m < pool_blocks k" for m
    using that i k inv p by (simp add: bitmap_byte_eq)
  moreover have "unat (mp_block_count p') = pool_blocks k" "unat (mp_block_count p) = pool_blocks k"
    using p p' invar_pool [OF inv k] by (simp_all add: pool_shape_def)
  ultimately show ?thesis
    using True k invar_pool(7) [OF inv k] p
    by (auto simp: s'_def free_blocks_def block_free_def)
next
  case False
  have "bitmap_byte (g_memory_pools s ! j) m \<noteq> bitmap_byte p i" if "m < pool_blocks j" for m
    using bitmap_bytes_distinct [OF inv j that k i False] p by simp
  then show ?thesis
    using False invar_pool(3) [OF inv j] by (auto simp: s'_def free_blocks_def block_free_def)
qed

lemma eq_div_mod_8: "(m::nat) div 8 = i div 8 \<Longrightarrow> m mod 8 = i mod 8 \<longleftrightarrow> m = i"
  by (metis div_mult_mod_eq)

section \<open>Allocation from one pool\<close>

lemma card_free_le: "mem_invar s \<Longrightarrow> k < 8 \<Longrightarrow> card (free_blocks s k) \<le> pool_blocks k"
  using invar_pool(6,5) [of s k] by linarith

lemma finite_free_blocks [simp]: "finite (free_blocks s k)"
  by (simp add: free_blocks_def)

lemma find_free_block:
  "find (block_free (g_memory_pools s ! k) (g_kernel_heap s))
     [0..<unat (mp_block_count (g_memory_pools s ! k))] =
   (if free_blocks s k = {} then None else Some (LEAST i. i \<in> free_blocks s k))"
  unfolding free_blocks_def by (rule find_upt_set)

definition taken :: "nat \<Rightarrow> nat \<Rightarrow> memory_state \<Rightarrow> memory_state" where
  "taken k i s =
     (let p = g_memory_pools s ! k; h = g_kernel_heap s in
      s\<lparr>g_kernel_heap := h(bitmap_byte p i := and (h (bitmap_byte p i)) (not (push_bit (i mod 8) 1))),
        g_memory_pools := (g_memory_pools s)[k := p\<lparr>mp_free_count := mp_free_count p - 1,
                                                   mp_allocation_count := mp_allocation_count p + 1\<rparr>]\<rparr>)"

lemma pool_alloc_eq:
  assumes "mem_invar s" and "k < 8"
  shows "memory_pool_alloc k s =
    (if free_blocks s k = {} then (None, s)
     else let i = LEAST i. i \<in> free_blocks s k in (Some (block_start k i), taken k i s))"
proof (cases "free_blocks s k = {}")
  case True
  then have "unat (mp_free_count (g_memory_pools s ! k)) = 0"
    using invar_pool(5) [OF assms] by simp
  then show ?thesis
    using True by (simp add: memory_pool_alloc_def Let_def word_unat_eq_iff)
next
  case False
  then have "unat (mp_free_count (g_memory_pools s ! k)) \<noteq> 0"
    using invar_pool(5) [OF assms] by simp
  then have "mp_free_count (g_memory_pools s ! k) \<noteq> 0" by auto
  then show ?thesis
    using False find_free_block [of s k] invar_pool [OF assms]
    by (simp add: memory_pool_alloc_def Let_def taken_def block_start_def block_len_def)
qed

lemma taken_free_blocks:
  assumes inv: "mem_invar s" and k: "k < 8" and i: "i \<in> free_blocks s k" and j: "j < 8"
  shows "free_blocks (taken k i s) j = (if j = k then free_blocks s k - {i} else free_blocks s j)"
proof -
  let ?p = "g_memory_pools s ! k" and ?w = "g_kernel_heap s (bitmap_byte (g_memory_pools s ! k) i)"
  have i': "i < pool_blocks k"
    using i invar_pool(3) [OF inv k] by (simp add: free_blocks_def)
  have same: "m \<in> free_blocks s k \<longleftrightarrow> bit ?w (m mod 8)" if "m < pool_blocks k" "m div 8 = i div 8" for m
    using that i' invar_pool(3) [OF inv k] bitmap_byte_eq [OF inv k]
    by (simp add: free_blocks_def block_free_def)
  have sub: "m < pool_blocks k" if "m \<in> free_blocks s k" for m
    using that invar_pool(3) [OF inv k] by (simp add: free_blocks_def)
  have "free_blocks (taken k i s) j =
    (if j = k then {m. m < pool_blocks k \<and> (if m div 8 = i div 8
        then bit (and ?w (not (push_bit (i mod 8) 1))) (m mod 8) else m \<in> free_blocks s k)}
     else free_blocks s j)"
    unfolding taken_def Let_def
    by (rule free_blocks_update [OF inv k i' j refl]) (simp_all add: pool_shape_def)
  also have "\<dots> = (if j = k then free_blocks s k - {i} else free_blocks s j)"
    using same sub eq_div_mod_8 [of _ i] by (auto simp: bit_cleared split: if_splits)
  finally show ?thesis .
qed

lemma taken_invar:
  assumes inv: "mem_invar s" and k: "k < 8" and i: "i \<in> free_blocks s k"
  shows "mem_invar (taken k i s)"
proof -
  let ?p = "g_memory_pools s ! k"
  have pos: "0 < card (free_blocks s k)"
    using i by (auto simp: card_gt_0_iff)
  have counts: "unat (mp_free_count ?p - 1) = card (free_blocks s k) - 1"
    "unat (mp_allocation_count ?p + 1) = Suc (unat (mp_allocation_count ?p))"
    using invar_pool(5,6) [OF inv k] pos layout_facts(4) [OF k] by (simp_all add: unat_dec unat_inc)
  have "pool_counts_ok (taken k i s) j" if j: "j < 8" for j
    using invar_pool [OF inv j] invar_pool [OF inv k] taken_free_blocks [OF inv k i j] counts pos i j
    by (cases "j = k") (simp_all add: pool_counts_ok_def Let_def taken_def)
  moreover have "map pool_shape (g_memory_pools (taken k i s)) = pool_layout"
    using inv invar_pool(7) [OF inv k] k
    by (simp add: mem_invar_def taken_def Let_def map_update pool_shape_def)
       (metis list_update_id nth_map pool_shape_def)
  ultimately show ?thesis by (simp add: mem_invar_def)
qed

section \<open>The allocator picks the smallest pool that fits and has room\<close>

definition fits :: "u64 \<Rightarrow> memory_state \<Rightarrow> nat \<Rightarrow> bool" where
  "fits sz s k \<longleftrightarrow> unat sz \<le> block_len k \<and> free_blocks s k \<noteq> {}"

lemma alloc_loop_find:
  assumes "mem_invar s" and "\<forall>k \<in> set ks. k < 8"
  shows "alloc_loop ks sz s =
    (case find (fits sz s) ks of
       None \<Rightarrow> (None, s)
     | Some k \<Rightarrow> let i = LEAST i. i \<in> free_blocks s k in (Some (block_start k i), taken k i s))"
  using assms
  by (induction ks)
     (auto simp: fits_def word_le_nat_alt invar_pool pool_alloc_eq Let_def)

lemma memory_alloc_cases:
  assumes "mem_invar s" and "memory_alloc sz s = (r, s')"
  obtains (refused) "r = None" "s' = s" "sz = 0 \<or> (\<forall>k < 8. \<not> fits sz s k)"
  | (granted) k i where "r = Some (block_start k i)" "s' = taken k i s" "k < 8" "i \<in> free_blocks s k"
      "unat sz \<le> block_len k" "sz \<noteq> 0" "\<forall>j < k. \<not> fits sz s j" "\<forall>m < i. m \<notin> free_blocks s k"
proof (cases "sz = 0")
  case True
  then show ?thesis using assms(2) refused by (simp add: memory_alloc_def)
next
  case False
  have loop: "alloc_loop [0..<8] sz s = (r, s')"
    using assms(2) False by (simp add: memory_alloc_def)
  show ?thesis
  proof (cases "find (fits sz s) [0..<8]")
    case None
    then have "\<forall>k < 8. \<not> fits sz s k"
      by (auto simp: find_None_iff)
    then show ?thesis
      using loop None alloc_loop_find [OF assms(1), of "[0..<8]" sz] refused by simp
  next
    case (Some k)
    then have k: "k < 8" "fits sz s k" "\<forall>j < k. \<not> fits sz s j"
      by (simp_all add: find_upt_Some del: upt_rec_numeral)
    let ?i = "LEAST i. i \<in> free_blocks s k"
    have "?i \<in> free_blocks s k"
      using k(2) by (metis LeastI_ex ex_in_conv fits_def)
    moreover have "\<forall>m < ?i. m \<notin> free_blocks s k"
      using not_less_Least by blast
    moreover have "(r, s') = (Some (block_start k ?i), taken k ?i s)"
    proof -
      have "\<forall>k \<in> set [0..<8]. k < 8" by simp
      from alloc_loop_find [OF assms(1) this, of sz] show ?thesis
        unfolding loop Some by (simp only: option.case Let_def)
    qed
    moreover have "unat sz \<le> block_len k"
      using k(2) by (simp add: fits_def)
    ultimately show ?thesis
      using granted [of k ?i] k False by blast
  qed
qed

text \<open>Different blocks do not overlap, and all lie in the first 18432 bytes.\<close>

lemma block_bounds:
  assumes "k < 8" and "i < pool_blocks k"
  shows "block_start k 0 \<le> block_start k i"
    and "block_start k i + block_len k \<le> block_start k 0 + block_len k * pool_blocks k"
proof -
  show "block_start k 0 \<le> block_start k i" by (simp add: block_start_def)
  have "Suc i * block_len k \<le> pool_blocks k * block_len k"
    using assms by (intro mult_le_mono1) simp
  then show "block_start k i + block_len k \<le> block_start k 0 + block_len k * pool_blocks k"
    by (simp add: block_start_def block_len_def mult.commute)
qed

lemma blocks_disjoint:
  assumes "k < 8" "i < pool_blocks k" "j < 8" "m < pool_blocks j" "(k, i) \<noteq> (j, m)"
  shows "block_start k i + block_len k \<le> block_start j m \<or> block_start j m + block_len j \<le> block_start k i"
proof (cases "k = j")
  case True
  have step: "block_start k a + block_len k \<le> block_start k b" if "a < b" for a b
    using that mult_le_mono1 [of "Suc a" b "block_len k"] by (simp add: block_start_def block_len_def)
  then show ?thesis
    using True assms(5) step [of i m] step [of m i] by (cases i m rule: linorder_cases) auto
next
  case False
  then show ?thesis
    using block_bounds [OF assms(1,2)] block_bounds [OF assms(3,4)] layout_disjoint [of k j]
      layout_disjoint [of j k] assms by linarith
qed

lemma free_block_bound: "mem_invar s \<Longrightarrow> k < 8 \<Longrightarrow> i \<in> free_blocks s k \<Longrightarrow> i < pool_blocks k"
  by (simp add: free_blocks_def invar_pool)

section \<open>Freeing\<close>

definition given :: "nat \<Rightarrow> nat \<Rightarrow> memory_state \<Rightarrow> memory_state" where
  "given k i s =
     (let p = g_memory_pools s ! k; h = g_kernel_heap s in
      s\<lparr>g_kernel_heap := h(bitmap_byte p i := or (h (bitmap_byte p i)) (push_bit (i mod 8) 1)),
        g_memory_pools := (g_memory_pools s)[k := p\<lparr>mp_free_count := mp_free_count p + 1,
                                                   mp_allocation_count := mp_allocation_count p - 1\<rparr>]\<rparr>)"

text \<open>The part of the invariant that does not depend on the bitmap.\<close>

definition mem_layout :: "memory_state \<Rightarrow> bool" where
  "mem_layout s \<longleftrightarrow> map pool_shape (g_memory_pools s) = pool_layout"

lemma layout_pool:
  assumes "mem_layout s" and "k < 8"
  shows "mp_base_address (g_memory_pools s ! k) = block_start k 0"
    and "unat (mp_block_size (g_memory_pools s ! k)) = block_len k"
    and "unat (mp_block_count (g_memory_pools s ! k)) = pool_blocks k"
    and "length (g_memory_pools s) = 8"
proof -
  show len: "length (g_memory_pools s) = 8"
    using assms(1) length_map [of pool_shape "g_memory_pools s"] by (simp add: mem_layout_def pool_layout_def)
  have "pool_layout ! k = pool_shape (g_memory_pools s ! k)"
    using assms len unfolding mem_layout_def by (metis nth_map)
  then show "mp_base_address (g_memory_pools s ! k) = block_start k 0"
    and "unat (mp_block_size (g_memory_pools s ! k)) = block_len k"
    and "unat (mp_block_count (g_memory_pools s ! k)) = pool_blocks k"
    by (auto simp: pool_shape_def block_start_def block_len_def pool_blocks_def)
qed

lemma invar_layout: "mem_invar s \<Longrightarrow> mem_layout s"
  by (simp add: mem_invar_def mem_layout_def)

lemma in_pool_iff:
  assumes "mem_layout s" and "k < 8"
  shows "in_pool (g_memory_pools s ! k) ptr \<longleftrightarrow>
    block_start k 0 \<le> ptr \<and> ptr < block_start k 0 + block_len k * pool_blocks k"
proof -
  have "unat (ucast (mp_block_count (g_memory_pools s ! k)) :: u64) = pool_blocks k"
    using layout_pool(3) [OF assms] unat_lt_u16 [of "mp_block_count (g_memory_pools s ! k)"]
    by (simp add: unsigned_ucast_eq take_bit_eq_mod)
  moreover have "block_len k * pool_blocks k \<le> 18432"
    using layout_facts(6) [OF assms(2)] by linarith
  ultimately show ?thesis
    using layout_pool [OF assms] by (simp add: in_pool_def unat_word_ariths)
qed

lemma free_loop_find:
  "free_loop ks ptr s =
    (case find (\<lambda>k. in_pool (g_memory_pools s ! k) ptr) ks of None \<Rightarrow> s | Some k \<Rightarrow> memory_pool_free k ptr s)"
  by (induction ks) auto

lemma find_pool_of_block:
  assumes "mem_layout s" and "k < 8" and "i < pool_blocks k"
  shows "find (\<lambda>j. in_pool (g_memory_pools s ! j) (block_start k i)) [0..<8] = Some k"
proof -
  have b: "block_start k 0 \<le> block_start k i" "block_start k i < block_start k 0 + block_len k * pool_blocks k"
    using block_bounds [OF assms(2,3)] layout_facts(1) [OF assms(2)] by linarith+
  have "\<not> in_pool (g_memory_pools s ! j) (block_start k i)" if "j < k" for j
  proof -
    have "block_start j 0 + block_len j * pool_blocks j \<le> block_start k i"
      using layout_disjoint [OF that assms(2)] b by linarith
    then show ?thesis
      using in_pool_iff [OF assms(1), of j] that assms(2) by simp
  qed
  then show ?thesis
    using b assms in_pool_iff [OF assms(1,2)] by (simp add: find_upt_Some del: upt_rec_numeral)
qed

lemma memory_free_block:
  assumes "mem_layout s" and "k < 8" and "i < pool_blocks k"
  shows "memory_free (Some (block_start k i)) s = given k i s"
proof -
  have "(block_start k i - block_start k 0) div block_len k = i"
    using layout_facts(1) [OF assms(2)] by (simp add: block_start_def block_len_def)
  moreover have "unat (word_of_nat i :: u16) = i"
    using assms(3) layout_facts(4) [OF assms(2)] by (intro unat_u16_of_nat) linarith
  ultimately have "memory_pool_free k (block_start k i) s = given k i s"
    using layout_pool [OF assms(1,2)] assms(3)
    by (simp add: memory_pool_free_def given_def Let_def word_less_nat_alt)
  then show ?thesis
    using find_pool_of_block [OF assms]
    by (simp add: memory_free_def free_loop_find del: upt_rec_numeral)
qed

lemma given_taken:
  assumes inv: "mem_invar s" and k: "k < 8" and i: "i \<in> free_blocks s k"
  shows "given k i (taken k i s) = s"
proof -
  let ?p = "g_memory_pools s ! k"
  have "bit (g_kernel_heap s (bitmap_byte ?p i)) (i mod 8)"
    using i by (simp add: free_blocks_def block_free_def)
  then have "or (and (g_kernel_heap s (bitmap_byte ?p i)) (not (push_bit (i mod 8) 1))) (push_bit (i mod 8) 1) =
      g_kernel_heap s (bitmap_byte ?p i)"
    by (rule clear_then_set)
  moreover have "bitmap_byte (?p\<lparr>mp_free_count := a, mp_allocation_count := b\<rparr>) i = bitmap_byte ?p i" for a b
    by (simp add: bitmap_byte_def)
  moreover have "?p\<lparr>mp_free_count := mp_free_count ?p - 1 + 1, mp_allocation_count := mp_allocation_count ?p + 1 - 1\<rparr> = ?p"
    by simp
  ultimately show ?thesis
    using k invar_pool(7) [OF inv k]
    by (simp add: given_def taken_def Let_def del: push_bit_of_1)
qed

lemma given_free_blocks:
  assumes inv: "mem_invar s" and k: "k < 8" and i: "i < pool_blocks k" and j: "j < 8"
  shows "free_blocks (given k i s) j = (if j = k then insert i (free_blocks s k) else free_blocks s j)"
proof -
  let ?p = "g_memory_pools s ! k" and ?w = "g_kernel_heap s (bitmap_byte (g_memory_pools s ! k) i)"
  have same: "m \<in> free_blocks s k \<longleftrightarrow> bit ?w (m mod 8)" if "m < pool_blocks k" "m div 8 = i div 8" for m
    using that i invar_pool(3) [OF inv k] bitmap_byte_eq [OF inv k]
    by (simp add: free_blocks_def block_free_def)
  have sub: "m < pool_blocks k" if "m \<in> free_blocks s k" for m
    using that invar_pool(3) [OF inv k] by (simp add: free_blocks_def)
  have "free_blocks (given k i s) j =
    (if j = k then {m. m < pool_blocks k \<and> (if m div 8 = i div 8
        then bit (or ?w (push_bit (i mod 8) 1)) (m mod 8) else m \<in> free_blocks s k)}
     else free_blocks s j)"
    unfolding given_def Let_def
    by (rule free_blocks_update [OF inv k i j refl]) (simp_all add: pool_shape_def)
  also have "\<dots> = (if j = k then insert i (free_blocks s k) else free_blocks s j)"
    using same sub i eq_div_mod_8 [of _ i] by (auto simp: bit_added split: if_splits)
  finally show ?thesis .
qed

section \<open>Initialisation\<close>

definition fresh_pool :: "nat \<times> nat \<times> nat \<Rightarrow> memory_pool_t" where
  "fresh_pool l =
     (case l of (base, sz, n) \<Rightarrow>
        \<lparr>mp_base_address = base, mp_block_size = word_of_nat sz, mp_block_count = word_of_nat n,
         mp_free_count = word_of_nat n, mp_free_list = base, mp_allocation_count = 0,
         mp_max_allocation_time_us = 10\<rparr>)"

lemma memory_init_state:
  "memory_init memory_boot =
     (mem_ok, \<lparr>g_memory_pools = map fresh_pool pool_layout,
        g_kernel_heap = fill_ff 14336 1 (fill_ff 12288 1 (fill_ff 10240 1 (fill_ff 8192 1 (fill_ff 6144 1
          (fill_ff 4096 2 (fill_ff 2048 4 (fill_ff 0 8 (\<lambda>_. 0)))))))),
        g_used_memory = 18432\<rparr>)"
proof -
  have "replicate 8 zero_pool = [zero_pool, zero_pool, zero_pool, zero_pool, zero_pool, zero_pool, zero_pool, zero_pool]"
    by (simp add: numeral_nat)
  then show ?thesis
    by (simp add: memory_init_def memory_pool_init_def memory_boot_def mem_ok_def g_total_memory_def
        Let_def fresh_pool_def pool_layout_def)
qed

abbreviation memory_ready :: memory_state where
  "memory_ready \<equiv> snd (memory_init memory_boot)"

lemma bit_ff: "m < 8 \<Longrightarrow> bit (0xFF :: u8) m"
  using less_8_cases [of m] by auto

lemma ready_heap:
  assumes "k < 8" and "i < pool_blocks k"
  shows "g_kernel_heap memory_ready (block_start k 0 + i div 8) = 0xFF"
  using less_8_cases [OF assms(1)] assms(2)
  by (elim disjE) (auto simp: memory_init_state fill_ff_def block_start_def pool_blocks_def pool_layout_def)

lemma nth_fresh_pool:
  assumes "k < 8"
  shows "g_memory_pools memory_ready ! k = fresh_pool (block_start k 0, block_len k, pool_blocks k)"
proof -
  have "k < length pool_layout" using assms by (simp add: pool_layout_def)
  then show ?thesis
    by (simp add: memory_init_state block_start_def block_len_def pool_blocks_def)
qed

lemma unat_fresh_pool:
  assumes "k < 8"
  shows "unat (mp_block_size (fresh_pool (b, block_len k, pool_blocks k))) = block_len k"
    and "unat (mp_block_count (fresh_pool (b, block_len k, pool_blocks k))) = pool_blocks k"
proof -
  show "unat (mp_block_size (fresh_pool (b, block_len k, pool_blocks k))) = block_len k"
    using layout_facts(2) [OF assms] by (simp add: fresh_pool_def unat_of_nat)
  show "unat (mp_block_count (fresh_pool (b, block_len k, pool_blocks k))) = pool_blocks k"
    using layout_facts(4) [OF assms] by (simp add: fresh_pool_def unat_of_nat)
qed

lemma ready_free_blocks:
  assumes "k < 8"
  shows "free_blocks memory_ready k = {..<pool_blocks k}"
proof -
  have "block_free (g_memory_pools memory_ready ! k) (g_kernel_heap memory_ready) i" if "i < pool_blocks k" for i
  proof -
    have "i div 8 mod 256 = i div 8"
      using that layout_facts(4) [OF assms] by simp
    then show ?thesis
      using ready_heap [OF assms that] bit_ff [of "i mod 8"]
      by (simp add: block_free_def bitmap_byte_def nth_fresh_pool assms fresh_pool_def)
  qed
  then show ?thesis
    by (auto simp: free_blocks_def nth_fresh_pool assms unat_fresh_pool)
qed

lemma ready_invar: "mem_invar memory_ready"
proof -
  have "map pool_shape (g_memory_pools memory_ready) = pool_layout"
    by (simp add: memory_init_state fresh_pool_def pool_shape_def pool_layout_def)
  moreover have "pool_counts_ok memory_ready k" if "k < 8" for k
    using that unat_fresh_pool(2) [of k "block_start k 0"]
    by (simp add: pool_counts_ok_def Let_def ready_free_blocks nth_fresh_pool) (simp add: fresh_pool_def)
  ultimately show ?thesis by (simp add: mem_invar_def)
qed

section \<open>Properties\<close>

text \<open>\<open>memory_init\<close> succeeds and lays the eight pools out one after the other in the
  first 18432 bytes of the heap, all blocks free and all counters consistent with the
  bitmaps.\<close>

theorem memory_init_layout:
  "fst (memory_init memory_boot) = mem_ok \<and> mem_invar (snd (memory_init memory_boot)) \<and>
   map pool_shape (g_memory_pools (snd (memory_init memory_boot))) =
     [(0, 32, 64), (2048, 64, 32), (4096, 128, 16), (6144, 256, 8), (8192, 512, 4), (10240, 1024, 2),
      (12288, 2048, 1), (14336, 4096, 1)] \<and>
   map (free_blocks (snd (memory_init memory_boot))) [0..<8] =
     map (\<lambda>n. {..<n}) [64, 32, 16, 8, 4, 2, 1, 1] \<and>
   memory_get_used_size (snd (memory_init memory_boot)) = 18432"
proof -
  have "map (free_blocks memory_ready) [0..<8] = map (\<lambda>k. {..<pool_blocks k}) [0..<8]"
    by (simp add: ready_free_blocks del: upt_rec_numeral)
  also have "\<dots> = map (\<lambda>n. {..<n}) [64, 32, 16, 8, 4, 2, 1, 1]"
    by (simp add: pool_blocks_def pool_layout_def upt_rec)
  finally show ?thesis
    using ready_invar by (simp add: mem_invar_def pool_layout_def memory_get_used_size_def memory_init_state)
qed

text \<open>C3: Allocation refines a set of free blocks: a request is refused, with no effect, only
  if its size is 0 or no pool with large enough blocks has a free one; otherwise it takes one
  block out of the first such pool, returns its address, and leaves every other block of
  every pool as it was.  The invariant is kept.\<close>

theorem memory_alloc_refines:
  assumes "mem_invar s"
  shows "case memory_alloc sz s of
     (None, s') \<Rightarrow> s' = s \<and> (sz = 0 \<or> (\<forall>k < 8. block_len k < unat sz \<or> free_blocks s k = {}))
   | (Some ptr, s') \<Rightarrow> mem_invar s' \<and>
       (\<exists>k i. k < 8 \<and> i \<in> free_blocks s k \<and> ptr = block_start k i \<and> unat sz \<le> block_len k \<and>
          (\<forall>j < k. block_len j < unat sz \<or> free_blocks s j = {}) \<and>
          (\<forall>j < 8. free_blocks s' j = (if j = k then free_blocks s k - {i} else free_blocks s j)))"
proof -
  obtain r s' where alloc: "memory_alloc sz s = (r, s')" by (cases "memory_alloc sz s")
  from assms alloc show ?thesis
  proof (cases rule: memory_alloc_cases)
    case refused
    then show ?thesis by (auto simp: alloc fits_def not_le)
  next
    case (granted k i)
    have "(\<forall>j < k. block_len j < unat sz \<or> free_blocks s j = {})"
      using granted by (auto simp: fits_def not_le)
    then show ?thesis
      using granted taken_invar [OF assms granted(3,4)] taken_free_blocks [OF assms granted(3,4)]
      by (simp add: alloc) blast
  qed
qed

theorem memory_alloc_refines_witness:
  "fst (memory_alloc 33 memory_ready) \<noteq> None"
proof
  assume "fst (memory_alloc 33 memory_ready) = None"
  then obtain s' where "memory_alloc 33 memory_ready = (None, s')"
    by (cases "memory_alloc 33 memory_ready") auto
  then have "block_len 1 < unat (33 :: u64) \<or> free_blocks memory_ready 1 = {}"
    using memory_alloc_refines [OF ready_invar, of 33] by auto
  then show False
    by (auto simp: ready_free_blocks block_len_def pool_layout_def pool_blocks_def lessThan_empty_iff)
qed

text \<open>The blocks a run of requests is granted, with the requested sizes.\<close>

fun granted :: "u64 list \<Rightarrow> memory_state \<Rightarrow> (nat \<times> nat) list" where
  "granted [] s = []"
| "granted (sz # szs) s =
     (case memory_alloc sz s of
        (None, s') \<Rightarrow> granted szs s'
      | (Some ptr, s') \<Rightarrow> (ptr, unat sz) # granted szs s')"

definition block_of :: "memory_state \<Rightarrow> nat \<times> nat \<Rightarrow> bool" where
  "block_of s pn \<longleftrightarrow>
     (\<exists>k i. k < 8 \<and> i \<in> free_blocks s k \<and> fst pn = block_start k i \<and> snd pn \<le> block_len k)"

definition apart :: "nat \<times> nat \<Rightarrow> nat \<times> nat \<Rightarrow> bool" where
  "apart a b \<longleftrightarrow> fst a + snd a \<le> fst b \<or> fst b + snd b \<le> fst a"

lemma granted_apart:
  "mem_invar s \<Longrightarrow> list_all (block_of s) (granted szs s) \<and> sorted_wrt apart (granted szs s)"
proof (induction szs arbitrary: s)
  case Nil
  then show ?case by simp
next
  case (Cons sz szs)
  obtain r s' where alloc: "memory_alloc sz s = (r, s')" by (cases "memory_alloc sz s")
  from Cons.prems alloc show ?case
  proof (cases rule: memory_alloc_cases)
    case refused
    then show ?thesis using Cons alloc by simp
  next
    case (granted k i)
    have inv': "mem_invar s'"
      using taken_invar [OF Cons.prems granted(3,4)] granted by simp
    have free': "free_blocks s' j = (if j = k then free_blocks s k - {i} else free_blocks s j)" if "j < 8" for j
      using taken_free_blocks [OF Cons.prems granted(3,4) that] granted by simp
    have i: "i < pool_blocks k"
      using free_block_bound [OF Cons.prems granted(3,4)] .
    have head: "block_of s (block_start k i, unat sz)"
      using granted by (auto simp: block_of_def)
    have tail: "block_of s pn \<and> apart (block_start k i, unat sz) pn" if blk: "block_of s' pn" for pn
    proof -
      obtain j m where jm: "j < 8" "m \<in> free_blocks s' j" "fst pn = block_start j m" "snd pn \<le> block_len j"
        using blk unfolding block_of_def by blast
      then have m: "m \<in> free_blocks s j" "(k, i) \<noteq> (j, m)"
        using free' by (auto split: if_splits)
      then have "m < pool_blocks j"
        using free_block_bound [OF Cons.prems jm(1)] by blast
      then have "apart (block_start k i, unat sz) pn"
        using blocks_disjoint [OF granted(3) i jm(1) _ m(2)] granted(5) jm(3,4) by (auto simp: apart_def)
      then show ?thesis using m(1) jm by (auto simp: block_of_def)
    qed
    show ?thesis
      using Cons.IH [OF inv'] head tail granted(1) alloc by (auto simp: list_all_iff)
  qed
qed

text \<open>C4: From a consistent state (in particular after initialisation) any sequence of
  allocations grants pairwise disjoint memory: no two of the returned blocks overlap over the
  sizes asked for, and all of it lies inside the 18432 bytes of the pools.\<close>

theorem allocations_disjoint:
  assumes "mem_invar s"
  shows "sorted_wrt (\<lambda>(p, n) (q, m). p + n \<le> q \<or> q + m \<le> p) (granted szs s) \<and>
    list_all (\<lambda>(p, n). p + n \<le> 18432) (granted szs s)"
proof -
  have "p + n \<le> 18432" if blk: "block_of s (p, n)" for p n
  proof -
    obtain k i where k: "k < 8" "i \<in> free_blocks s k" "p = block_start k i" "n \<le> block_len k"
      using blk by (auto simp: block_of_def)
    then show ?thesis
      using block_bounds(2) [OF k(1) free_block_bound [OF assms k(1,2)]] layout_facts(6) [OF k(1)] by linarith
  qed
  then have "list_all (\<lambda>(p, n). p + n \<le> 18432) (granted szs s)"
    using granted_apart [OF assms, of szs] by (auto simp: list_all_iff)
  moreover have "sorted_wrt (\<lambda>(p, n) (q, m). p + n \<le> q \<or> q + m \<le> p) (granted szs s)"
    using granted_apart [OF assms, of szs]
    by (auto simp: apart_def elim: sorted_wrt_mono_rel [rotated])
  ultimately show ?thesis by blast
qed

theorem allocations_disjoint_witness:
  "list_all (\<lambda>(p, n). p + n \<le> 18432) (granted [20, 4096, 40] memory_ready)"
  using allocations_disjoint [OF ready_invar, of "[20, 4096, 40]"] by (simp del: granted.simps)

text \<open>C14: Allocation and release are inverse: freeing a block right after it was allocated
  restores the whole allocator state, heap bytes and counters included.\<close>

theorem alloc_free_roundtrip:
  assumes "mem_invar s" and "memory_alloc sz s = (Some ptr, s')"
  shows "memory_free (Some ptr) s' = s"
  using assms
proof (cases rule: memory_alloc_cases)
  case (granted k i)
  have "mem_invar s'"
    using taken_invar [OF assms(1) granted(3,4)] granted by simp
  then have "memory_free (Some ptr) s' = given k i s'"
    using memory_free_block [OF invar_layout granted(3)] free_block_bound [OF assms(1) granted(3,4)] granted(1)
    by simp
  then show ?thesis
    using given_taken [OF assms(1) granted(3,4)] granted by simp
qed simp

theorem alloc_free_roundtrip_witness:
  "memory_free (fst (memory_alloc 33 memory_ready)) (snd (memory_alloc 33 memory_ready)) = memory_ready"
proof (cases "memory_alloc 33 memory_ready")
  case (Pair r s')
  then show ?thesis
    using alloc_free_roundtrip [OF ready_invar, of 33] by (cases r) (auto elim: memory_alloc_cases [OF ready_invar] simp: memory_free_def)
qed

text \<open>C39: A block that is already free can be freed again: the bitmaps stay, but the pool's
  free counter is raised past the number of free blocks and its allocation counter lowered,
  so the counters no longer describe the pool.\<close>

theorem double_free_corrupts_counters:
  assumes "mem_invar s" and "k < 8" and "i \<in> free_blocks s k"
  shows "let s' = memory_free (Some (block_start k i)) s; p = g_memory_pools s' ! k in
    map (free_blocks s') [0..<8] = map (free_blocks s) [0..<8] \<and>
    unat (mp_free_count p) = card (free_blocks s' k) + 1 \<and>
    mp_allocation_count p = mp_allocation_count (g_memory_pools s ! k) - 1 \<and> \<not> mem_invar s'"
proof -
  let ?s = "given k i s"
  have i: "i < pool_blocks k"
    using free_block_bound assms by blast
  have step: "memory_free (Some (block_start k i)) s = ?s"
    using memory_free_block [OF invar_layout assms(2) i] assms(1) by simp
  have free: "free_blocks ?s j = free_blocks s j" if "j < 8" for j
    using given_free_blocks [OF assms(1,2) i that] assms(3) by auto
  have "unat (mp_free_count (g_memory_pools s ! k)) \<le> 64"
    using invar_pool(5) [OF assms(1,2)] card_free_le [OF assms(1,2)] layout_facts(4) [OF assms(2)] by linarith
  then have cnt: "unat (mp_free_count (g_memory_pools ?s ! k)) = card (free_blocks ?s k) + 1"
    using invar_pool(5,7) [OF assms(1,2)] free [OF assms(2)] assms(2)
    by (simp add: given_def Let_def unat_inc)
  then have "\<not> mem_invar ?s"
    using invar_pool(5) [OF _ assms(2), of ?s] by auto
  moreover have "mp_allocation_count (g_memory_pools ?s ! k) = mp_allocation_count (g_memory_pools s ! k) - 1"
    using invar_pool(7) [OF assms(1,2)] assms(2) by (simp add: given_def Let_def)
  ultimately show ?thesis
    using step free cnt by (simp add: Let_def del: upt_rec_numeral)
qed

theorem double_free_corrupts_counters_witness:
  "\<not> mem_invar (memory_free (Some 64) memory_ready)"
  using double_free_corrupts_counters [OF ready_invar, of 0 2]
  by (simp add: Let_def ready_free_blocks pool_blocks_def block_start_def pool_layout_def
      del: upt_rec_numeral)

text \<open>Every pool keeps its bitmap in its own first block, so a client that owns that block
  owns the bitmap: after initialisation a first 32-byte allocation returns the address of the
  bitmap of its pool, and when the client fills the first byte of its block with ones, the
  next 32-byte allocation returns the same block again.\<close>

theorem bitmap_in_first_block:
  "case memory_alloc 32 (snd (memory_init memory_boot)) of (r, s1) \<Rightarrow>
     r = Some (mp_free_list (g_memory_pools s1 ! 0)) \<and>
     (let s2 = s1\<lparr>g_kernel_heap := (g_kernel_heap s1)(the r := 0xFF)\<rparr>
      in fst (memory_alloc 32 s2) = r)"
proof -
  have start: "block_start 0 0 = 0" and blocks: "pool_blocks 0 = 64" and len: "block_len 0 = 32"
    by (simp_all add: block_start_def pool_blocks_def block_len_def pool_layout_def)
  obtain r s1 where alloc: "memory_alloc 32 memory_ready = (r, s1)" by (cases "memory_alloc 32 memory_ready")
  have fit: "fits 32 memory_ready 0"
    by (simp add: fits_def ready_free_blocks len blocks lessThan_empty_iff)
  from ready_invar alloc have "r = Some 0 \<and> s1 = taken 0 0 memory_ready"
  proof (cases rule: memory_alloc_cases)
    case refused
    then show ?thesis using fit by auto
  next
    case (granted k i)
    then have "k = 0" using fit by (cases k) auto
    moreover from this have "i = 0" using granted(8) by (cases i) (auto simp: ready_free_blocks blocks)
    ultimately show ?thesis using granted start by simp
  qed
  moreover
  let ?s2 = "(taken 0 0 memory_ready)\<lparr>g_kernel_heap := (g_kernel_heap (taken 0 0 memory_ready))(0 := 0xFF)\<rparr>"
  let ?p = "g_memory_pools memory_ready ! 0"
  have p: "?p = fresh_pool (0, 32, 64)"
    by (simp add: nth_fresh_pool start blocks len)
  then have byte: "bitmap_byte ?p 0 = 0"
    by (simp add: bitmap_byte_def fresh_pool_def)
  have pools: "g_memory_pools ?s2 ! 0 = ?p\<lparr>mp_free_count := 63, mp_allocation_count := 1\<rparr>"
    using invar_pool(7) [OF ready_invar, of 0] p by (simp add: taken_def Let_def fresh_pool_def)
  have free: "find (block_free (g_memory_pools ?s2 ! 0) (g_kernel_heap ?s2)) [0..<64] = Some 0"
    unfolding pools by (simp add: find_upt_Some block_free_def bitmap_byte_def p fresh_pool_def)
  have "\<exists>s3. memory_pool_alloc 0 ?s2 = (Some 0, s3)"
    using free pools p
    by (simp add: memory_pool_alloc_def Let_def fresh_pool_def del: upt_rec_numeral)
  then obtain s3 where "memory_pool_alloc 0 ?s2 = (Some 0, s3)" ..
  then have "fst (memory_alloc 32 ?s2) = Some 0"
    using pools p by (simp add: memory_alloc_def fresh_pool_def upt_conv_Cons)
  moreover have "mp_free_list (g_memory_pools (taken 0 0 memory_ready) ! 0) = 0"
    using pools p by (simp add: fresh_pool_def)
  ultimately show ?thesis by (simp add: alloc Let_def)
qed

end
