(* ===== verification/Kernel_Ipc.thy ===== *)
theory Kernel_Ipc
  imports Kernel_Memory
begin

text \<open>
  Message routing in the kernel (kernel/core/ipc.h, ipc.c): a shared buffer from which large
  messages are bump-allocated, and a table of topics whose subscribers get descriptors.
  The state holds the static \<open>g_ipc\<close> and the memory of Kernel_Memory, into which messages
  are copied.  Deliveries are returned as a list of subscriber and descriptor.
\<close>

section \<open>Data\<close>

record ipc_message_desc =
  md_buffer_id :: u32
  md_offset :: u32
  md_size :: u32
  md_source_pid :: u16
  md_priority :: u8
  md_reference_count :: u8
  md_timestamp :: u64
  md_sequence_number :: u32

record ipc_topic_route =
  tr_name :: string
  tr_subscriber_pids :: "u16 list"
  tr_subscriber_count :: u8
  tr_priority :: u8
  tr_message_count :: u32
  tr_zero_copy_count :: u32

record ipc_shared_buffer =
  sh_base_address :: "nat option"
  sh_size :: u32
  sh_used :: u32
  sh_watermark :: u32
  sh_allocation_count :: u32

record kernel_ipc =
  ki_topics :: "ipc_topic_route list"
  ki_topic_count :: u32
  ki_shared_buffer :: ipc_shared_buffer
  ki_initialized :: bool
  ki_memory :: memory_state

definition IPC_MAX_MESSAGE_SIZE :: u64 where
  "IPC_MAX_MESSAGE_SIZE = 4096"

definition IPC_SHARED_BUFFER_SIZE :: u32 where
  "IPC_SHARED_BUFFER_SIZE = 64 * 1024"

definition ipc_ok :: system_error where
  "ipc_ok = system_error_create ERR_SYS_OK ERROR_CATEGORY_SYSTEM ERROR_SEVERITY_LOW MODULE_ID_IPC"

definition ipc_high :: "u32 \<Rightarrow> system_error" where
  "ipc_high code = system_error_create code ERROR_CATEGORY_SYSTEM ERROR_SEVERITY_HIGH MODULE_ID_IPC"

section \<open>Operations\<close>

text \<open>The new value of \<open>*buffer\<close> is part of the result; \<open>None\<close> is NULL.\<close>

definition memory_alloc_shared ::
  "u64 \<Rightarrow> bool \<Rightarrow> memory_state \<Rightarrow> system_error \<times> nat option \<times> memory_state" where
  "memory_alloc_shared sz buffer_given m =
     (if \<not> buffer_given \<or> sz = 0 then (ipc_high ERR_SYS_INVALID_PARAM, None, m)
      else
        (case memory_alloc sz m of
           (None, m') \<Rightarrow> (ipc_high ERR_SYS_RESOURCE_UNAVAIL, None, m')
         | (Some p, m') \<Rightarrow> (ipc_ok, Some p, m')))"

definition kernel_time_get_uptime_us :: u64 where
  "kernel_time_get_uptime_us = 0"

definition zero_route :: ipc_topic_route where
  "zero_route = \<lparr>tr_name = [], tr_subscriber_pids = replicate 32 0, tr_subscriber_count = 0,
     tr_priority = 0, tr_message_count = 0, tr_zero_copy_count = 0\<rparr>"

definition zero_shared_buffer :: ipc_shared_buffer where
  "zero_shared_buffer = \<lparr>sh_base_address = None, sh_size = 0, sh_used = 0, sh_watermark = 0,
     sh_allocation_count = 0\<rparr>"

definition ipc_kernel_init :: "kernel_ipc \<Rightarrow> system_error \<times> kernel_ipc" where
  "ipc_kernel_init s =
     (if ki_initialized s then
        (system_error_create ERR_SYS_ALREADY_INIT ERROR_CATEGORY_SYSTEM ERROR_SEVERITY_MEDIUM
           MODULE_ID_IPC, s)
      else
        let s1 = s\<lparr>ki_topics := replicate 256 zero_route, ki_topic_count := 0,
                   ki_shared_buffer := zero_shared_buffer, ki_initialized := False\<rparr>
        in case memory_alloc_shared (ucast IPC_SHARED_BUFFER_SIZE) True (ki_memory s1) of
             (ret, base, m) \<Rightarrow>
               let s2 = s1\<lparr>ki_memory := m,
                           ki_shared_buffer := (ki_shared_buffer s1)\<lparr>sh_base_address := base\<rparr>\<rparr>
               in if error_code ret \<noteq> ERR_SYS_OK then (ret, s2)
                  else
                    (ipc_ok,
                     s2\<lparr>ki_shared_buffer := (ki_shared_buffer s2)\<lparr>sh_size := IPC_SHARED_BUFFER_SIZE\<rparr>,
                        ki_initialized := True\<rparr>))"

text \<open>The result of an allocation: the address (relative to the base) and the id.\<close>

definition ipc_alloc_shared_buffer ::
  "u32 \<Rightarrow> bool \<Rightarrow> bool \<Rightarrow> kernel_ipc \<Rightarrow> system_error \<times> (u32 \<times> u32) option \<times> kernel_ipc" where
  "ipc_alloc_shared_buffer sz buffer_given id_given s =
     (if \<not> ki_initialized s \<or> \<not> buffer_given \<or> \<not> id_given
      then (ipc_high ERR_SYS_INVALID_PARAM, None, s)
      else
        let b = ki_shared_buffer s in
        if sh_size b < sh_used b + sz then (ipc_high ERR_SYS_RESOURCE_UNAVAIL, None, s)
        else
          let used = sh_used b + sz in
          (ipc_ok, Some (sh_used b, sh_allocation_count b),
           s\<lparr>ki_shared_buffer :=
               b\<lparr>sh_allocation_count := sh_allocation_count b + 1, sh_used := used,
                 sh_watermark := (if sh_watermark b < used then used else sh_watermark b)\<rparr>\<rparr>))"

definition ipc_free_shared_buffer :: "u32 \<Rightarrow> system_error" where
  "ipc_free_shared_buffer buffer_id = ipc_ok"

definition ipc_increment_ref_count :: "u32 \<Rightarrow> system_error" where
  "ipc_increment_ref_count buffer_id = ipc_ok"

definition ipc_deliver_message_descriptor :: "u16 \<Rightarrow> ipc_message_desc \<Rightarrow> system_error" where
  "ipc_deliver_message_descriptor pid desc = ipc_ok"

definition ipc_publish_message_copy :: "string \<Rightarrow> u8 list \<Rightarrow> u64 \<Rightarrow> u16 \<Rightarrow> system_error" where
  "ipc_publish_message_copy topic message sz source_pid = ipc_ok"

text \<open>The deliveries for one topic: a descriptor for each of its subscribers.\<close>

definition deliveries :: "ipc_topic_route \<Rightarrow> ipc_message_desc \<Rightarrow> (u16 \<times> ipc_message_desc) list" where
  "deliveries t desc =
     map (\<lambda>j. (tr_subscriber_pids t ! j, desc)) [0..<unat (tr_subscriber_count t)]"

definition count_route :: "ipc_topic_route \<Rightarrow> ipc_topic_route" where
  "count_route t =
     t\<lparr>tr_message_count := tr_message_count t + 1,
       tr_zero_copy_count := tr_zero_copy_count t + ucast (tr_subscriber_count t)\<rparr>"

text \<open>The loop over the first \<open>topic_count\<close> entries stops at the first topic of that name.\<close>

definition ipc_route_message_zero_copy ::
  "string \<Rightarrow> ipc_message_desc \<Rightarrow> kernel_ipc \<Rightarrow>
   system_error \<times> kernel_ipc \<times> (u16 \<times> ipc_message_desc) list" where
  "ipc_route_message_zero_copy topic desc s =
     (let n = unat (ki_topic_count s); active = take n (ki_topics s); rest = drop n (ki_topics s) in
      case find (\<lambda>t. tr_name t = topic) active of
        Some t \<Rightarrow>
          (ipc_ok,
           s\<lparr>ki_topics := update_first (\<lambda>t. tr_name t = topic) count_route active @ rest\<rparr>,
           deliveries t desc)
      | None \<Rightarrow> (ipc_high ERR_SYS_CONFIG_ERROR, s, []))"

text \<open>\<open>memcpy\<close> into the heap.\<close>

definition write_heap :: "nat \<Rightarrow> u8 list \<Rightarrow> (nat \<Rightarrow> u8) \<Rightarrow> nat \<Rightarrow> u8" where
  "write_heap a bs h = (\<lambda>x. if a \<le> x \<and> x < a + length bs then bs ! (x - a) else h x)"

definition store_message :: "u32 \<Rightarrow> u8 list \<Rightarrow> kernel_ipc \<Rightarrow> kernel_ipc" where
  "store_message off bs s =
     s\<lparr>ki_memory := (ki_memory s)\<lparr>g_kernel_heap :=
         write_heap (the (sh_base_address (ki_shared_buffer s)) + unat off) bs
           (g_kernel_heap (ki_memory s))\<rparr>\<rparr>"

definition ipc_publish_message_zero_copy ::
  "string option \<Rightarrow> u8 list option \<Rightarrow> u64 \<Rightarrow> u16 \<Rightarrow> u32 \<Rightarrow> kernel_ipc \<Rightarrow>
   system_error \<times> kernel_ipc \<times> (u16 \<times> ipc_message_desc) list" where
  "ipc_publish_message_zero_copy topic message sz source_pid timeout_ms s =
     (case (topic, message) of
        (Some t, Some m) \<Rightarrow>
          if \<not> ki_initialized s \<or> sz = 0 then (ipc_high ERR_SYS_INVALID_PARAM, s, [])
          else if IPC_MAX_MESSAGE_SIZE < sz then (ipc_high ERR_SYS_CONFIG_ERROR, s, [])
          else if 256 < sz then
            (case ipc_alloc_shared_buffer (ucast sz) True True s of
               (ret, None, s1) \<Rightarrow> (ret, s1, [])
             | (ret, Some (off, buffer_id), s1) \<Rightarrow>
                 let s2 = store_message off (take (unat sz) m) s1;
                     desc = \<lparr>md_buffer_id = buffer_id, md_offset = 0, md_size = ucast sz,
                             md_source_pid = source_pid, md_priority = 64, md_reference_count = 1,
                             md_timestamp = kernel_time_get_uptime_us, md_sequence_number = 0\<rparr>
                 in ipc_route_message_zero_copy t desc s2)
          else (ipc_publish_message_copy t m sz source_pid, s, [])
      | _ \<Rightarrow> (ipc_high ERR_SYS_INVALID_PARAM, s, []))"

section \<open>Initialisation always fails\<close>

lemma ipc_errors [simp]: "error_code ipc_ok = 0" "error_code (ipc_high c) = c"
  by (simp_all add: ipc_ok_def ipc_high_def)

text \<open>A request larger than every pool is refused without effect.\<close>

lemma memory_alloc_too_large:
  assumes "mem_invar m" and "4096 < unat sz"
  shows "memory_alloc sz m = (None, m)"
proof -
  obtain r m' where alloc: "memory_alloc sz m = (r, m')" by (cases "memory_alloc sz m")
  from assms(1) alloc show ?thesis
  proof (cases rule: memory_alloc_cases)
    case refused
    then show ?thesis using alloc by simp
  next
    case (granted k i)
    then show ?thesis using layout_facts(2) [of k] assms(2) by linarith
  qed
qed

text \<open>The kernel's IPC can never be initialised: the 64 KB shared buffer is asked of an
  allocator whose largest block has 4096 bytes, so with consistent memory every call of
  \<open>ipc_kernel_init\<close> fails, leaves IPC uninitialised and the memory as it was, and every
  publish afterwards is refused.\<close>

theorem ipc_kernel_init_fails:
  assumes "mem_invar (ki_memory s)" and "\<not> ki_initialized s"
  shows "case ipc_kernel_init s of (err, s') \<Rightarrow>
    err = ipc_high ERR_SYS_RESOURCE_UNAVAIL \<and> \<not> ki_initialized s' \<and> ki_memory s' = ki_memory s \<and>
    ipc_publish_message_zero_copy topic message sz pid timeout_ms s' =
      (ipc_high ERR_SYS_INVALID_PARAM, s', [])"
proof -
  have "memory_alloc (ucast IPC_SHARED_BUFFER_SIZE) (ki_memory s) = (None, ki_memory s)"
    using assms(1) by (intro memory_alloc_too_large) (simp_all add: IPC_SHARED_BUFFER_SIZE_def)
  then show ?thesis
    using assms(2)
    by (simp add: ipc_kernel_init_def memory_alloc_shared_def IPC_SHARED_BUFFER_SIZE_def Let_def
        ipc_publish_message_zero_copy_def split: option.split)
qed

definition ipc_boot :: "memory_state \<Rightarrow> kernel_ipc" where
  "ipc_boot m = \<lparr>ki_topics = replicate 256 zero_route, ki_topic_count = 0,
     ki_shared_buffer = zero_shared_buffer, ki_initialized = False, ki_memory = m\<rparr>"

theorem ipc_kernel_init_fails_witness:
  "fst (ipc_kernel_init (ipc_boot memory_ready)) = ipc_high ERR_SYS_RESOURCE_UNAVAIL"
proof -
  have "mem_invar (ki_memory (ipc_boot memory_ready))" "\<not> ki_initialized (ipc_boot memory_ready)"
    using ready_invar by (simp_all add: ipc_boot_def)
  from ipc_kernel_init_fails [OF this, of None None 0 0 0] show ?thesis
    by (simp only: case_prod_unfold)
qed

section \<open>The shared buffer, for a kernel whose initialisation succeeded\<close>

definition buffer_invar :: "kernel_ipc \<Rightarrow> bool" where
  "buffer_invar s \<longleftrightarrow> ki_initialized s \<and> sh_size (ki_shared_buffer s) = 65536 \<and>
     unat (sh_used (ki_shared_buffer s)) \<le> unat (sh_watermark (ki_shared_buffer s)) \<and>
     unat (sh_watermark (ki_shared_buffer s)) \<le> 65536"

definition used_bytes :: "kernel_ipc \<Rightarrow> nat" where
  "used_bytes s = unat (sh_used (ki_shared_buffer s))"

lemma alloc_shared_small:
  assumes inv: "buffer_invar s" and small: "unat sz \<le> 65536"
  shows "65536 < used_bytes s + unat sz \<Longrightarrow>
      ipc_alloc_shared_buffer sz True True s = (ipc_high ERR_SYS_RESOURCE_UNAVAIL, None, s)"
    and "used_bytes s + unat sz \<le> 65536 \<Longrightarrow>
      \<exists>s1. ipc_alloc_shared_buffer sz True True s =
        (ipc_ok, Some (sh_used (ki_shared_buffer s), sh_allocation_count (ki_shared_buffer s)), s1) \<and>
        buffer_invar s1 \<and> used_bytes s1 = used_bytes s + unat sz \<and>
        ki_topics s1 = ki_topics s \<and> ki_topic_count s1 = ki_topic_count s"
proof -
  let ?b = "ki_shared_buffer s"
  have "unat (sh_used ?b) + unat sz < 2 ^ 32"
    using assms by (simp add: buffer_invar_def)
  then have sum: "unat (sh_used ?b + sz) = unat (sh_used ?b) + unat sz"
    by (simp add: unat_word_ariths)
  then have full: "sh_size ?b < sh_used ?b + sz \<longleftrightarrow> 65536 < used_bytes s + unat sz"
    using inv by (simp add: buffer_invar_def word_less_nat_alt used_bytes_def)
  show "ipc_alloc_shared_buffer sz True True s = (ipc_high ERR_SYS_RESOURCE_UNAVAIL, None, s)"
    if "65536 < used_bytes s + unat sz"
    using that inv full by (simp add: ipc_alloc_shared_buffer_def buffer_invar_def Let_def)
  show "\<exists>s1. ipc_alloc_shared_buffer sz True True s =
        (ipc_ok, Some (sh_used ?b, sh_allocation_count ?b), s1) \<and>
        buffer_invar s1 \<and> used_bytes s1 = used_bytes s + unat sz \<and>
        ki_topics s1 = ki_topics s \<and> ki_topic_count s1 = ki_topic_count s"
    if "used_bytes s + unat sz \<le> 65536"
    using that inv full sum
    by (auto simp: ipc_alloc_shared_buffer_def buffer_invar_def Let_def used_bytes_def word_less_nat_alt not_less)
qed

text \<open>C23: The bounds check of the shared buffer adds in 32 bits: a request is granted exactly
  if the wrapped sum is at most the buffer size.  So a request of almost 4 GB is granted by a
  buffer of 64 KB as soon as something is allocated, and it moves the allocation point back
  over live messages.\<close>

theorem shared_buffer_check_wraps:
  assumes "buffer_invar s"
  shows "case ipc_alloc_shared_buffer sz True True s of (err, r, s') \<Rightarrow>
    (error_code err = ERR_SYS_OK \<longleftrightarrow> (used_bytes s + unat sz) mod 2 ^ 32 \<le> 65536) \<and>
    (error_code err = ERR_SYS_OK \<longrightarrow> used_bytes s' = (used_bytes s + unat sz) mod 2 ^ 32 \<and>
       (2 ^ 32 \<le> used_bytes s + unat sz \<longrightarrow> used_bytes s' < used_bytes s))"
proof -
  let ?b = "ki_shared_buffer s"
  have sum: "unat (sh_used ?b + sz) = (used_bytes s + unat sz) mod 2 ^ 32"
    by (simp add: unat_word_ariths used_bytes_def)
  have full: "sh_size ?b < sh_used ?b + sz \<longleftrightarrow> 65536 < (used_bytes s + unat sz) mod 2 ^ 32"
    using assms sum by (simp add: buffer_invar_def word_less_nat_alt)
  have moved_back: "(used_bytes s + unat sz) mod 2 ^ 32 < used_bytes s" if "2 ^ 32 \<le> used_bytes s + unat sz"
  proof -
    have "used_bytes s + unat sz < 2 * 2 ^ 32"
      using unat_lt_u32 [of sz] unat_lt_u32 [of "sh_used ?b"] by (simp add: used_bytes_def)
    then have "(used_bytes s + unat sz) mod 2 ^ 32 = used_bytes s + unat sz - 2 ^ 32"
      using that by (simp add: le_mod_geq)
    then show ?thesis using unat_lt_u32 [of sz] that by simp
  qed
  show ?thesis
    using assms full sum moved_back
    by (auto simp: ipc_alloc_shared_buffer_def buffer_invar_def Let_def used_bytes_def not_less)
qed

definition ipc_started :: kernel_ipc where
  "ipc_started = \<lparr>ki_topics = \<lparr>tr_name = ''a/b/c'', tr_subscriber_pids = 7 # 9 # replicate 30 0,
       tr_subscriber_count = 2, tr_priority = 0, tr_message_count = 0, tr_zero_copy_count = 0\<rparr>
       # replicate 255 zero_route, ki_topic_count = 1,
     ki_shared_buffer = \<lparr>sh_base_address = Some 0, sh_size = 65536, sh_used = 1000, sh_watermark = 1000,
       sh_allocation_count = 1\<rparr>,
     ki_initialized = True, ki_memory = memory_boot\<rparr>"

lemma ipc_started_invar: "buffer_invar ipc_started" "used_bytes ipc_started = 1000"
  by (simp_all add: ipc_started_def buffer_invar_def used_bytes_def)

theorem shared_buffer_check_wraps_witness:
  "used_bytes (snd (snd (ipc_alloc_shared_buffer 0xFFFFFC18 True True ipc_started))) < 1000"
  using shared_buffer_check_wraps [OF ipc_started_invar(1), of "0xFFFFFC18"]
  by (simp add: ipc_started_invar split: prod.splits)

section \<open>Publishing\<close>

lemma store_message_fields [simp]:
  "ki_shared_buffer (store_message off bs s) = ki_shared_buffer s"
  "ki_initialized (store_message off bs s) = ki_initialized s"
  "ki_topics (store_message off bs s) = ki_topics s"
  "ki_topic_count (store_message off bs s) = ki_topic_count s"
  by (simp_all add: store_message_def)

lemma route_fields:
  "ipc_route_message_zero_copy t d s = (err, s', ds) \<Longrightarrow>
   ki_shared_buffer s' = ki_shared_buffer s \<and> ki_initialized s' = ki_initialized s \<and>
   error_code err \<noteq> ERR_SYS_RESOURCE_UNAVAIL"
  by (auto simp: ipc_route_message_zero_copy_def Let_def split: option.splits)

text \<open>The descriptor of a large message.\<close>

definition large_desc :: "u64 \<Rightarrow> u16 \<Rightarrow> kernel_ipc \<Rightarrow> ipc_message_desc" where
  "large_desc sz pid s =
     \<lparr>md_buffer_id = sh_allocation_count (ki_shared_buffer s), md_offset = 0, md_size = ucast sz,
      md_source_pid = pid, md_priority = 64, md_reference_count = 1, md_timestamp = 0,
      md_sequence_number = 0\<rparr>"

lemma unat_ucast_size: "unat sz \<le> 4096 \<Longrightarrow> unat (ucast (sz :: u64) :: u32) = unat sz"
  by (simp add: unsigned_ucast_eq take_bit_eq_mod)

text \<open>A large publish with room.\<close>

lemma publish_large:
  assumes inv: "buffer_invar s" and sz: "256 < unat sz" "unat sz \<le> 4096"
    and room: "used_bytes s + unat sz \<le> 65536"
  obtains s1 where "buffer_invar s1" "used_bytes s1 = used_bytes s + unat sz"
    "ki_topics s1 = ki_topics s" "ki_topic_count s1 = ki_topic_count s"
    "ipc_publish_message_zero_copy (Some t) (Some m) sz pid timeout_ms s =
       ipc_route_message_zero_copy t (large_desc sz pid s) s1"
proof -
  have small: "unat (ucast sz :: u32) \<le> 65536" "unat (ucast sz :: u32) = unat sz"
    using sz by (simp_all add: unat_ucast_size)
  obtain a where a: "ipc_alloc_shared_buffer (ucast sz) True True s =
      (ipc_ok, Some (sh_used (ki_shared_buffer s), sh_allocation_count (ki_shared_buffer s)), a)"
    "buffer_invar a" "used_bytes a = used_bytes s + unat sz" "ki_topics a = ki_topics s"
    "ki_topic_count a = ki_topic_count s"
    using alloc_shared_small(2) [OF inv small(1)] room small(2) by auto
  let ?s1 = "store_message (sh_used (ki_shared_buffer s)) (take (unat sz) m) a"
  have "256 < sz" "\<not> IPC_MAX_MESSAGE_SIZE < sz" "sz \<noteq> 0"
    using sz by (auto simp: word_less_nat_alt IPC_MAX_MESSAGE_SIZE_def)
  then have "ipc_publish_message_zero_copy (Some t) (Some m) sz pid timeout_ms s =
       ipc_route_message_zero_copy t (large_desc sz pid s) ?s1"
    using inv
    by (simp add: ipc_publish_message_zero_copy_def buffer_invar_def a(1) large_desc_def
        kernel_time_get_uptime_us_def Let_def)
  moreover have "buffer_invar ?s1" "used_bytes ?s1 = used_bytes s + unat sz"
    using a(2,3) by (simp_all add: buffer_invar_def used_bytes_def)
  ultimately show thesis using a(4,5) by (intro that) simp_all
qed

text \<open>C38: A large message (257 to 4096 bytes) to a registered topic is delivered to exactly the
  subscribers of the first topic of that name, in order, and counted there; a message to an
  unknown topic is refused, yet in both cases the shared buffer has lost its bytes for
  good.\<close>

theorem publish_large_routes:
  assumes "buffer_invar s" and "256 < unat sz" and "unat sz \<le> 4096" and "used_bytes s + unat sz \<le> 65536"
  shows "case ipc_publish_message_zero_copy (Some t) (Some m) sz pid timeout_ms s of (err, s', ds) \<Rightarrow>
    used_bytes s' = used_bytes s + unat sz \<and>
    (case find (\<lambda>r. tr_name r = t) (take (unat (ki_topic_count s)) (ki_topics s)) of
       None \<Rightarrow> err = ipc_high ERR_SYS_CONFIG_ERROR \<and> ds = [] \<and> ki_topics s' = ki_topics s
     | Some r \<Rightarrow> err = ipc_ok \<and>
         map fst ds = map ((!) (tr_subscriber_pids r)) [0..<unat (tr_subscriber_count r)] \<and>
         list_all (\<lambda>d. md_size (snd d) = ucast sz \<and> md_source_pid (snd d) = pid) ds \<and>
         take (unat (ki_topic_count s)) (ki_topics s') =
           update_first (\<lambda>r. tr_name r = t) count_route (take (unat (ki_topic_count s)) (ki_topics s)))"
proof -
  from assms obtain s1 where s1: "used_bytes s1 = used_bytes s + unat sz"
    "ki_topics s1 = ki_topics s" "ki_topic_count s1 = ki_topic_count s"
    "ipc_publish_message_zero_copy (Some t) (Some m) sz pid timeout_ms s =
       ipc_route_message_zero_copy t (large_desc sz pid s) s1"
    by (rule publish_large)
  then show ?thesis
    by (auto simp: ipc_route_message_zero_copy_def Let_def used_bytes_def deliveries_def large_desc_def
        list_all_iff min_def split: option.split)
qed

theorem publish_large_routes_witness:
  "map fst (snd (snd (ipc_publish_message_zero_copy (Some ''a/b/c'') (Some []) 300 5 0 ipc_started))) = [7, 9]"
proof -
  have "find (\<lambda>r. tr_name r = ''a/b/c'') (take (unat (ki_topic_count ipc_started)) (ki_topics ipc_started)) =
      Some (hd (ki_topics ipc_started))"
    "map ((!) (tr_subscriber_pids (hd (ki_topics ipc_started))))
       [0..<unat (tr_subscriber_count (hd (ki_topics ipc_started)))] = [7, 9]"
    by (simp_all add: ipc_started_def upt_rec)
  then show ?thesis
    using publish_large_routes [OF ipc_started_invar(1), where sz = 300 and t = "''a/b/c''" and m = "[]"
      and pid = 5 and timeout_ms = 0]
    by (simp add: ipc_started_invar case_prod_unfold)
qed

text \<open>A small message (at most 256 bytes) is reported as published and delivered to
  nobody, whatever topics exist: the copying path is a stub.\<close>

theorem publish_small_delivers_nothing:
  assumes "ki_initialized s" and "0 < unat sz" and "unat sz \<le> 256"
  shows "ipc_publish_message_zero_copy (Some t) (Some m) sz pid timeout_ms s = (ipc_ok, s, [])"
proof -
  have "sz \<noteq> 0" "\<not> 256 < sz" "\<not> IPC_MAX_MESSAGE_SIZE < sz"
    using assms by (auto simp: word_less_nat_alt IPC_MAX_MESSAGE_SIZE_def)
  then show ?thesis
    using assms(1) by (simp add: ipc_publish_message_zero_copy_def ipc_publish_message_copy_def)
qed

theorem publish_small_delivers_nothing_witness:
  "ipc_publish_message_zero_copy (Some ''a/b/c'') (Some [1]) 1 5 0 ipc_started = (ipc_ok, ipc_started, [])"
  by (rule publish_small_delivers_nothing) (simp_all add: ipc_started_def)

section \<open>Exhaustion\<close>

text \<open>A publish request: topic, message and size.\<close>

type_synonym publish_request = "string \<times> u8 list \<times> u64"

definition kernel_publish :: "publish_request \<Rightarrow> kernel_ipc \<Rightarrow> system_error \<times> kernel_ipc" where
  "kernel_publish r s =
     (case r of (t, m, sz) \<Rightarrow>
        (case ipc_publish_message_zero_copy (Some t) (Some m) sz 1 0 s of (err, s', ds) \<Rightarrow> (err, s')))"

text \<open>The bytes a request takes from the buffer: all of a large message that finds room.\<close>

definition bytes_taken :: "publish_request \<times> system_error \<Rightarrow> nat" where
  "bytes_taken re =
     (case re of ((t, m, sz), err) \<Rightarrow>
        if 256 < unat sz \<and> unat sz \<le> 4096 \<and> error_code err \<noteq> ERR_SYS_RESOURCE_UNAVAIL then unat sz else 0)"

lemma kernel_publish_step:
  assumes inv: "buffer_invar s" and step: "kernel_publish r s = (err, s')"
  shows "buffer_invar s' \<and> used_bytes s' = used_bytes s + bytes_taken (r, err)"
proof (cases r)
  case (fields t m sz)
  obtain ds where pub: "ipc_publish_message_zero_copy (Some t) (Some m) sz 1 0 s = (err, s', ds)"
    using step fields by (auto simp: kernel_publish_def split: prod.splits)
  show ?thesis
  proof (cases "256 < unat sz \<and> unat sz \<le> 4096")
    case True
    show ?thesis
    proof (cases "used_bytes s + unat sz \<le> 65536")
      case room: True
      obtain s1 where s1: "buffer_invar s1" "used_bytes s1 = used_bytes s + unat sz"
        "ipc_publish_message_zero_copy (Some t) (Some m) sz 1 0 s =
           ipc_route_message_zero_copy t (large_desc sz 1 s) s1"
        using publish_large [OF inv _ _ room] True by metis
      then have "ki_shared_buffer s' = ki_shared_buffer s1" "ki_initialized s' = ki_initialized s1"
        "error_code err \<noteq> ERR_SYS_RESOURCE_UNAVAIL"
        using pub route_fields by metis+
      then show ?thesis
        using s1 True fields by (simp add: buffer_invar_def used_bytes_def bytes_taken_def)
    next
      case False
      have small: "unat (ucast sz :: u32) \<le> 65536" "unat (ucast sz :: u32) = unat sz"
        using True by (simp_all add: unat_ucast_size)
      have "ipc_alloc_shared_buffer (ucast sz) True True s = (ipc_high ERR_SYS_RESOURCE_UNAVAIL, None, s)"
        using alloc_shared_small(1) [OF inv small(1)] False small(2) by simp
      moreover have "256 < sz" "\<not> IPC_MAX_MESSAGE_SIZE < sz" "sz \<noteq> 0"
        using True by (auto simp: word_less_nat_alt IPC_MAX_MESSAGE_SIZE_def)
      ultimately show ?thesis
        using pub inv fields
        by (auto simp: ipc_publish_message_zero_copy_def buffer_invar_def bytes_taken_def)
    qed
  next
    case False
    then have "\<not> (256 < sz \<and> \<not> IPC_MAX_MESSAGE_SIZE < sz)"
      by (auto simp: word_less_nat_alt IPC_MAX_MESSAGE_SIZE_def)
    then have "s' = s"
      using pub inv by (auto simp: ipc_publish_message_zero_copy_def buffer_invar_def split: if_splits)
    then show ?thesis
      using False inv fields by (auto simp: bytes_taken_def)
  qed
qed

lemma kernel_publish_run:
  "buffer_invar s \<Longrightarrow> run_calls kernel_publish reqs s = (errs, s') \<Longrightarrow>
   buffer_invar s' \<and> used_bytes s' = used_bytes s + sum_list (map bytes_taken (zip reqs errs))"
proof (induction reqs arbitrary: s errs s')
  case Nil
  then show ?case by simp
next
  case (Cons r reqs)
  obtain err s1 where step: "kernel_publish r s = (err, s1)" by (cases "kernel_publish r s")
  obtain errs1 where rest: "run_calls kernel_publish reqs s1 = (errs1, s')" "errs = err # errs1"
    using Cons.prems(2) step
    by (cases "run_calls kernel_publish reqs s1") (auto simp: Let_def)
  have inv1: "buffer_invar s1" and used: "used_bytes s1 = used_bytes s + bytes_taken (r, err)"
    using kernel_publish_step [OF Cons.prems(1) step] by blast+
  show ?case
    using Cons.IH [OF inv1 rest(1)] used rest(2) by simp
qed

text \<open>The shared buffer is never reclaimed: over any sequence of publish calls the bytes of
  all large messages that were not refused for lack of room add up to at most 64 KB, delivered
  or not, so that after at most 255 large messages every further one of more than the
  remaining bytes fails forever.\<close>

theorem shared_buffer_exhausts:
  assumes "buffer_invar s"
  shows "case run_calls kernel_publish reqs s of (errs, s') \<Rightarrow>
    used_bytes s' = used_bytes s + sum_list (map bytes_taken (zip reqs errs)) \<and> used_bytes s' \<le> 65536"
proof -
  obtain errs s' where run: "run_calls kernel_publish reqs s = (errs, s')"
    by (cases "run_calls kernel_publish reqs s")
  then show ?thesis
    using kernel_publish_run [OF assms run] by (simp add: buffer_invar_def used_bytes_def)
qed

theorem shared_buffer_exhausts_witness:
  "used_bytes (snd (run_calls kernel_publish [(''x/y/z'', [], 4096)] ipc_started)) \<le> 65536"
proof -
  let ?r = "run_calls kernel_publish [(''x/y/z'', [], 4096)] ipc_started"
  obtain errs s' where r: "?r = (errs, s')" by (cases ?r)
  show ?thesis
    using shared_buffer_exhausts [OF ipc_started_invar(1), of "[(''x/y/z'', [], 4096)]"]
    unfolding r by simp
qed

end
