(* ===== verification/Hw_Platform.thy ===== *)
theory Hw_Platform
  imports System_Errors
begin

text \<open>
  The board support of platform/bsp: hw_timer.c, hw_rtc.c and hw_watchdog.c with their headers.
  The platform functions that these files define as stubs are modelled as they stand.  The self
  tests are declared in the headers and defined nowhere; the error they return is an argument.
  A function pointer and its context are opaque numbers, and a call through one is returned as
  the pair (pointer, context).
\<close>

type_synonym callback_call = "nat \<times> nat"

section \<open>Timer\<close>

datatype hw_timer_mode_t = TIMER_MODE_PERIODIC | TIMER_MODE_ONESHOT | TIMER_MODE_FREE_RUNNING

record hw_timer_state =
  tm_initialized :: bool
  tm_frequency_hz :: u32
  tm_mode :: hw_timer_mode_t
  tm_callback :: "nat option"
  tm_callback_context :: nat
  tm_base_counter :: u64

definition HW_TIMER_MIN_FREQUENCY_HZ :: u32 where "HW_TIMER_MIN_FREQUENCY_HZ = 1000"
definition HW_TIMER_MAX_FREQUENCY_HZ :: u32 where "HW_TIMER_MAX_FREQUENCY_HZ = 1000000"

definition hw_timer_boot :: hw_timer_state where
  "hw_timer_boot = \<lparr>tm_initialized = False, tm_frequency_hz = 0, tm_mode = TIMER_MODE_PERIODIC,
     tm_callback = None, tm_callback_context = 0, tm_base_counter = 0\<rparr>"

definition timer_ok :: system_error where
  "timer_ok = system_error_create ERR_SYS_OK ERROR_CATEGORY_SYSTEM ERROR_SEVERITY_LOW MODULE_ID_HW_TIMER"

definition hw_timer_platform_init :: "u32 \<Rightarrow> hw_timer_mode_t \<Rightarrow> system_error" where
  "hw_timer_platform_init frequency_hz mode = timer_ok"

definition hw_timer_platform_deinit :: system_error where
  "hw_timer_platform_deinit = timer_ok"

definition hw_timer_platform_get_counter :: u64 where
  "hw_timer_platform_get_counter = 0"

text \<open>A failed self test calls \<open>hw_timer_platform_deinit\<close>, which changes nothing, and returns its own
  error.\<close>

definition hw_timer_init ::
  "system_error \<Rightarrow> u32 \<Rightarrow> hw_timer_mode_t \<Rightarrow> hw_timer_state \<Rightarrow> system_error \<times> hw_timer_state" where
  "hw_timer_init self_test frequency_hz mode tm =
     (if tm_initialized tm then
        (system_error_create ERR_SYS_ALREADY_INIT ERROR_CATEGORY_SYSTEM ERROR_SEVERITY_MEDIUM
           MODULE_ID_HW_TIMER, tm)
      else if frequency_hz < HW_TIMER_MIN_FREQUENCY_HZ \<or> HW_TIMER_MAX_FREQUENCY_HZ < frequency_hz then
        (system_error_create ERR_SYS_INVALID_PARAM ERROR_CATEGORY_SYSTEM ERROR_SEVERITY_HIGH
           MODULE_ID_HW_TIMER, tm)
      else
        let tm1 = hw_timer_boot\<lparr>tm_frequency_hz := frequency_hz, tm_mode := mode\<rparr>;
            error = hw_timer_platform_init frequency_hz mode
        in if error_code error \<noteq> ERR_SYS_OK then (error, tm1)
           else if error_code self_test \<noteq> ERR_SYS_OK then (self_test, tm1)
           else (timer_ok, tm1\<lparr>tm_initialized := True\<rparr>))"

definition hw_timer_get_counter :: "hw_timer_state \<Rightarrow> u64" where
  "hw_timer_get_counter tm =
     (if \<not> tm_initialized tm then 0 else hw_timer_platform_get_counter + tm_base_counter tm)"

definition hw_timer_get_frequency :: "hw_timer_state \<Rightarrow> u64" where
  "hw_timer_get_frequency tm = (if tm_initialized tm then ucast (tm_frequency_hz tm) else 0)"

definition hw_timer_set_interrupt_callback ::
  "nat option \<Rightarrow> nat \<Rightarrow> hw_timer_state \<Rightarrow> system_error \<times> hw_timer_state" where
  "hw_timer_set_interrupt_callback callback ctxt tm =
     (if \<not> tm_initialized tm then
        (system_error_create ERR_SYS_NOT_INIT ERROR_CATEGORY_SYSTEM ERROR_SEVERITY_HIGH
           MODULE_ID_HW_TIMER, tm)
      else (timer_ok, tm\<lparr>tm_callback := callback, tm_callback_context := ctxt\<rparr>))"

definition hw_timer_interrupt_handler :: "hw_timer_state \<Rightarrow> hw_timer_state \<times> callback_call list" where
  "hw_timer_interrupt_handler tm =
     (let calls = (case tm_callback tm of
                     Some cb \<Rightarrow> if tm_initialized tm then [(cb, tm_callback_context tm)] else []
                   | None \<Rightarrow> [])
      in (if tm_mode tm = TIMER_MODE_FREE_RUNNING
          then tm\<lparr>tm_base_counter := tm_base_counter tm + push_bit 32 1\<rparr> else tm, calls))"

text \<open>After an interrupt of a free-running timer the counter is 4294967296 ticks further, whatever
  time has passed, and between interrupts it stands still.\<close>

lemma timer_counter_after_interrupt:
  assumes "tm_initialized tm" "tm_mode tm = TIMER_MODE_FREE_RUNNING"
  shows "hw_timer_get_counter (fst (hw_timer_interrupt_handler tm)) =
         hw_timer_get_counter tm + 4294967296"
  using assms
  by (simp add: hw_timer_get_counter_def hw_timer_interrupt_handler_def Let_def push_bit_eq_mult)

fun timer_interrupts :: "nat \<Rightarrow> hw_timer_state \<Rightarrow> hw_timer_state" where
  "timer_interrupts 0 tm = tm"
| "timer_interrupts (Suc n) tm = timer_interrupts n (fst (hw_timer_interrupt_handler tm))"

lemma interrupt_handler_fields [simp]:
  "tm_initialized (fst (hw_timer_interrupt_handler tm)) = tm_initialized tm"
  "tm_mode (fst (hw_timer_interrupt_handler tm)) = tm_mode tm"
  "tm_frequency_hz (fst (hw_timer_interrupt_handler tm)) = tm_frequency_hz tm"
  by (simp_all add: hw_timer_interrupt_handler_def Let_def)

text \<open>An initialised free-running timer reads \<open>n * 2^32\<close> modulo \<open>2^64\<close> after n interrupts: the
  counter is a multiple of 2^32, so it has the resolution of one step in 4295 seconds at 1 MHz.
\<close>

theorem free_running_counter:
  assumes "error_code self_test = ERR_SYS_OK" "1000 \<le> unat frequency" "unat frequency \<le> 1000000"
  shows "case hw_timer_init self_test frequency TIMER_MODE_FREE_RUNNING hw_timer_boot of (e, tm) \<Rightarrow>
    error_code e = ERR_SYS_OK \<and> hw_timer_get_frequency tm = ucast frequency \<and>
    hw_timer_get_counter (timer_interrupts n tm) = of_nat n * 4294967296"
proof -
  have run: "hw_timer_get_counter (timer_interrupts n tm) = hw_timer_get_counter tm + of_nat n * 4294967296"
    if "tm_initialized tm" "tm_mode tm = TIMER_MODE_FREE_RUNNING" for tm
    using that
  proof (induction n arbitrary: tm)
    case (Suc n)
    then show ?case by (simp add: timer_counter_after_interrupt algebra_simps)
  qed simp
  have "\<not> frequency < HW_TIMER_MIN_FREQUENCY_HZ" "\<not> HW_TIMER_MAX_FREQUENCY_HZ < frequency"
    using assms by (simp_all add: word_less_nat_alt HW_TIMER_MIN_FREQUENCY_HZ_def HW_TIMER_MAX_FREQUENCY_HZ_def)
  then show ?thesis
    using assms(1)
    by (simp add: hw_timer_init_def hw_timer_platform_init_def timer_ok_def Let_def run
        hw_timer_get_frequency_def)
       (simp add: hw_timer_boot_def hw_timer_get_counter_def hw_timer_platform_get_counter_def)
qed

lemma free_running_counter_witness:
  "case hw_timer_init timer_ok 1000000 TIMER_MODE_FREE_RUNNING hw_timer_boot of (e, tm) \<Rightarrow>
    error_code e = ERR_SYS_OK \<and> hw_timer_get_frequency tm = ucast (1000000 :: u32) \<and>
    hw_timer_get_counter (timer_interrupts 2 tm) = of_nat 2 * 4294967296"
  by (rule free_running_counter) (simp_all add: timer_ok_def)

section \<open>Real-time clock\<close>

definition MODULE_ID_BSP :: u16 where "MODULE_ID_BSP = 0x50"

definition rtc_ok :: system_error where
  "rtc_ok = system_error_create ERR_BASE_OK ERROR_CATEGORY_MODULE ERROR_SEVERITY_LOW MODULE_ID_BSP"

definition hw_rtc_init :: system_error where "hw_rtc_init = rtc_ok"
definition hw_rtc_get_counter :: u64 where "hw_rtc_get_counter = 0"
definition hw_rtc_set_time :: "u64 \<Rightarrow> system_error" where "hw_rtc_set_time time_us = rtc_ok"
definition hw_rtc_is_available :: bool where "hw_rtc_is_available = False"

section \<open>Watchdog\<close>

datatype hw_watchdog_state_t =
    WATCHDOG_STATE_DISABLED
  | WATCHDOG_STATE_ARMED
  | WATCHDOG_STATE_TRIGGERED
  | WATCHDOG_STATE_FAULT

record hw_watchdog_state =
  wd_initialized :: bool
  wd_timeout_ms :: u32
  wd_state :: hw_watchdog_state_t
  wd_timeout_callback :: "nat option"
  wd_timeout_callback_context :: nat
  wd_last_pet_time :: u64

definition HW_WATCHDOG_MIN_TIMEOUT_MS :: u32 where "HW_WATCHDOG_MIN_TIMEOUT_MS = 10"
definition HW_WATCHDOG_MAX_TIMEOUT_MS :: u32 where "HW_WATCHDOG_MAX_TIMEOUT_MS = 10000"

definition hw_watchdog_boot :: hw_watchdog_state where
  "hw_watchdog_boot = \<lparr>wd_initialized = False, wd_timeout_ms = 0, wd_state = WATCHDOG_STATE_DISABLED,
     wd_timeout_callback = None, wd_timeout_callback_context = 0, wd_last_pet_time = 0\<rparr>"

definition hw_watchdog_ok :: system_error where
  "hw_watchdog_ok = system_error_create ERR_BASE_OK ERROR_CATEGORY_SUCCESS ERROR_SEVERITY_LOW MODULE_ID_HW_WATCHDOG"

definition hw_watchdog_platform_init :: "u32 \<Rightarrow> system_error" where
  "hw_watchdog_platform_init timeout_ms = hw_watchdog_ok"

definition hw_watchdog_platform_deinit :: system_error where
  "hw_watchdog_platform_deinit = hw_watchdog_ok"

definition hw_watchdog_platform_pet :: system_error where
  "hw_watchdog_platform_pet = hw_watchdog_ok"

definition hw_watchdog_init ::
  "system_error \<Rightarrow> u32 \<Rightarrow> hw_watchdog_state \<Rightarrow> system_error \<times> hw_watchdog_state" where
  "hw_watchdog_init self_test timeout_ms wd =
     (if wd_initialized wd then
        (system_error_create ERR_SYS_ALREADY_INIT ERROR_CATEGORY_SYSTEM ERROR_SEVERITY_HIGH
           MODULE_ID_HW_WATCHDOG, wd)
      else if timeout_ms < HW_WATCHDOG_MIN_TIMEOUT_MS \<or> HW_WATCHDOG_MAX_TIMEOUT_MS < timeout_ms then
        (system_error_create ERR_SYS_INVALID_PARAM ERROR_CATEGORY_SYSTEM ERROR_SEVERITY_HIGH
           MODULE_ID_HW_WATCHDOG, wd)
      else
        let wd1 = hw_watchdog_boot\<lparr>wd_timeout_ms := timeout_ms, wd_state := WATCHDOG_STATE_DISABLED\<rparr>;
            error = hw_watchdog_platform_init timeout_ms
        in if error_code error \<noteq> ERR_BASE_OK then (error, wd1)
           else if error_code self_test \<noteq> ERR_BASE_OK then (self_test, wd1)
           else (hw_watchdog_ok, wd1\<lparr>wd_initialized := True\<rparr>))"

definition hw_watchdog_pet :: "hw_timer_state \<Rightarrow> hw_watchdog_state \<Rightarrow> system_error \<times> hw_watchdog_state" where
  "hw_watchdog_pet tm wd =
     (if \<not> wd_initialized wd then
        (system_error_create ERR_SYS_NOT_INITIALIZED ERROR_CATEGORY_SYSTEM ERROR_SEVERITY_HIGH
           MODULE_ID_HW_WATCHDOG, wd)
      else if wd_state wd \<noteq> WATCHDOG_STATE_ARMED then
        (system_error_create ERR_BASE_INVALID_SIZE ERROR_CATEGORY_SYSTEM ERROR_SEVERITY_MEDIUM
           MODULE_ID_HW_WATCHDOG, wd)
      else
        let error = hw_watchdog_platform_pet
        in (error, if error_code error = ERR_BASE_OK
                   then wd\<lparr>wd_last_pet_time := hw_timer_get_counter tm\<rparr> else wd))"

definition hw_watchdog_timeout_handler :: "hw_watchdog_state \<Rightarrow> hw_watchdog_state \<times> callback_call list" where
  "hw_watchdog_timeout_handler wd =
     (if wd_initialized wd then
        (wd\<lparr>wd_state := WATCHDOG_STATE_TRIGGERED\<rparr>,
         case wd_timeout_callback wd of
           Some cb \<Rightarrow> [(cb, wd_timeout_callback_context wd)] | None \<Rightarrow> [])
      else (wd, []))"

text \<open>Every order of the three operations.\<close>

inductive hw_watchdog_reachable :: "hw_watchdog_state \<Rightarrow> bool" where
  wd_boot: "hw_watchdog_reachable hw_watchdog_boot"
| wd_init: "hw_watchdog_reachable wd \<Longrightarrow> hw_watchdog_reachable (snd (hw_watchdog_init self_test t wd))"
| wd_pet: "hw_watchdog_reachable wd \<Longrightarrow> hw_watchdog_reachable (snd (hw_watchdog_pet tm wd))"
| wd_timeout: "hw_watchdog_reachable wd \<Longrightarrow> hw_watchdog_reachable (fst (hw_watchdog_timeout_handler wd))"

lemma hw_watchdog_invariant:
  "hw_watchdog_reachable wd \<Longrightarrow>
   wd_state wd \<in> {WATCHDOG_STATE_DISABLED, WATCHDOG_STATE_TRIGGERED} \<and> wd_last_pet_time wd = 0 \<and>
   wd_timeout_callback wd = None \<and>
   (wd_initialized wd \<longrightarrow> wd_timeout_ms wd \<in> {10..10000})"
proof (induction rule: hw_watchdog_reachable.induct)
  case (wd_init wd self_test t)
  then show ?case
    by (auto simp: hw_watchdog_init_def Let_def hw_watchdog_boot_def not_less
        HW_WATCHDOG_MIN_TIMEOUT_MS_def HW_WATCHDOG_MAX_TIMEOUT_MS_def)
qed (auto simp: hw_watchdog_boot_def hw_watchdog_pet_def hw_watchdog_timeout_handler_def)

text \<open>The hardware watchdog cannot be fed.  In every state that its operations reach, it is
  DISABLED or TRIGGERED and never ARMED, every call of \<open>hw_watchdog_pet\<close> is refused and changes
  nothing, and a timeout calls no callback.
\<close>

theorem hw_watchdog_never_armed:
  assumes "hw_watchdog_reachable wd"
  shows "wd_state wd \<noteq> WATCHDOG_STATE_ARMED \<and> error_code (fst (hw_watchdog_pet tm wd)) \<noteq> ERR_BASE_OK \<and>
         snd (hw_watchdog_pet tm wd) = wd \<and> snd (hw_watchdog_timeout_handler wd) = []"
  using hw_watchdog_invariant [OF assms]
  by (auto simp: hw_watchdog_pet_def hw_watchdog_timeout_handler_def)

lemma hw_watchdog_never_armed_witness:
  "wd_state (snd (hw_watchdog_init hw_watchdog_ok 1000 hw_watchdog_boot)) \<noteq> WATCHDOG_STATE_ARMED \<and>
   error_code (fst (hw_watchdog_pet hw_timer_boot (snd (hw_watchdog_init hw_watchdog_ok 1000 hw_watchdog_boot)))) \<noteq> ERR_BASE_OK \<and>
   snd (hw_watchdog_pet hw_timer_boot (snd (hw_watchdog_init hw_watchdog_ok 1000 hw_watchdog_boot))) =
     snd (hw_watchdog_init hw_watchdog_ok 1000 hw_watchdog_boot) \<and>
   snd (hw_watchdog_timeout_handler (snd (hw_watchdog_init hw_watchdog_ok 1000 hw_watchdog_boot))) = []"
  by (rule hw_watchdog_never_armed [OF wd_init [OF wd_boot]])

end
