(* ===== verification/Kernel_Time.thy ===== *)
theory Kernel_Time
  imports Hw_Platform
begin

text \<open>
  The kernel time base of lib/time/time.h and time.c over the drivers of \<open>Hw_Platform\<close>.  An array
  indexed by \<open>time_source_t\<close> is a function from that type.  \<open>kernel_time_get_tick_count\<close> and
  \<open>validate_time_sources\<close> call each other; they are modelled with fuel, one unit for each call, and
  None is a call chain that is still open when the fuel is used up.  Calls of
  \<open>log_client_send_entry\<close> are returned in order.
\<close>

section \<open>State\<close>

datatype time_source_t = TIME_SOURCE_PRIMARY | TIME_SOURCE_SECONDARY | TIME_SOURCE_SOFTWARE

definition time_sources :: "time_source_t list" where
  "time_sources = [TIME_SOURCE_PRIMARY, TIME_SOURCE_SECONDARY, TIME_SOURCE_SOFTWARE]"

fun source_value :: "time_source_t \<Rightarrow> u32" where
  "source_value TIME_SOURCE_PRIMARY = 0"
| "source_value TIME_SOURCE_SECONDARY = 1"
| "source_value TIME_SOURCE_SOFTWARE = 2"

record kernel_time =
  boot_time_ticks :: "time_source_t \<Rightarrow> u64"
  tick_frequency :: "time_source_t \<Rightarrow> u64"
  source_initialized :: "time_source_t \<Rightarrow> bool"
  source_healthy :: "time_source_t \<Rightarrow> bool"
  active_source :: time_source_t
  last_validation_time :: u64
  source_fail_count :: "time_source_t \<Rightarrow> u32"
  cumulative_drift :: "time_source_t \<Rightarrow> u64"
  software_ticks :: u64
  hw_timer :: hw_timer_state

text \<open>The static variables before \<open>kernel_time_init\<close>.\<close>

definition kernel_time_boot :: kernel_time where
  "kernel_time_boot =
     \<lparr>boot_time_ticks = (\<lambda>_. 0), tick_frequency = (\<lambda>_. 0), source_initialized = (\<lambda>_. False),
      source_healthy = (\<lambda>_. False), active_source = TIME_SOURCE_PRIMARY, last_validation_time = 0,
      source_fail_count = (\<lambda>_. 0), cumulative_drift = (\<lambda>_. 0), software_ticks = 0,
      hw_timer = hw_timer_boot\<rparr>"

definition MODULE_ID_TIME :: u16 where "MODULE_ID_TIME = 0x6000"

definition time_error_success :: system_error where
  "time_error_success = system_error_create ERR_SYS_OK ERROR_CATEGORY_SYSTEM ERROR_SEVERITY_NONE MODULE_ID_TIME"

definition time_error_already_initialized :: system_error where
  "time_error_already_initialized =
     system_error_create ERR_SYS_ALREADY_INIT ERROR_CATEGORY_SYSTEM ERROR_SEVERITY_WARNING MODULE_ID_TIME"

definition time_error_invalid_parameter :: system_error where
  "time_error_invalid_parameter =
     system_error_create ERR_SYS_INVALID_PARAM ERROR_CATEGORY_SYSTEM ERROR_SEVERITY_MEDIUM MODULE_ID_TIME"

text \<open>Level, tag 100 (LOG_TAG_TIME), message, data.\<close>

definition time_log :: "u8 \<Rightarrow> u16 \<Rightarrow> u32 \<Rightarrow> u32 \<Rightarrow> log_call" where
  "time_log level msg a b = mk_log_call level 100 msg a b"

section \<open>The sources\<close>

definition source_ready :: "time_source_t \<Rightarrow> u64 \<Rightarrow> u64 \<Rightarrow> kernel_time \<Rightarrow> kernel_time" where
  "source_ready src boot freq s =
     s\<lparr>boot_time_ticks := (boot_time_ticks s)(src := boot),
       tick_frequency := (tick_frequency s)(src := freq),
       source_initialized := (source_initialized s)(src := True),
       source_healthy := (source_healthy s)(src := True)\<rparr>"

definition init_primary_time_source ::
  "system_error \<Rightarrow> kernel_time \<Rightarrow> system_error \<times> kernel_time \<times> log_call list" where
  "init_primary_time_source self_test s =
     (let (error, tm) = hw_timer_init self_test 1000000 TIMER_MODE_FREE_RUNNING (hw_timer s);
          s1 = s\<lparr>hw_timer := tm\<rparr>
      in if error_code error \<noteq> ERR_BASE_OK then (error, s1, [])
         else (time_error_success,
               source_ready TIME_SOURCE_PRIMARY (hw_timer_get_counter tm) (hw_timer_get_frequency tm) s1,
               [time_log 2 200 1000000 0]))"

definition init_secondary_time_source :: "kernel_time \<Rightarrow> system_error \<times> kernel_time \<times> log_call list" where
  "init_secondary_time_source s =
     (if error_code hw_rtc_init \<noteq> ERR_BASE_OK then (hw_rtc_init, s, [])
      else (time_error_success, source_ready TIME_SOURCE_SECONDARY hw_rtc_get_counter 32768 s,
            [time_log 2 201 32768 0]))"

definition init_software_time_source :: "kernel_time \<Rightarrow> system_error \<times> kernel_time \<times> log_call list" where
  "init_software_time_source s =
     (time_error_success, source_ready TIME_SOURCE_SOFTWARE 0 1000 s, [time_log 1 202 0 0])"

text \<open>The reading of a source since its start, in microseconds.\<close>

definition source_time_us :: "u64 \<Rightarrow> time_source_t \<Rightarrow> kernel_time \<Rightarrow> u64" where
  "source_time_us counter src s =
     (if source_healthy s src
      then (counter - boot_time_ticks s src) * 1000000 div tick_frequency s src else 0)"

section \<open>Validation\<close>

definition abs_diff :: "u64 \<Rightarrow> u64 \<Rightarrow> u64" where
  "abs_diff a b = (if b < a then a - b else b - a)"

definition bump_fail_count :: "time_source_t \<Rightarrow> kernel_time \<Rightarrow> kernel_time" where
  "bump_fail_count src s = s\<lparr>source_fail_count := (source_fail_count s)(src := source_fail_count s src + 1)\<rparr>"

definition check_drift :: "u64 \<Rightarrow> u64 \<Rightarrow> kernel_time \<Rightarrow> kernel_time \<times> log_call list" where
  "check_drift primary_time secondary_time s =
     (if source_healthy s TIME_SOURCE_PRIMARY \<and> source_healthy s TIME_SOURCE_SECONDARY then
        let drift = abs_diff primary_time secondary_time;
            s1 = s\<lparr>cumulative_drift := (cumulative_drift s)
                     (TIME_SOURCE_PRIMARY := cumulative_drift s TIME_SOURCE_PRIMARY + drift,
                      TIME_SOURCE_SECONDARY := cumulative_drift s TIME_SOURCE_SECONDARY + drift)\<rparr>
        in if 1000 < drift then
             (bump_fail_count (if secondary_time < primary_time then TIME_SOURCE_PRIMARY
                               else TIME_SOURCE_SECONDARY) s1,
              [time_log 1 203 (ucast drift) (source_value (active_source s))])
           else (s1, [])
      else (s, []))"

definition fail_source :: "time_source_t \<Rightarrow> kernel_time \<Rightarrow> kernel_time \<times> log_call list" where
  "fail_source src s =
     (if 3 < source_fail_count s src
      then (s\<lparr>source_healthy := (source_healthy s)(src := False)\<rparr>,
            [time_log 1 204 (source_value src) (source_fail_count s src)])
      else (s, []))"

fun fail_sources :: "time_source_t list \<Rightarrow> kernel_time \<Rightarrow> kernel_time \<times> log_call list" where
  "fail_sources [] s = (s, [])"
| "fail_sources (src # srcs) s =
     (let (s1, log1) = fail_source src s; (s2, log2) = fail_sources srcs s1 in (s2, log1 @ log2))"

definition switch_source :: "kernel_time \<Rightarrow> kernel_time \<times> log_call list" where
  "switch_source s =
     (if source_healthy s (active_source s) then (s, [])
      else case find (\<lambda>i. source_healthy s i \<and> source_initialized s i) time_sources of
             None \<Rightarrow> (s, [])
           | Some i \<Rightarrow> (s\<lparr>active_source := i\<rparr>, [time_log 1 205 (source_value i) (source_value i)]))"

text \<open>The part of \<open>validate_time_sources\<close> that follows its first statement.\<close>

definition validate_at :: "u64 \<Rightarrow> kernel_time \<Rightarrow> system_error \<times> kernel_time \<times> log_call list" where
  "validate_at current_time s =
     (if current_time - last_validation_time s < 1000000 then (time_error_success, s, [])
      else
        let s0 = s\<lparr>last_validation_time := current_time\<rparr>;
            primary_time = source_time_us (hw_timer_get_counter (hw_timer s0)) TIME_SOURCE_PRIMARY s0;
            secondary_time = source_time_us hw_rtc_get_counter TIME_SOURCE_SECONDARY s0;
            (s1, log1) = check_drift primary_time secondary_time s0;
            (s2, log2) = fail_sources time_sources s1;
            (s3, log3) = switch_source s2
        in (time_error_success, s3, log1 @ log2 @ log3))"

text \<open>The switch at the end of \<open>kernel_time_get_tick_count\<close>.\<close>

definition read_active :: "kernel_time \<Rightarrow> u64 \<times> kernel_time" where
  "read_active s =
     (case active_source s of
        TIME_SOURCE_PRIMARY \<Rightarrow> (hw_timer_get_counter (hw_timer s) - boot_time_ticks s TIME_SOURCE_PRIMARY, s)
      | TIME_SOURCE_SECONDARY \<Rightarrow> (hw_rtc_get_counter - boot_time_ticks s TIME_SOURCE_SECONDARY, s)
      | TIME_SOURCE_SOFTWARE \<Rightarrow> (software_ticks s + 1, s\<lparr>software_ticks := software_ticks s + 1\<rparr>))"

fun kernel_time_get_tick_count :: "nat \<Rightarrow> kernel_time \<Rightarrow> (u64 \<times> kernel_time \<times> log_call list) option"
and validate_time_sources :: "nat \<Rightarrow> kernel_time \<Rightarrow> (system_error \<times> kernel_time \<times> log_call list) option" where
  "kernel_time_get_tick_count 0 s = None"
| "kernel_time_get_tick_count (Suc fuel) s =
     (if \<not> source_initialized s (active_source s) then Some (0, s, [])
      else case validate_time_sources fuel s of
             None \<Rightarrow> None
           | Some (_, s1, log1) \<Rightarrow> (case read_active s1 of (t, s2) \<Rightarrow> Some (t, s2, log1)))"
| "validate_time_sources 0 s = None"
| "validate_time_sources (Suc fuel) s =
     (case kernel_time_get_tick_count fuel s of
        None \<Rightarrow> None
      | Some (current_time, s1, log1) \<Rightarrow>
          (case validate_at current_time s1 of (e, s2, log2) \<Rightarrow> Some (e, s2, log1 @ log2)))"

section \<open>Initialisation\<close>

definition init_sources :: "system_error \<Rightarrow> kernel_time \<Rightarrow> kernel_time \<times> log_call list" where
  "init_sources self_test s =
     (let (error, s1, log1) = init_primary_time_source self_test s;
          s2 = (if error_code error = ERR_BASE_OK then s1\<lparr>active_source := TIME_SOURCE_PRIMARY\<rparr> else s1);
          (_, s3, log2) = init_secondary_time_source s2;
          (_, s4, log3) = init_software_time_source s3
      in (s4, log1 @ log2 @ log3))"

definition kernel_time_init ::
  "nat \<Rightarrow> system_error \<Rightarrow> kernel_time \<Rightarrow> (system_error \<times> kernel_time \<times> log_call list) option" where
  "kernel_time_init fuel self_test s =
     (if source_initialized s TIME_SOURCE_PRIMARY then Some (time_error_already_initialized, s, [])
      else
        let (s1, log1) = init_sources self_test s in
        case kernel_time_get_tick_count fuel s1 of
          None \<Rightarrow> None
        | Some (t, s2, log2) \<Rightarrow>
            Some (if active_source s2 \<noteq> TIME_SOURCE_SOFTWARE then time_error_success
                  else system_error_create ERR_SYS_CONFIG_ERROR ERROR_CATEGORY_SYSTEM
                         ERROR_SEVERITY_WARNING MODULE_ID_TIME,
                  s2\<lparr>last_validation_time := t\<rparr>, log1 @ log2))"

section \<open>Clients of the tick count\<close>

definition kernel_time_get_uptime_us :: "nat \<Rightarrow> kernel_time \<Rightarrow> (u64 \<times> kernel_time \<times> log_call list) option" where
  "kernel_time_get_uptime_us fuel s = kernel_time_get_tick_count fuel s"

definition kernel_time_get_uptime_ms :: "nat \<Rightarrow> kernel_time \<Rightarrow> (u32 \<times> kernel_time \<times> log_call list) option" where
  "kernel_time_get_uptime_ms fuel s =
     map_option (\<lambda>(t, r). (ucast (t div 1000), r)) (kernel_time_get_uptime_us fuel s)"

text \<open>The busy-wait loop: \<open>rounds\<close> bounds its iterations, \<open>fuel\<close> each reading; the log calls of the
  readings are collected.\<close>

fun delay_loop :: "nat \<Rightarrow> nat \<Rightarrow> u64 \<Rightarrow> u32 \<Rightarrow> kernel_time \<Rightarrow> (kernel_time \<times> log_call list) option" where
  "delay_loop 0 fuel start us s = None"
| "delay_loop (Suc rounds) fuel start us s =
     (case kernel_time_get_tick_count fuel s of
        None \<Rightarrow> None
      | Some (t, s1, log1) \<Rightarrow>
          if t - start < ucast us
          then map_option (\<lambda>(s2, log2). (s2, log1 @ log2)) (delay_loop rounds fuel start us s1)
          else Some (s1, log1))"

definition kernel_time_delay_us :: "nat \<Rightarrow> nat \<Rightarrow> u32 \<Rightarrow> kernel_time \<Rightarrow> (kernel_time \<times> log_call list) option" where
  "kernel_time_delay_us rounds fuel us s =
     (case kernel_time_get_tick_count fuel s of
        None \<Rightarrow> None
      | Some (start, s1, log1) \<Rightarrow>
          map_option (\<lambda>(s2, log2). (s2, log1 @ log2)) (delay_loop rounds fuel start us s1))"

definition kernel_time_delay_ms :: "nat \<Rightarrow> nat \<Rightarrow> u32 \<Rightarrow> kernel_time \<Rightarrow> (kernel_time \<times> log_call list) option" where
  "kernel_time_delay_ms rounds fuel ms s = kernel_time_delay_us rounds fuel (ms * 1000) s"

definition kernel_time_get_interrupt_start :: "nat \<Rightarrow> kernel_time \<Rightarrow> (u64 \<times> kernel_time \<times> log_call list) option" where
  "kernel_time_get_interrupt_start fuel s = kernel_time_get_tick_count fuel s"

text \<open>The computation of \<open>kernel_time_calculate_latency\<close> on the two readings.\<close>

definition latency_between :: "u64 \<Rightarrow> u64 \<Rightarrow> u64" where
  "latency_between start_time end_time =
     (if start_time \<le> end_time then end_time - start_time else (- 1 - start_time) + end_time + 1)"

definition kernel_time_calculate_latency :: "nat \<Rightarrow> u64 \<Rightarrow> kernel_time \<Rightarrow> (u64 \<times> kernel_time \<times> log_call list) option" where
  "kernel_time_calculate_latency fuel start_time s =
     map_option (\<lambda>(end_time, r). (latency_between start_time end_time, r)) (kernel_time_get_tick_count fuel s)"

record time_source_health =
  health_initialized :: "time_source_t \<Rightarrow> bool"
  health_healthy :: "time_source_t \<Rightarrow> bool"
  health_fail_count :: "time_source_t \<Rightarrow> u32"
  health_drift :: "time_source_t \<Rightarrow> u64"
  health_active :: time_source_t
  system_healthy :: bool

definition kernel_time_get_health_info :: "bool \<Rightarrow> kernel_time \<Rightarrow> system_error \<times> time_source_health option" where
  "kernel_time_get_health_info info_given s =
     (if \<not> info_given then (time_error_invalid_parameter, None)
      else (time_error_success,
            Some \<lparr>health_initialized = source_initialized s, health_healthy = source_healthy s,
                  health_fail_count = source_fail_count s, health_drift = cumulative_drift s,
                  health_active = active_source s,
                  system_healthy = (active_source s \<noteq> TIME_SOURCE_SOFTWARE)\<rparr>))"

section \<open>The clock never answers\<close>

lemma tick_count_open:
  assumes "source_initialized s (active_source s)"
  shows "kernel_time_get_tick_count fuel s = None \<and> validate_time_sources fuel s = None"
  using assms by (induction fuel) simp_all

lemma tick_count_uninitialised:
  "\<not> source_initialized s (active_source s) \<Longrightarrow> kernel_time_get_tick_count (Suc fuel) s = Some (0, s, [])"
  by simp

lemma init_sources_active:
  assumes "error_code self_test = ERR_SYS_OK"
  shows "case init_sources self_test kernel_time_boot of (s, logs) \<Rightarrow>
    active_source s = TIME_SOURCE_PRIMARY \<and> source_initialized s TIME_SOURCE_PRIMARY"
  using assms
  by (simp add: init_sources_def init_primary_time_source_def init_secondary_time_source_def
      init_software_time_source_def hw_timer_init_def kernel_time_boot_def hw_timer_boot_def Let_def
      HW_TIMER_MIN_FREQUENCY_HZ_def HW_TIMER_MAX_FREQUENCY_HZ_def hw_timer_platform_init_def timer_ok_def
      source_ready_def time_error_success_def hw_rtc_init_def rtc_ok_def)

lemma all_but_primary:
  "(\<lambda>_. False)(TIME_SOURCE_SECONDARY := True, TIME_SOURCE_SOFTWARE := True) =
   (\<lambda>i. i \<noteq> TIME_SOURCE_PRIMARY)"
proof
  fix i show "((\<lambda>_. False)(TIME_SOURCE_SECONDARY := True, TIME_SOURCE_SOFTWARE := True)) i =
    (i \<noteq> TIME_SOURCE_PRIMARY)" by (cases i) simp_all
qed

lemma init_sources_failed:
  assumes "error_code self_test \<noteq> ERR_SYS_OK"
  shows "case init_sources self_test kernel_time_boot of (s, logs) \<Rightarrow>
    active_source s = TIME_SOURCE_PRIMARY \<and>
    source_initialized s = (\<lambda>i. i \<noteq> TIME_SOURCE_PRIMARY) \<and>
    source_healthy s = (\<lambda>i. i \<noteq> TIME_SOURCE_PRIMARY)"
  using assms
  by (simp add: init_sources_def init_primary_time_source_def init_secondary_time_source_def
      init_software_time_source_def hw_timer_init_def kernel_time_boot_def hw_timer_boot_def Let_def
      HW_TIMER_MIN_FREQUENCY_HZ_def HW_TIMER_MAX_FREQUENCY_HZ_def hw_timer_platform_init_def timer_ok_def
      source_ready_def all_but_primary time_error_success_def hw_rtc_init_def rtc_ok_def)

text \<open>C10: From power-on, \<open>kernel_time_init\<close> has two outcomes.  If the timer passes its self test the
  call never returns.  If it fails, the call reports success; the secondary and the software source
  are then initialised and healthy and the primary source is neither, but the primary source
  is the active one, and every later reading of the clock is 0.
\<close>

theorem kernel_time_init_outcomes:
  "if error_code self_test = ERR_SYS_OK then kernel_time_init fuel self_test kernel_time_boot = None
   else case kernel_time_init (Suc fuel) self_test kernel_time_boot of
          None \<Rightarrow> False
        | Some (e, s, _) \<Rightarrow>
            error_code e = ERR_SYS_OK \<and> active_source s = TIME_SOURCE_PRIMARY \<and>
            source_initialized s = (\<lambda>i. i \<noteq> TIME_SOURCE_PRIMARY) \<and>
            source_healthy s = (\<lambda>i. i \<noteq> TIME_SOURCE_PRIMARY) \<and>
            kernel_time_get_tick_count (Suc fuel) s = Some (0, s, [])"
proof -
  have nb: "\<not> source_initialized kernel_time_boot TIME_SOURCE_PRIMARY"
    by (simp add: kernel_time_boot_def)
  obtain s1 log1 where i: "init_sources self_test kernel_time_boot = (s1, log1)"
    by (cases "init_sources self_test kernel_time_boot")
  show ?thesis
  proof (cases "error_code self_test = ERR_SYS_OK")
    case True
    then have "source_initialized s1 (active_source s1)"
      using init_sources_active [OF True] i by simp
    then show ?thesis
      using True nb tick_count_open [of s1 fuel] by (simp add: kernel_time_init_def i)
  next
    case False
    then show ?thesis
      using init_sources_failed [OF False] nb i
      by (simp add: kernel_time_init_def time_error_success_def)
  qed
qed

text \<open>The shortest start of the system: the timer passes its self test and the sources are set up.\<close>

definition sources_started :: kernel_time where
  "sources_started = fst (init_sources timer_ok kernel_time_boot)"

lemma sources_started_active:
  "active_source sources_started = TIME_SOURCE_PRIMARY"
  "source_initialized sources_started TIME_SOURCE_PRIMARY"
  using init_sources_active [of timer_ok]
  by (auto simp: sources_started_def timer_ok_def split: prod.splits)

text \<open>Once the active source is initialised, reading the clock does not terminate: the validation
  that each reading starts reads the clock first.  No amount of fuel gives a result, for any of
  the functions that read the clock.
\<close>

theorem tick_count_diverges:
  assumes "source_initialized s (active_source s)"
  shows "kernel_time_get_tick_count fuel s = None \<and> validate_time_sources fuel s = None \<and>
         kernel_time_get_uptime_us fuel s = None \<and> kernel_time_get_uptime_ms fuel s = None \<and>
         kernel_time_calculate_latency fuel start_time s = None"
  using tick_count_open [OF assms, of fuel]
  by (simp add: kernel_time_get_uptime_us_def kernel_time_get_uptime_ms_def kernel_time_calculate_latency_def)

lemma tick_count_diverges_witness:
  "kernel_time_get_tick_count 1000000 sources_started = None \<and> validate_time_sources 1000000 sources_started = None \<and>
   kernel_time_get_uptime_us 1000000 sources_started = None \<and> kernel_time_get_uptime_ms 1000000 sources_started = None \<and>
   kernel_time_calculate_latency 1000000 0 sources_started = None"
  by (rule tick_count_diverges) (simp add: sources_started_active)

lemma delay_loop_stuck:
  assumes "\<not> source_initialized s (active_source s)" "0 < us"
  shows "delay_loop rounds fuel 0 us s = None"
proof (induction rounds)
  case (Suc rounds)
  have "0 < (ucast us :: u64)"
    using assms(2) by (simp add: word_less_nat_alt unat_ucast_u32_u64)
  then show ?case
    using Suc assms(1) by (cases fuel) auto
qed simp

text \<open>The busy-wait, for the callers of the delay.\<close>

lemma delay_stuck:
  assumes "0 < us"
  shows "kernel_time_delay_us rounds fuel us s = None"
proof (cases "source_initialized s (active_source s)")
  case True
  then show ?thesis using tick_count_open [of s fuel] by (simp add: kernel_time_delay_us_def)
next
  case False
  then show ?thesis
    using delay_loop_stuck [OF False assms] by (cases fuel) (simp_all add: kernel_time_delay_us_def)
qed

text \<open>C32: \<open>kernel_time_delay_us\<close> with a positive time never returns, in any state of the clock: with
  an initialised source each reading diverges, and without one the clock stands at 0 and the
  busy-wait loop does not end, however many rounds it makes.
\<close>

theorem delay_never_returns:
  assumes "0 < us"
  shows "kernel_time_delay_us rounds fuel us s = None"
  using assms by (rule delay_stuck)

lemma delay_never_returns_witness: "kernel_time_delay_us 1000 1000 100 kernel_time_boot = None"
  by (rule delay_never_returns) simp

text \<open>The latency computation is the difference modulo \<open>2^64\<close> in both branches: the branch for an
  overflow gives what the plain subtraction gives.
\<close>

theorem latency_between_is_difference:
  "latency_between start_time end_time = end_time - start_time \<and>
   int (unat (latency_between start_time end_time)) = (int (unat end_time) - int (unat start_time)) mod 2 ^ 64"
proof -
  have d: "latency_between start_time end_time = end_time - start_time"
    by (simp add: latency_between_def algebra_simps)
  have "int (unat (end_time - start_time)) = (int (unat end_time) - int (unat start_time)) mod 2 ^ 64"
    by (simp only: uint_nat [symmetric] uint_word_ariths) simp
  with d show ?thesis by simp
qed

section \<open>Validation, given a reading of the clock\<close>

lemma fail_source_simps [simp]:
  "source_fail_count (fst (fail_source src s)) = source_fail_count s"
  "source_initialized (fst (fail_source src s)) = source_initialized s"
  "active_source (fst (fail_source src s)) = active_source s"
  "source_healthy (fst (fail_source src s)) =
     (\<lambda>i. source_healthy s i \<and> (i = src \<longrightarrow> source_fail_count s i \<le> 3))"
  by (auto simp: fail_source_def fun_eq_iff not_less)

lemma fail_sources_all:
  "source_fail_count (fst (fail_sources srcs s)) = source_fail_count s \<and>
   source_initialized (fst (fail_sources srcs s)) = source_initialized s \<and>
   active_source (fst (fail_sources srcs s)) = active_source s \<and>
   source_healthy (fst (fail_sources srcs s)) =
     (\<lambda>i. source_healthy s i \<and> (i \<in> set srcs \<longrightarrow> source_fail_count s i \<le> 3))"
proof (induction srcs arbitrary: s)
  case (Cons src srcs)
  have "fst (fail_sources (src # srcs) s) = fst (fail_sources srcs (fst (fail_source src s)))"
    by (simp add: Let_def case_prod_unfold)
  then show ?case using Cons.IH [of "fst (fail_source src s)"] by (auto simp: fun_eq_iff)
qed simp

lemmas fail_sources_fields =
  fail_sources_all [THEN conjunct1]
  fail_sources_all [THEN conjunct2, THEN conjunct1]
  fail_sources_all [THEN conjunct2, THEN conjunct2, THEN conjunct1]
  fail_sources_all [THEN conjunct2, THEN conjunct2, THEN conjunct2]

lemma set_time_sources [simp]: "i \<in> set time_sources"
  by (cases i) (simp_all add: time_sources_def)

lemma find_time_sources:
  "find P time_sources =
     (if P TIME_SOURCE_PRIMARY then Some TIME_SOURCE_PRIMARY
      else if P TIME_SOURCE_SECONDARY then Some TIME_SOURCE_SECONDARY
      else if P TIME_SOURCE_SOFTWARE then Some TIME_SOURCE_SOFTWARE else None)"
  by (simp add: time_sources_def)

lemma check_drift_fields [simp]:
  "source_initialized (fst (check_drift a b s)) = source_initialized s"
  "active_source (fst (check_drift a b s)) = active_source s"
  "source_healthy (fst (check_drift a b s)) = source_healthy s"
  by (simp_all add: check_drift_def Let_def bump_fail_count_def)

lemma switch_source_fields [simp]:
  "source_initialized (fst (switch_source s)) = source_initialized s"
  "source_healthy (fst (switch_source s)) = source_healthy s"
  "source_fail_count (fst (switch_source s)) = source_fail_count s"
  by (simp_all add: switch_source_def split: option.splits)

lemma validate_at_state:
  assumes "1000000 \<le> t - last_validation_time s"
  shows "fst (snd (validate_at t s)) =
    (let s0 = s\<lparr>last_validation_time := t\<rparr>
     in fst (switch_source (fst (fail_sources time_sources (fst (check_drift
          (source_time_us (hw_timer_get_counter (hw_timer s0)) TIME_SOURCE_PRIMARY s0)
          (source_time_us hw_rtc_get_counter TIME_SOURCE_SECONDARY s0) s0))))))"
  using assms by (simp add: validate_at_def Let_def case_prod_unfold not_less)

text \<open>C29: A validation that is due keeps a source healthy exactly when it was healthy and its failure
  count is at most 3, keeps the active source while it is healthy, and otherwise takes the first
  healthy initialised source in the order of the enumeration, or none.
\<close>

theorem validation_selects_source:
  assumes "1000000 \<le> t - last_validation_time s"
  shows "case validate_at t s of (_, s', _) \<Rightarrow>
    source_healthy s' = (\<lambda>i. source_healthy s i \<and> source_fail_count s' i \<le> 3) \<and>
    active_source s' =
      (if source_healthy s' (active_source s) then active_source s
       else case find (\<lambda>i. source_healthy s' i \<and> source_initialized s i) time_sources of
              None \<Rightarrow> active_source s | Some i \<Rightarrow> i)"
proof -
  have "source_healthy (fst (snd (validate_at t s))) =
      (\<lambda>i. source_healthy s i \<and> source_fail_count (fst (snd (validate_at t s))) i \<le> 3)"
    by (simp add: validate_at_state [OF assms] Let_def fail_sources_fields)
  moreover have "active_source (fst (snd (validate_at t s))) =
      (if source_healthy (fst (snd (validate_at t s))) (active_source s) then active_source s
       else case find (\<lambda>i. source_healthy (fst (snd (validate_at t s))) i \<and> source_initialized s i) time_sources of
              None \<Rightarrow> active_source s | Some i \<Rightarrow> i)"
    by (simp add: validate_at_state [OF assms] Let_def fail_sources_fields)
       (simp add: switch_source_def fail_sources_fields split: option.splits)
  ultimately show ?thesis by (simp add: case_prod_unfold)
qed

lemma validation_selects_source_witness:
  "case validate_at 1000000 sources_started of (_, s', _) \<Rightarrow>
    source_healthy s' = (\<lambda>i. source_healthy sources_started i \<and> source_fail_count s' i \<le> 3) \<and>
    active_source s' =
      (if source_healthy s' (active_source sources_started) then active_source sources_started
       else case find (\<lambda>i. source_healthy s' i \<and> source_initialized sources_started i) time_sources of
              None \<Rightarrow> active_source sources_started | Some i \<Rightarrow> i)"
proof (rule validation_selects_source)
  have "last_validation_time sources_started = 0"
    by (simp add: sources_started_def init_sources_def init_primary_time_source_def
        init_secondary_time_source_def init_software_time_source_def kernel_time_boot_def
        source_ready_def Let_def case_prod_unfold)
  then show "1000000 \<le> 1000000 - last_validation_time sources_started" by simp
qed

text \<open>The clock of the board reads 0 for ever, so a primary source that works looks fast: each
  validation that is due and finds it more than a millisecond ahead counts a failure against it,
  and with the fourth failure the working source is marked unhealthy and the stopped clock takes
  over.
\<close>

theorem working_primary_is_replaced:
  assumes due: "1000000 \<le> t - last_validation_time s"
    and healthy: "source_healthy s TIME_SOURCE_PRIMARY" "source_healthy s TIME_SOURCE_SECONDARY"
    and ready: "source_initialized s TIME_SOURCE_SECONDARY" "boot_time_ticks s TIME_SOURCE_SECONDARY = 0"
    and active: "active_source s = TIME_SOURCE_PRIMARY"
    and ahead: "1000 < source_time_us (hw_timer_get_counter (hw_timer s)) TIME_SOURCE_PRIMARY s"
    and counts: "source_fail_count s TIME_SOURCE_PRIMARY = 3" "source_fail_count s TIME_SOURCE_SECONDARY = 0"
  shows "case validate_at t s of (_, s', _) \<Rightarrow>
    \<not> source_healthy s' TIME_SOURCE_PRIMARY \<and> active_source s' = TIME_SOURCE_SECONDARY \<and>
    read_active s' = (0, s')"
proof -
  let ?s0 = "s\<lparr>last_validation_time := t\<rparr>"
  let ?p = "source_time_us (hw_timer_get_counter (hw_timer s)) TIME_SOURCE_PRIMARY s"
  have p: "source_time_us c src ?s0 = source_time_us c src s" for c src
    by (simp add: source_time_us_def)
  have q: "source_time_us hw_rtc_get_counter TIME_SOURCE_SECONDARY s = 0"
    using ready by (simp add: source_time_us_def hw_rtc_get_counter_def)
  have "0 < ?p" using ahead by (rule le_less_trans [rotated]) simp
  then have d: "source_fail_count (fst (check_drift ?p 0 ?s0)) TIME_SOURCE_PRIMARY = 4"
    "source_fail_count (fst (check_drift ?p 0 ?s0)) TIME_SOURCE_SECONDARY = 0"
    "boot_time_ticks (fst (check_drift ?p 0 ?s0)) TIME_SOURCE_SECONDARY = 0"
    using healthy ahead counts ready
    by (simp_all add: check_drift_def Let_def abs_diff_def bump_fail_count_def)
  have b: "boot_time_ticks (fst (fail_sources srcs u)) = boot_time_ticks u" for srcs u
    by (induction srcs arbitrary: u) (auto simp: fail_source_def Let_def case_prod_unfold)
  have "\<not> source_healthy (fst (snd (validate_at t s))) TIME_SOURCE_PRIMARY"
    using d by (simp add: validate_at_state [OF due] Let_def fail_sources_fields p q)
  moreover have a: "active_source (fst (snd (validate_at t s))) = TIME_SOURCE_SECONDARY"
    using d healthy ready active
    by (simp add: validate_at_state [OF due] Let_def p q)
       (simp add: switch_source_def fail_sources_fields find_time_sources)
  moreover have "boot_time_ticks (fst (snd (validate_at t s))) TIME_SOURCE_SECONDARY = 0"
    using d by (simp add: validate_at_state [OF due] Let_def p q)
       (simp add: switch_source_def b split: option.splits)
  ultimately show ?thesis
    by (simp add: case_prod_unfold read_active_def hw_rtc_get_counter_def)
qed

definition running_ahead :: kernel_time where
  "running_ahead = kernel_time_boot\<lparr>source_healthy := (\<lambda>_. True), source_initialized := (\<lambda>_. True),
     tick_frequency := (\<lambda>_. 1000000), source_fail_count := (\<lambda>_. 0)(TIME_SOURCE_PRIMARY := 3),
     hw_timer := hw_timer_boot\<lparr>tm_initialized := True, tm_base_counter := 4294967296\<rparr>\<rparr>"

lemma working_primary_is_replaced_witness:
  "case validate_at 4294967296 running_ahead of (_, s', _) \<Rightarrow>
    \<not> source_healthy s' TIME_SOURCE_PRIMARY \<and> active_source s' = TIME_SOURCE_SECONDARY \<and>
    read_active s' = (0, s')"
  by (rule working_primary_is_replaced)
     (simp_all add: running_ahead_def kernel_time_boot_def source_time_us_def hw_timer_get_counter_def
      hw_timer_platform_get_counter_def)

end
