(* ===== verification/Kernel_Scheduler.thy ===== *)
theory Kernel_Scheduler
  imports Kernel_Time C_Float
begin

text \<open>
  The scheduler of kernel/core/scheduler.h and scheduler.c.  The loop of \<open>scheduler_start\<close> reads
  the clock of theory Kernel_Time and ends each round with its delay; what it leaves is the list of
  its log calls and of the states in which it enters the delay.  In the other functions the time
  that a call of \<open>kernel_time_get_uptime_us\<close> returns is an argument.
  Calls of \<open>safety_log_error\<close> are returned as the log entries they send.  The floating-point
  computations are those of theory C_Float; the function \<open>powf\<close> of the mathematics library is a
  parameter.
\<close>

section \<open>Data\<close>

datatype process_priority_t =
    PROCESS_PRIORITY_CRITICAL
  | PROCESS_PRIORITY_REALTIME
  | PROCESS_PRIORITY_HIGH
  | PROCESS_PRIORITY_NORMAL
  | PROCESS_PRIORITY_BACKGROUND
  | PROCESS_PRIORITY_COUNT

text \<open>The numeric value of an enumerator, by which C compares.\<close>

fun priority_value :: "process_priority_t \<Rightarrow> nat" where
  "priority_value PROCESS_PRIORITY_CRITICAL = 0"
| "priority_value PROCESS_PRIORITY_REALTIME = 1"
| "priority_value PROCESS_PRIORITY_HIGH = 2"
| "priority_value PROCESS_PRIORITY_NORMAL = 3"
| "priority_value PROCESS_PRIORITY_BACKGROUND = 4"
| "priority_value PROCESS_PRIORITY_COUNT = 5"

lemma priority_value_inj: "priority_value p = priority_value q \<longleftrightarrow> p = q"
  by (cases p; cases q) simp_all

instantiation process_priority_t :: linorder
begin

definition less_eq_process_priority_t :: "process_priority_t \<Rightarrow> process_priority_t \<Rightarrow> bool" where
  "less_eq_process_priority_t p q \<longleftrightarrow> priority_value p \<le> priority_value q"

definition less_process_priority_t :: "process_priority_t \<Rightarrow> process_priority_t \<Rightarrow> bool" where
  "less_process_priority_t p q \<longleftrightarrow> priority_value p < priority_value q"

instance
  by standard (auto simp: less_eq_process_priority_t_def less_process_priority_t_def priority_value_inj)

end

lemmas priority_order = less_eq_process_priority_t_def less_process_priority_t_def

lemma priority_le_count: "p \<le> PROCESS_PRIORITY_COUNT"
  by (cases p) (simp_all add: priority_order)

datatype process_state_t =
    PROCESS_STATE_CREATED
  | PROCESS_STATE_READY
  | PROCESS_STATE_RUNNING
  | PROCESS_STATE_BLOCKED
  | PROCESS_STATE_SUSPENDED
  | PROCESS_STATE_TERMINATED

datatype power_mode_t =
    POWER_MODE_ACTIVE
  | POWER_MODE_LOW_POWER
  | POWER_MODE_SLEEP
  | POWER_MODE_DEEP_SLEEP

record rt_scheduling_params_t =
  rt_period_ms :: u32
  rt_deadline_ms :: u32
  rt_worst_case_execution_time_us :: u32
  rt_jitter_tolerance_us :: u32

record process_control_block =
  pcb_pid :: u16
  pcb_state :: process_state_t
  pcb_priority :: process_priority_t
  pcb_rt_params :: rt_scheduling_params_t
  pcb_time_used :: u64
  pcb_last_scheduled_time :: u64
  pcb_deadline_miss_count :: u64
  pcb_context :: "u32 list"
  pcb_stack_pointer :: "nat option"
  pcb_heap_pointer :: "nat option"
  pcb_wakeup_time :: u64

record scheduler_state =
  process_table :: "process_control_block list"
  process_count :: u16
  current_pid :: u16
  scheduler_ticks :: u64
  last_dispatch_time :: u64
  last_tick_time :: u64
  last_deadline_check :: u64
  idle_time_accumulated :: u64
  current_power_mode :: power_mode_t
  rt_initialized :: bool

definition SCHEDULER_MAX_PROCESSES :: nat where "SCHEDULER_MAX_PROCESSES = 32"
definition SCHEDULER_IDLE_PID :: u16 where "SCHEDULER_IDLE_PID = 0"
definition SCHEDULER_TIME_SLICE_US :: u64 where "SCHEDULER_TIME_SLICE_US = 1000"

definition zero_rt_params :: rt_scheduling_params_t where
  "zero_rt_params = \<lparr>rt_period_ms = 0, rt_deadline_ms = 0, rt_worst_case_execution_time_us = 0,
     rt_jitter_tolerance_us = 0\<rparr>"

definition zero_pcb :: process_control_block where
  "zero_pcb = \<lparr>pcb_pid = 0, pcb_state = PROCESS_STATE_CREATED, pcb_priority = PROCESS_PRIORITY_CRITICAL,
     pcb_rt_params = zero_rt_params, pcb_time_used = 0, pcb_last_scheduled_time = 0,
     pcb_deadline_miss_count = 0, pcb_context = replicate 16 0, pcb_stack_pointer = None,
     pcb_heap_pointer = None, pcb_wakeup_time = 0\<rparr>"

definition g_idle_process :: process_control_block where
  "g_idle_process = zero_pcb\<lparr>pcb_pid := SCHEDULER_IDLE_PID, pcb_state := PROCESS_STATE_READY,
     pcb_priority := PROCESS_PRIORITY_BACKGROUND, pcb_time_used := 0\<rparr>"

definition sched_ok :: system_error where
  "sched_ok = system_error_create ERR_SYS_OK ERROR_CATEGORY_SUCCESS ERROR_SEVERITY_NONE MODULE_ID_SYSCALL"

definition sched_high :: "u32 \<Rightarrow> system_error" where
  "sched_high code = system_error_create code ERROR_CATEGORY_SYSTEM ERROR_SEVERITY_HIGH MODULE_ID_SYSCALL"

text \<open>\<open>safety_log_error\<close> ignores its format and sends one entry: level ERROR, tag KERNEL,
  message LOG_MSG_TIMING_VIOLATION_DETECTED.\<close>

definition safety_log_error :: "log_call list" where
  "safety_log_error = [mk_log_call LOG_LEVEL_ERROR LOG_TAG_KERNEL LOG_MSG_TIMING_VIOLATION_DETECTED 0 0]"

text \<open>The part of the table that is in use, and a loop that updates its first entry with a
  given pid.\<close>

definition active :: "scheduler_state \<Rightarrow> process_control_block list" where
  "active s = take (unat (process_count s)) (process_table s)"

definition update_pid ::
  "u16 \<Rightarrow> (process_control_block \<Rightarrow> process_control_block) \<Rightarrow> scheduler_state \<Rightarrow> scheduler_state" where
  "update_pid pid f s =
     s\<lparr>process_table := update_first (\<lambda>p. pcb_pid p = pid) f (active s) @
         drop (unat (process_count s)) (process_table s)\<rparr>"

section \<open>Power management\<close>

definition scheduler_enter_low_power_mode :: "log_call list" where
  "scheduler_enter_low_power_mode = safety_log_error"

definition scheduler_enter_sleep_mode :: "log_call list" where
  "scheduler_enter_sleep_mode = safety_log_error"

definition scheduler_exit_low_power_mode :: "log_call list" where
  "scheduler_exit_low_power_mode = safety_log_error"

text \<open>The two transitions of an idle system, the second after the first.\<close>

definition low_power_transition :: "scheduler_state \<Rightarrow> scheduler_state \<times> log_call list" where
  "low_power_transition s =
     (if 1000000 < idle_time_accumulated s then
        if current_power_mode s \<noteq> POWER_MODE_LOW_POWER
        then (s\<lparr>current_power_mode := POWER_MODE_LOW_POWER\<rparr>, scheduler_enter_low_power_mode)
        else (s, [])
      else (s, []))"

definition sleep_transition :: "scheduler_state \<Rightarrow> scheduler_state \<times> log_call list" where
  "sleep_transition s =
     (if 5000000 < idle_time_accumulated s then
        if current_power_mode s \<noteq> POWER_MODE_SLEEP
        then (s\<lparr>current_power_mode := POWER_MODE_SLEEP\<rparr>, scheduler_enter_sleep_mode)
        else (s, [])
      else (s, []))"

definition scheduler_use_idle_process :: "u64 \<Rightarrow> scheduler_state \<Rightarrow> scheduler_state \<times> log_call list" where
  "scheduler_use_idle_process current_time s =
     (if current_pid s = SCHEDULER_IDLE_PID then
        let s1 = s\<lparr>idle_time_accumulated :=
                     idle_time_accumulated s + (current_time - last_tick_time s)\<rparr>;
            (s2, log1) = low_power_transition s1;
            (s3, log2) = sleep_transition s2
        in (s3, log1 @ log2)
      else
        let s1 = s\<lparr>idle_time_accumulated := 0\<rparr> in
        if current_power_mode s1 \<noteq> POWER_MODE_ACTIVE
        then (s1\<lparr>current_power_mode := POWER_MODE_ACTIVE\<rparr>, scheduler_exit_low_power_mode)
        else (s1, []))"

definition scheduler_get_power_mode :: "scheduler_state \<Rightarrow> power_mode_t" where
  "scheduler_get_power_mode s = current_power_mode s"

section \<open>Deadlines\<close>

text \<open>The product is computed in 32 bits and then widened.\<close>

definition deadline_us :: "process_control_block \<Rightarrow> u64" where
  "deadline_us p = ucast (rt_deadline_ms (pcb_rt_params p) * 1000)"

definition deadline_missed :: "u64 \<Rightarrow> process_control_block \<Rightarrow> bool" where
  "deadline_missed current_time p \<longleftrightarrow>
     pcb_state p = PROCESS_STATE_RUNNING \<and> 0 < rt_period_ms (pcb_rt_params p) \<and>
     deadline_us p < current_time - pcb_last_scheduled_time p"

definition scheduler_check_deadlines :: "u64 \<Rightarrow> scheduler_state \<Rightarrow> log_call list" where
  "scheduler_check_deadlines current_time s =
     concat (map (\<lambda>p. if deadline_missed current_time p then safety_log_error else []) (active s))"

definition scheduler_is_deadline_met :: "u64 \<Rightarrow> u16 \<Rightarrow> scheduler_state \<Rightarrow> bool" where
  "scheduler_is_deadline_met current_time pid s =
     (case find (\<lambda>p. pcb_pid p = pid \<and> 0 < rt_period_ms (pcb_rt_params p)) (active s) of
        Some p \<Rightarrow> current_time - pcb_last_scheduled_time p \<le> deadline_us p
      | None \<Rightarrow> True)"

section \<open>Creation and feasibility\<close>

text \<open>The utilisation of a task: \<open>(float)C / (T * 1000.0f)\<close>.\<close>

definition params_utilization :: "rt_scheduling_params_t \<Rightarrow> rat" where
  "params_utilization p =
     fdiv (float_of_uint (rt_worst_case_execution_time_us p)) (fmul (float_of_uint (rt_period_ms p)) 1000)"

text \<open>The loop over the existing tasks.\<close>

definition add_utilization :: "rat \<Rightarrow> process_control_block \<Rightarrow> rat" where
  "add_utilization u q =
     (if 0 < rt_period_ms (pcb_rt_params q) then fadd u (params_utilization (pcb_rt_params q)) else u)"

definition system_utilization :: "scheduler_state \<Rightarrow> rat" where
  "system_utilization s = foldl add_utilization 0 (active s)"

text \<open>\<open>total_tasks * (powf(2.0f, 1.0f / total_tasks) - 1.0f)\<close>\<close>

definition rms_bound :: "(rat \<Rightarrow> rat \<Rightarrow> rat) \<Rightarrow> u32 \<Rightarrow> rat" where
  "rms_bound powf total_tasks =
     fmul (float_of_uint total_tasks) (fsub (powf 2 (fdiv 1 (float_of_uint total_tasks))) 1)"

text \<open>The constant \<open>0.05f\<close> is the float nearest to 0.05.\<close>

definition safety_margin :: rat where "safety_margin = float_round (1 / 20)"

definition rms_test :: "(rat \<Rightarrow> rat \<Rightarrow> rat) \<Rightarrow> rt_scheduling_params_t \<Rightarrow> scheduler_state \<Rightarrow> bool" where
  "rms_test powf p s \<longleftrightarrow>
     fadd (system_utilization s) (params_utilization p)
       \<le> fsub (rms_bound powf (ucast (process_count s) + 1)) safety_margin"

definition scheduler_rt_feasibility_check ::
  "(rat \<Rightarrow> rat \<Rightarrow> rat) \<Rightarrow> rt_scheduling_params_t option \<Rightarrow> scheduler_state \<Rightarrow> bool" where
  "scheduler_rt_feasibility_check powf params s =
     (case params of
        None \<Rightarrow> True
      | Some p \<Rightarrow>
          if rt_period_ms p = 0 \<or> rt_deadline_ms p = 0 \<or> rt_worst_case_execution_time_us p = 0 then False
          else if rt_period_ms p < rt_deadline_ms p then False
          else if rt_period_ms p * 1000 \<le> rt_worst_case_execution_time_us p then False
          else rms_test powf p s)"

text \<open>The new value of \<open>*pid\<close> is part of the result; it is written before the feasibility
  check.\<close>

definition process_create ::
  "(rat \<Rightarrow> rat \<Rightarrow> rat) \<Rightarrow> bool \<Rightarrow> process_priority_t \<Rightarrow>
   rt_scheduling_params_t option \<Rightarrow> scheduler_state \<Rightarrow> system_error \<times> u16 option \<times> scheduler_state" where
  "process_create powf pid_given priority rt_params s =
     (if \<not> pid_given \<or> SCHEDULER_MAX_PROCESSES \<le> unat (process_count s)
      then (sched_high ERR_SYS_INVALID_PARAM, None, s)
      else
        let pid = process_count s + 1; i = unat (process_count s);
            pcb = (process_table s ! i)\<lparr>pcb_pid := pid, pcb_state := PROCESS_STATE_CREATED,
                                        pcb_priority := priority\<rparr>;
            pcb' = (case rt_params of None \<Rightarrow> pcb | Some p \<Rightarrow> pcb\<lparr>pcb_rt_params := p\<rparr>);
            s1 = s\<lparr>process_table := (process_table s)[i := pcb']\<rparr>
        in if rt_params \<noteq> None \<and> \<not> scheduler_rt_feasibility_check powf rt_params s1
           then (sched_high ERR_SYS_RESOURCE_UNAVAIL, Some pid, s1)
           else (sched_ok, Some pid, s1\<lparr>process_count := process_count s + 1\<rparr>))"

section \<open>The scheduling loop\<close>

definition scheduler_init :: "u64 \<Rightarrow> system_error \<times> scheduler_state" where
  "scheduler_init current_time =
     (sched_ok,
      \<lparr>process_table = replicate 32 zero_pcb, process_count = 0, current_pid = SCHEDULER_IDLE_PID,
       scheduler_ticks = 0, last_dispatch_time = 0, last_tick_time = current_time,
       last_deadline_check = 0, idle_time_accumulated = 0, current_power_mode = POWER_MODE_ACTIVE,
       rt_initialized = True\<rparr>)"

text \<open>The selection loop keeps the best priority so far and its pid.\<close>

definition select_step :: "process_priority_t \<times> u16 \<Rightarrow> process_control_block \<Rightarrow> process_priority_t \<times> u16" where
  "select_step best p =
     (if pcb_state p = PROCESS_STATE_READY \<and> pcb_priority p < fst best
      then (pcb_priority p, pcb_pid p) else best)"

definition select_next :: "scheduler_state \<Rightarrow> u16" where
  "select_next s = snd (foldl select_step (PROCESS_PRIORITY_COUNT, SCHEDULER_IDLE_PID) (active s))"

definition context_switch :: "u64 \<Rightarrow> u16 \<Rightarrow> scheduler_state \<Rightarrow> scheduler_state" where
  "context_switch current_time next_pid s =
     (if next_pid \<noteq> current_pid s then
        let s1 = s\<lparr>current_pid := next_pid\<rparr> in
        if current_pid s1 \<noteq> SCHEDULER_IDLE_PID then
          update_pid (current_pid s1)
            (\<lambda>p. p\<lparr>pcb_state := PROCESS_STATE_RUNNING, pcb_last_scheduled_time := current_time\<rparr>) s1
        else s1
      else s)"

definition account_time :: "u64 \<Rightarrow> scheduler_state \<Rightarrow> scheduler_state" where
  "account_time current_time s =
     (if current_pid s \<noteq> SCHEDULER_IDLE_PID then
        update_pid (current_pid s)
          (\<lambda>p. p\<lparr>pcb_time_used := pcb_time_used p + (current_time - last_tick_time s)\<rparr>) s
      else s)"

text \<open>The body of the loop of \<open>scheduler_start\<close> on its clock readings: the time at the start of the
  round, and the time that the deadline check reads.\<close>

definition round_body :: "u64 \<Rightarrow> u64 \<Rightarrow> scheduler_state \<Rightarrow> scheduler_state \<times> log_call list" where
  "round_body current_time check_time s =
     (let (s1, logs) =
            (if 1000 \<le> current_time - last_deadline_check s
             then (s\<lparr>last_deadline_check := current_time\<rparr>, scheduler_check_deadlines check_time s)
             else (s, []));
          s2 = account_time current_time (context_switch current_time (select_next s1) s1)
      in (s2\<lparr>last_tick_time := current_time, scheduler_ticks := scheduler_ticks s2 + 1\<rparr>, logs))"

text \<open>A round up to its delay, with its readings of the clock; the second one is made only when the
  deadline check is due.\<close>

definition scheduler_dispatch ::
  "nat \<Rightarrow> scheduler_state \<Rightarrow> kernel_time \<Rightarrow> (scheduler_state \<times> kernel_time \<times> log_call list) option" where
  "scheduler_dispatch fuel s tm =
     (case kernel_time_get_uptime_us fuel tm of
        None \<Rightarrow> None
      | Some (current_time, tm1, logs1) \<Rightarrow>
          (case (if 1000 \<le> current_time - last_deadline_check s then kernel_time_get_uptime_us fuel tm1
                 else Some (current_time, tm1, [])) of
             None \<Rightarrow> None
           | Some (check_time, tm2, logs2) \<Rightarrow>
               (case round_body current_time check_time s of
                  (s', logs3) \<Rightarrow> Some (s', tm2, logs1 @ logs2 @ logs3))))"

text \<open>The loop has no exit.  \<open>n\<close> bounds its rounds, \<open>rounds\<close> those of the busy-wait and \<open>fuel\<close> the
  readings of the clock; a call that does not return ends the list.\<close>

datatype sched_event = Sched_log log_call | Dispatched scheduler_state

fun scheduler_loop :: "nat \<Rightarrow> nat \<Rightarrow> nat \<Rightarrow> scheduler_state \<Rightarrow> kernel_time \<Rightarrow> sched_event list" where
  "scheduler_loop fuel rounds 0 s tm = []"
| "scheduler_loop fuel rounds (Suc n) s tm =
     (case scheduler_dispatch fuel s tm of
        None \<Rightarrow> []
      | Some (s1, tm1, logs1) \<Rightarrow>
          map Sched_log logs1 @ Dispatched s1 #
          (case kernel_time_delay_us rounds fuel 100 tm1 of
             None \<Rightarrow> []
           | Some (tm2, logs2) \<Rightarrow> map Sched_log logs2 @ scheduler_loop fuel rounds n s1 tm2))"

text \<open>Only the refusal is a return.\<close>

definition scheduler_start ::
  "nat \<Rightarrow> nat \<Rightarrow> nat \<Rightarrow> scheduler_state \<Rightarrow> kernel_time \<Rightarrow> system_error + sched_event list" where
  "scheduler_start fuel rounds n s tm =
     (if \<not> rt_initialized s then Inl (sched_high ERR_SYS_NOT_INIT)
      else Inr (scheduler_loop fuel rounds n s tm))"

definition scheduler_tick :: "u64 \<Rightarrow> scheduler_state \<Rightarrow> scheduler_state" where
  "scheduler_tick current_time s =
     (let s1 = (if current_pid s \<noteq> SCHEDULER_IDLE_PID
                then update_pid (current_pid s)
                       (\<lambda>p. p\<lparr>pcb_time_used := pcb_time_used p + SCHEDULER_TIME_SLICE_US\<rparr>) s
                else s)
      in s1\<lparr>last_tick_time := current_time, scheduler_ticks := scheduler_ticks s1 + 1\<rparr>)"

text \<open>The share of the time that was not idle; the total is the number of ticks times the slice, in
  64 bits.\<close>

definition scheduler_get_system_utilization :: "scheduler_state \<Rightarrow> rat" where
  "scheduler_get_system_utilization s =
     (let total_time = scheduler_ticks s * SCHEDULER_TIME_SLICE_US in
      if total_time = 0 then 0
      else let busy_time = total_time - idle_time_accumulated s
           in fdiv (float_of_uint busy_time) (float_of_uint total_time))"

section \<open>Shape of the state\<close>

text \<open>No operation changes the length of the table, and the number of processes stays within it.\<close>

definition table_ok :: "scheduler_state \<Rightarrow> bool" where
  "table_ok s \<longleftrightarrow> length (process_table s) = 32 \<and> unat (process_count s) \<le> 32"

lemma update_pid_simps [simp]:
  "process_count (update_pid pid f s) = process_count s"
  "current_pid (update_pid pid f s) = current_pid s"
  "last_tick_time (update_pid pid f s) = last_tick_time s"
  "length (process_table (update_pid pid f s)) = length (process_table s)"
  by (auto simp: update_pid_def active_def)

lemma active_update_pid:
  "active (update_pid pid f s) = update_first (\<lambda>p. pcb_pid p = pid) f (active s)"
  by (auto simp: update_pid_def active_def)

lemma active_simps [simp]:
  "active (s\<lparr>last_tick_time := t\<rparr>) = active s"
  "active (s\<lparr>scheduler_ticks := t\<rparr>) = active s"
  "active (s\<lparr>last_deadline_check := t\<rparr>) = active s"
  "active (s\<lparr>current_pid := c\<rparr>) = active s"
  "active (s\<lparr>idle_time_accumulated := t\<rparr>) = active s"
  "active (s\<lparr>current_power_mode := m\<rparr>) = active s"
  by (simp_all add: active_def)

lemma length_active: "table_ok s \<Longrightarrow> length (active s) = unat (process_count s)"
  by (simp add: table_ok_def active_def)

lemma table_ok_updates [simp]:
  "table_ok (update_pid pid f s) = table_ok s"
  "table_ok (s\<lparr>last_tick_time := t\<rparr>) = table_ok s"
  "table_ok (s\<lparr>scheduler_ticks := t\<rparr>) = table_ok s"
  "table_ok (s\<lparr>last_deadline_check := t\<rparr>) = table_ok s"
  "table_ok (s\<lparr>current_pid := c\<rparr>) = table_ok s"
  by (simp_all add: table_ok_def)

section \<open>Selection\<close>

text \<open>What the selection loop promises: the first READY process whose priority no READY
  process beats.\<close>

definition runnable :: "process_control_block \<Rightarrow> bool" where
  "runnable p \<longleftrightarrow> pcb_state p = PROCESS_STATE_READY \<and> pcb_priority p \<noteq> PROCESS_PRIORITY_COUNT"

definition best_ready :: "process_control_block list \<Rightarrow> process_control_block option" where
  "best_ready ps =
     find (\<lambda>p. runnable p \<and> list_all (\<lambda>q. runnable q \<longrightarrow> pcb_priority p \<le> pcb_priority q) ps) ps"

definition below :: "process_priority_t \<Rightarrow> process_control_block \<Rightarrow> bool" where
  "below b p \<longleftrightarrow> pcb_state p = PROCESS_STATE_READY \<and> pcb_priority p < b"

lemma below_count: "below PROCESS_PRIORITY_COUNT = runnable"
  using priority_le_count by (auto simp: below_def runnable_def fun_eq_iff order_less_le)

text \<open>The loop, started with a bound, finds the first best process under the bound.\<close>

definition best_below :: "process_priority_t \<Rightarrow> process_control_block list \<Rightarrow> process_control_block option" where
  "best_below b ps =
     find (\<lambda>p. below b p \<and> list_all (\<lambda>q. below b q \<longrightarrow> pcb_priority p \<le> pcb_priority q) ps) ps"

lemma find_conj_const: "find (\<lambda>x. P x \<and> Q) xs = (if Q then find P xs else None)"
  by (induction xs) auto

lemma best_below_Cons_skip: "\<not> below b p \<Longrightarrow> best_below b (p # ps) = best_below b ps"
  by (simp add: best_below_def)

lemma best_below_None: "best_below b ps = None \<longleftrightarrow> (\<forall>p \<in> set ps. \<not> below b p)"
proof (cases "\<exists>p \<in> set ps. below b p")
  case True
  let ?v = "\<lambda>p. priority_value (pcb_priority p)"
  let ?S = "{p \<in> set ps. below b p}"
  have "finite ?S" "?S \<noteq> {}" using True by auto
  then obtain m where m: "m \<in> ?S" "\<forall>q \<in> ?S. ?v m \<le> ?v q"
    using ex_min_if_finite [of "?v ` ?S"] by (fastforce simp: not_less)
  then show ?thesis
    using True by (force simp: best_below_def find_None_iff list_all_iff priority_order)
next
  case False
  then show ?thesis by (auto simp: best_below_def find_None_iff)
qed

lemma below_mono: "below c q \<Longrightarrow> c \<le> b \<Longrightarrow> below b q"
  by (auto simp: below_def)

lemma best_below_Cons_take:
  assumes b: "below b p"
  shows "best_below b (p # ps) =
    (case best_below (pcb_priority p) ps of None \<Rightarrow> Some p | Some q \<Rightarrow> Some q)"
proof (cases "best_below (pcb_priority p) ps")
  case None
  then have "\<forall>q \<in> set ps. below b q \<longrightarrow> pcb_priority p \<le> pcb_priority q"
    by (auto simp: best_below_None below_def)
  with b None show ?thesis by (simp add: best_below_def list_all_iff)
next
  case (Some r)
  then have r: "r \<in> set ps" "below (pcb_priority p) r"
    by (auto simp: best_below_def find_Some_iff)
  have "(below b q \<and> list_all (\<lambda>x. below b x \<longrightarrow> pcb_priority q \<le> pcb_priority x) (p # ps)) =
        (below (pcb_priority p) q \<and>
          list_all (\<lambda>x. below (pcb_priority p) x \<longrightarrow> pcb_priority q \<le> pcb_priority x) ps)" for q
    using r b by (fastforce simp: list_all_iff below_def)
  moreover have "\<not> list_all (\<lambda>x. below b x \<longrightarrow> pcb_priority p \<le> pcb_priority x) (p # ps)"
    using r b by (auto simp: list_all_iff below_def)
  moreover have "\<not> below (pcb_priority p) p" by (simp add: below_def)
  ultimately show ?thesis using Some by (simp add: best_below_def)
qed

lemma select_loop:
  "snd (foldl select_step (b, i) ps) = (case best_below b ps of None \<Rightarrow> i | Some p \<Rightarrow> pcb_pid p)"
proof (induction ps arbitrary: b i)
  case Nil
  then show ?case by (simp add: best_below_def)
next
  case (Cons p ps)
  show ?case
  proof (cases "below b p")
    case True
    then have "select_step (b, i) p = (pcb_priority p, pcb_pid p)"
      by (simp add: select_step_def below_def)
    then show ?thesis
      using Cons.IH True by (simp add: best_below_Cons_take split: option.splits)
  next
    case False
    then have "select_step (b, i) p = (b, i)"
      by (auto simp: select_step_def below_def)
    then show ?thesis using Cons.IH False by (simp add: best_below_Cons_skip)
  qed
qed

lemma best_below_count: "best_below PROCESS_PRIORITY_COUNT ps = best_ready ps"
  by (simp add: best_below_def best_ready_def below_count)

lemma best_ready_None: "best_ready ps = None \<longleftrightarrow> filter runnable ps = []"
  using best_below_None [of PROCESS_PRIORITY_COUNT ps]
  by (simp add: best_below_count below_count filter_empty_conv)

lemma best_ready_Some: "best_ready ps = Some p \<Longrightarrow> p \<in> set ps \<and> runnable p"
  by (auto simp: best_ready_def find_Some_iff)

lemma select_next_eq:
  "select_next s =
    (case best_ready (active s) of None \<Rightarrow> SCHEDULER_IDLE_PID | Some p \<Rightarrow> pcb_pid p)"
  by (simp add: select_next_def select_loop best_below_count)

text \<open>C5: The loop of \<open>scheduler_start\<close> chooses the first READY process of the best priority, and
  the idle process exactly when no process is READY with a priority below
  PROCESS_PRIORITY_COUNT.
\<close>

theorem select_next_is_best_ready:
  "select_next s = (case best_ready (active s) of None \<Rightarrow> SCHEDULER_IDLE_PID | Some p \<Rightarrow> pcb_pid p) \<and>
   (best_ready (active s) = None \<longleftrightarrow> filter runnable (active s) = [])"
  by (simp add: select_next_eq best_ready_None)

section \<open>The loop dispatches once\<close>

text \<open>The processes in use have different pids, none of them the idle pid, and the current one
  is not READY.  \<open>scheduler_init\<close> and \<open>process_create\<close> set this up.\<close>

definition sched_wf :: "scheduler_state \<Rightarrow> bool" where
  "sched_wf s \<longleftrightarrow>
     distinct (map pcb_pid (active s)) \<and> 0 \<notin> set (map pcb_pid (active s)) \<and>
     (\<forall>p \<in> set (active s). pcb_pid p = current_pid s \<longrightarrow> \<not> runnable p)"

type_synonym sched_view = "(u16 \<times> process_state_t \<times> process_priority_t) list"

definition pcb_view :: "process_control_block \<Rightarrow> u16 \<times> process_state_t \<times> process_priority_t" where
  "pcb_view p = (pcb_pid p, pcb_state p, pcb_priority p)"

definition sched_view :: "scheduler_state \<Rightarrow> sched_view" where
  "sched_view s = map pcb_view (active s)"

definition runnable_view :: "u16 \<times> process_state_t \<times> process_priority_t \<Rightarrow> bool" where
  "runnable_view = (\<lambda>(i, st, pr). st = PROCESS_STATE_READY \<and> pr \<noteq> PROCESS_PRIORITY_COUNT)"

definition to_running :: "u16 \<times> process_state_t \<times> process_priority_t \<Rightarrow> u16 \<times> process_state_t \<times> process_priority_t" where
  "to_running = (\<lambda>(i, st, pr). (i, PROCESS_STATE_RUNNING, pr))"

lemma runnable_pcb_view [simp]: "runnable_view (pcb_view p) = runnable p"
  by (simp add: runnable_view_def pcb_view_def runnable_def)

lemma to_running_not_runnable [simp]: "\<not> runnable_view (to_running x)" "fst (to_running x) = fst x"
  by (cases x; simp add: runnable_view_def to_running_def)+

text \<open>The entry with a given pid becomes RUNNING.\<close>

definition run_pid :: "u16 \<Rightarrow> sched_view \<Rightarrow> sched_view" where
  "run_pid n = map (\<lambda>x. if fst x = n then to_running x else x)"

definition view_wf :: "u16 \<Rightarrow> sched_view \<Rightarrow> bool" where
  "view_wf c v \<longleftrightarrow> distinct (map fst v) \<and> 0 \<notin> set (map fst v) \<and>
     (\<forall>x \<in> set v. fst x = c \<longrightarrow> \<not> runnable_view x)"

lemma sched_wf_view: "sched_wf s = view_wf (current_pid s) (sched_view s)"
proof -
  have "map fst (sched_view s) = map pcb_pid (active s)"
    by (simp add: sched_view_def pcb_view_def)
  then show ?thesis
    by (auto simp: sched_wf_def view_wf_def) (auto simp: sched_view_def pcb_view_def runnable_view_def runnable_def)
qed

lemma map_fst_run_pid [simp]: "map fst (run_pid n v) = map fst v"
  by (simp add: run_pid_def)

lemma view_update_pid:
  assumes "distinct (map fst (sched_view s))" "\<And>p. pcb_view (f p) = to_running (pcb_view p)"
  shows "sched_view (update_pid n f s) = run_pid n (sched_view s)"
proof -
  have pid: "fst (pcb_view p) = pcb_pid p" for p by (simp add: pcb_view_def)
  have "map pcb_view (update_first (\<lambda>p. pcb_pid p = n) f ps) = run_pid n (map pcb_view ps)"
    if "distinct (map (fst \<circ> pcb_view) ps)" for ps
    using that
  proof (induction ps)
    case (Cons q ps)
    then show ?case using assms(2)
      by (auto simp: run_pid_def pid image_iff intro!: map_cong)
  qed (simp add: run_pid_def)
  then show ?thesis using assms(1) by (simp add: sched_view_def active_update_pid)
qed

text \<open>One round, on the view.\<close>

lemma account_time_view [simp]: "sched_view (account_time t s) = sched_view s"
  by (simp add: account_time_def sched_view_def active_update_pid map_update_first pcb_view_def)

lemma account_time_simps [simp]:
  "current_pid (account_time t s) = current_pid s"
  "process_count (account_time t s) = process_count s"
  "table_ok (account_time t s) = table_ok s"
  by (simp_all add: account_time_def)

lemma context_switch_pid [simp]: "current_pid (context_switch t n s) = n"
  by (simp add: context_switch_def Let_def)

lemma context_switch_view:
  assumes "sched_wf s"
  shows "sched_view (context_switch t n s) =
    (if n = current_pid s \<or> n = 0 then sched_view s else run_pid n (sched_view s))"
proof -
  have v: "sched_view (s\<lparr>current_pid := m\<rparr>) = sched_view s" for m by (simp add: sched_view_def)
  moreover have "distinct (map fst (sched_view (s\<lparr>current_pid := n\<rparr>)))"
    using assms v by (simp add: sched_wf_view view_wf_def)
  ultimately show ?thesis
    by (simp add: context_switch_def Let_def SCHEDULER_IDLE_PID_def view_update_pid
        pcb_view_def to_running_def)
qed

lemma round_pieces:
  obtains s1 where "s1 = s \<or> s1 = s\<lparr>last_deadline_check := t\<rparr>"
    "fst (round_body t c s) =
       (let s2 = account_time t (context_switch t (select_next s1) s1)
        in s2\<lparr>last_tick_time := t, scheduler_ticks := scheduler_ticks s2 + 1\<rparr>)"
  by (cases "1000 \<le> t - last_deadline_check s")
     (auto simp: round_body_def Let_def)

lemma sched_wf_updates:
  "sched_view s' = sched_view s \<Longrightarrow> current_pid s' = current_pid s \<Longrightarrow> sched_wf s' = sched_wf s"
  by (simp add: sched_wf_view)

lemma round_step:
  assumes "sched_wf s"
  shows "current_pid (fst (round_body t c s)) = select_next s"
    "sched_view (fst (round_body t c s)) =
      (if select_next s = current_pid s \<or> select_next s = 0 then sched_view s
       else run_pid (select_next s) (sched_view s))"
proof -
  obtain s1 where s1: "s1 = s \<or> s1 = s\<lparr>last_deadline_check := t\<rparr>"
    and r: "fst (round_body t c s) =
       (let s2 = account_time t (context_switch t (select_next s1) s1)
        in s2\<lparr>last_tick_time := t, scheduler_ticks := scheduler_ticks s2 + 1\<rparr>)"
    by (rule round_pieces)
  have v: "sched_view s1 = sched_view s" "current_pid s1 = current_pid s" "select_next s1 = select_next s"
    using s1 by (auto simp: sched_view_def select_next_def)
  have "sched_wf s1" using assms v sched_wf_updates by blast
  note cs = context_switch_view [OF this, of t "select_next s1"]
  show "current_pid (fst (round_body t c s)) = select_next s"
    using r v by (simp add: Let_def)
  have "sched_view (fst (round_body t c s)) = sched_view (context_switch t (select_next s1) s1)"
    by (subst account_time_view [of t, symmetric]) (simp add: r Let_def sched_view_def)
  with cs v show "sched_view (fst (round_body t c s)) =
      (if select_next s = current_pid s \<or> select_next s = 0 then sched_view s
       else run_pid (select_next s) (sched_view s))" by simp
qed

lemma best_ready_other:
  assumes "sched_wf s" "best_ready (active s) = Some p"
  shows "pcb_pid p \<noteq> 0" "pcb_pid p \<noteq> current_pid s"
  using best_ready_Some [OF assms(2)] assms(1) by (auto simp: sched_wf_def)

lemma round_view:
  assumes "sched_wf s"
  shows "sched_view (fst (round_body t c s)) =
    (case best_ready (active s) of None \<Rightarrow> sched_view s | Some p \<Rightarrow> run_pid (pcb_pid p) (sched_view s))"
  using best_ready_other [OF assms] round_step(2) [OF assms, of t c]
  by (simp add: select_next_eq SCHEDULER_IDLE_PID_def split: option.splits)

text \<open>The readings of the clock in a round: none comes back while the active source is
  initialised, and otherwise each is 0.\<close>

lemma dispatch_outcome:
  "scheduler_dispatch fuel s tm =
     (if source_initialized tm (active_source tm) \<or> fuel = 0 then None
      else case round_body 0 0 s of (s', logs) \<Rightarrow> Some (s', tm, logs))"
proof (cases "source_initialized tm (active_source tm)")
  case True
  then show ?thesis
    using tick_count_open [OF True, of fuel] by (simp add: scheduler_dispatch_def kernel_time_get_uptime_us_def)
next
  case False
  then show ?thesis
    by (cases fuel)
       (simp_all add: scheduler_dispatch_def kernel_time_get_uptime_us_def split: prod.splits)
qed

lemma loop_outcome:
  "scheduler_loop fuel rounds n s tm =
     (if n = 0 \<or> fuel = 0 \<or> source_initialized tm (active_source tm) then []
      else case round_body 0 0 s of (s', logs) \<Rightarrow> map Sched_log logs @ [Dispatched s'])"
  by (cases n) (auto simp: dispatch_outcome delay_stuck split: prod.splits)

lemma round_body_logs:
  "snd (round_body t c s) =
     (if 1000 \<le> t - last_deadline_check s then scheduler_check_deadlines c s else [])"
  by (simp add: round_body_def Let_def)

text \<open>C15: \<open>scheduler_start\<close> dispatches at most once.  Take a table whose pids are distinct and not 0
  and whose current process is not READY.  Without initialisation an error is returned.  After it, with the active source of the clock initialised, the first reading of the clock does
  not come back and nothing is dispatched.  Otherwise the loop makes exactly one round, however
  many it is allowed: the best READY process, if there is one, becomes current and RUNNING, every
  other process keeps its state (so the other READY processes never run), and the delay that ends
  the round does not return.  The log calls of the round are those of a due deadline check at time 0.
\<close>

theorem scheduler_dispatches_once:
  assumes "sched_wf s"
  shows "if \<not> rt_initialized s then scheduler_start fuel rounds n s tm = Inl (sched_high ERR_SYS_NOT_INIT)
    else if source_initialized tm (active_source tm) then scheduler_start fuel rounds n s tm = Inr []
    else \<exists>s'. scheduler_start (Suc fuel) rounds (Suc n) s tm =
        Inr (map Sched_log (if 1000 \<le> - last_deadline_check s then scheduler_check_deadlines 0 s else []) @
             [Dispatched s']) \<and>
      current_pid s' = (case best_ready (active s) of None \<Rightarrow> SCHEDULER_IDLE_PID | Some p \<Rightarrow> pcb_pid p) \<and>
      sched_view s' =
        (case best_ready (active s) of None \<Rightarrow> sched_view s | Some p \<Rightarrow> run_pid (pcb_pid p) (sched_view s))"
proof -
  let ?r = "round_body 0 0 s"
  have "current_pid (fst ?r) = (case best_ready (active s) of None \<Rightarrow> SCHEDULER_IDLE_PID | Some p \<Rightarrow> pcb_pid p)"
    using round_step(1) [OF assms] by (simp add: select_next_eq)
  then show ?thesis
    using round_view [OF assms, of 0 0] round_body_logs [of 0 0 s]
    by (cases ?r) (simp add: scheduler_start_def loop_outcome)
qed

section \<open>What the program can reach\<close>

text \<open>The operations of scheduler.c that change its state, in any order with any clock.\<close>

inductive sched_step :: "scheduler_state \<Rightarrow> scheduler_state \<Rightarrow> bool" where
  step_create: "sched_step s (snd (snd (process_create powf given priority rt_params s)))"
| step_round: "sched_step s (fst (round_body t c s))"
| step_tick: "sched_step s (scheduler_tick t s)"
| step_power: "sched_step s (fst (scheduler_use_idle_process t s))"

inductive_cases sched_stepE [elim!]: "sched_step s s'"

inductive sched_reachable :: "scheduler_state \<Rightarrow> bool" where
  reach_init: "sched_reachable (snd (scheduler_init t))"
| reach_step: "sched_reachable s \<Longrightarrow> sched_step s s' \<Longrightarrow> sched_reachable s'"

definition all_created :: "scheduler_state \<Rightarrow> bool" where
  "all_created s \<longleftrightarrow> table_ok s \<and> current_pid s = 0 \<and>
     list_all (\<lambda>p. pcb_state p = PROCESS_STATE_CREATED) (active s) \<and>
     map pcb_pid (active s) = map of_nat [1..<Suc (unat (process_count s))]"

lemma all_created_idle: "all_created s \<Longrightarrow> select_next s = 0"
  by (auto simp: select_next_eq all_created_def best_ready_None [THEN iffD2] filter_empty_conv
      list_all_iff runnable_def SCHEDULER_IDLE_PID_def)

lemma active_extend:
  assumes "table_ok s" "unat (process_count s) < 32"
  shows "active (s\<lparr>process_table := (process_table s)[unat (process_count s) := p],
                   process_count := process_count s + 1\<rparr>) = active s @ [p]"
  using assms by (simp add: active_def table_ok_def unat_inc take_Suc_conv_app_nth)

lemma active_overwrite:
  "active (s\<lparr>process_table := (process_table s)[unat (process_count s) := p]\<rparr>) = active s"
  by (simp add: active_def)

text \<open>The three ways through \<open>process_create\<close>.\<close>

definition created_pcb :: "process_priority_t \<Rightarrow> rt_scheduling_params_t option \<Rightarrow> scheduler_state \<Rightarrow> process_control_block" where
  "created_pcb priority rt_params s =
     (let old = process_table s ! unat (process_count s)
      in old\<lparr>pcb_pid := process_count s + 1, pcb_state := PROCESS_STATE_CREATED, pcb_priority := priority,
             pcb_rt_params := (case rt_params of None \<Rightarrow> pcb_rt_params old | Some p \<Rightarrow> p)\<rparr>)"

lemma feasibility_cong:
  "active s' = active s \<Longrightarrow> process_count s' = process_count s \<Longrightarrow>
   scheduler_rt_feasibility_check f p s' = scheduler_rt_feasibility_check f p s"
  by (simp add: scheduler_rt_feasibility_check_def rms_test_def system_utilization_def split: option.splits)

lemma process_create_cases:
  "process_create f given priority rt_params s =
    (if \<not> given \<or> 32 \<le> unat (process_count s) then (sched_high ERR_SYS_INVALID_PARAM, None, s)
     else
       let s1 = s\<lparr>process_table := (process_table s)[unat (process_count s) := created_pcb priority rt_params s]\<rparr>
       in if scheduler_rt_feasibility_check f rt_params s
          then (sched_ok, Some (process_count s + 1), s1\<lparr>process_count := process_count s + 1\<rparr>)
          else (sched_high ERR_SYS_RESOURCE_UNAVAIL, Some (process_count s + 1), s1))"
proof -
  have pcb: "(case rt_params of None \<Rightarrow> q | Some p \<Rightarrow> q\<lparr>pcb_rt_params := p\<rparr>) =
     q\<lparr>pcb_rt_params := (case rt_params of None \<Rightarrow> pcb_rt_params q | Some p \<Rightarrow> p)\<rparr>" for q :: process_control_block
    by (cases rt_params) simp_all
  have fs: "scheduler_rt_feasibility_check f r
      (s\<lparr>process_table := (process_table s)[unat (process_count s) := p]\<rparr>) =
      scheduler_rt_feasibility_check f r s" for r p
    by (rule feasibility_cong) (simp_all add: active_overwrite)
  have none: "scheduler_rt_feasibility_check f None s" by (simp add: scheduler_rt_feasibility_check_def)
  show ?thesis
    using none
    by (cases rt_params)
       (simp_all add: process_create_def created_pcb_def SCHEDULER_MAX_PROCESSES_def Let_def fs)
qed

lemma create_keeps_created:
  assumes "all_created s"
  shows "all_created (snd (snd (process_create f given priority rt_params s)))"
proof (cases "given \<and> unat (process_count s) < 32")
  case False
  then show ?thesis using assms by (auto simp: process_create_cases)
next
  case True
  then have lt: "unat (process_count s) < 32" and given by auto
  have ok: "table_ok s" using assms by (simp add: all_created_def)
  let ?p = "created_pcb priority rt_params s"
  have p: "pcb_state ?p = PROCESS_STATE_CREATED" "pcb_pid ?p = process_count s + 1"
    by (simp_all add: created_pcb_def Let_def)
  have "of_nat (Suc (unat (process_count s))) = process_count s + 1" by simp
  then show ?thesis
    using assms lt \<open>given\<close> p ok
    by (simp add: process_create_cases Let_def all_created_def active_extend active_overwrite unat_inc)
       (simp add: table_ok_def unat_inc)
qed

lemma round_keeps_created:
  assumes "all_created s"
  shows "all_created (fst (round_body t c s))"
proof -
  have i: "select_next s' = 0 \<and> current_pid s' = 0" if "s' = s \<or> s' = s\<lparr>last_deadline_check := t\<rparr>" for s'
    using that all_created_idle [OF assms] assms by (auto simp: select_next_def all_created_def)
  obtain s1 where s1: "s1 = s \<or> s1 = s\<lparr>last_deadline_check := t\<rparr>"
    and r: "fst (round_body t c s) =
       (let s2 = account_time t (context_switch t (select_next s1) s1)
        in s2\<lparr>last_tick_time := t, scheduler_ticks := scheduler_ticks s2 + 1\<rparr>)"
    by (rule round_pieces)
  have "account_time t (context_switch t (select_next s1) s1) = s1"
    using i [OF s1] by (simp add: context_switch_def account_time_def SCHEDULER_IDLE_PID_def)
  with r s1 assms show ?thesis by (auto simp: all_created_def Let_def)
qed

lemma tick_keeps_created: "all_created s \<Longrightarrow> all_created (scheduler_tick t s)"
  by (simp add: all_created_def scheduler_tick_def SCHEDULER_IDLE_PID_def Let_def)

lemma power_keeps_created: "all_created s \<Longrightarrow> all_created (fst (scheduler_use_idle_process t s))"
  by (auto simp: all_created_def scheduler_use_idle_process_def SCHEDULER_IDLE_PID_def Let_def
      low_power_transition_def sleep_transition_def table_ok_def split: prod.splits if_splits)

lemma reachable_all_created: "sched_reachable s \<Longrightarrow> all_created s"
proof (induction rule: sched_reachable.induct)
  case (reach_init t)
  then show ?case
    by (simp add: all_created_def scheduler_init_def table_ok_def active_def SCHEDULER_IDLE_PID_def)
next
  case (reach_step s s')
  then show ?case
    by (auto intro: create_keeps_created round_keeps_created tick_keeps_created power_keeps_created)
qed

text \<open>C36: No process that \<open>process_create\<close> makes ever runs.  In every state that the scheduler's
  operations reach from \<open>scheduler_init\<close>, all processes are still CREATED, the idle process is
  current, and the loop's next choice is idle: nothing in the program makes a process READY.
\<close>

theorem created_processes_never_run:
  assumes "sched_reachable s"
  shows "list_all (\<lambda>p. pcb_state p = PROCESS_STATE_CREATED) (active s) \<and>
         current_pid s = SCHEDULER_IDLE_PID \<and> select_next s = SCHEDULER_IDLE_PID"
  using reachable_all_created [OF assms] all_created_idle
  by (auto simp: all_created_def SCHEDULER_IDLE_PID_def)

section \<open>Witnesses and the remaining behaviour\<close>

text \<open>A function \<open>powf\<close> that rounds down to a multiple of 2^-23.\<close>

definition example_powf :: "rat \<Rightarrow> rat \<Rightarrow> rat" where
  "example_powf x y = of_int \<lfloor>2 ^ 23 * (real_of_rat x powr real_of_rat y)\<rfloor> / 2 ^ 23"

lemma example_powf_2_1: "example_powf 2 1 = 2"
  by (simp add: example_powf_def)

definition example_scheduler :: scheduler_state where
  "example_scheduler = snd (snd (process_create example_powf True PROCESS_PRIORITY_HIGH None
     (snd (scheduler_init 5))))"

text \<open>Two processes that some other means made READY.\<close>

definition two_ready :: scheduler_state where
  "two_ready = (snd (scheduler_init 0))\<lparr>process_count := 2, process_table :=
     [zero_pcb\<lparr>pcb_pid := 1, pcb_state := PROCESS_STATE_READY, pcb_priority := PROCESS_PRIORITY_NORMAL\<rparr>,
      zero_pcb\<lparr>pcb_pid := 2, pcb_state := PROCESS_STATE_READY, pcb_priority := PROCESS_PRIORITY_CRITICAL\<rparr>] @
     replicate 30 zero_pcb\<rparr>"

lemma two_ready_active:
  "active two_ready =
     [zero_pcb\<lparr>pcb_pid := 1, pcb_state := PROCESS_STATE_READY, pcb_priority := PROCESS_PRIORITY_NORMAL\<rparr>,
      zero_pcb\<lparr>pcb_pid := 2, pcb_state := PROCESS_STATE_READY, pcb_priority := PROCESS_PRIORITY_CRITICAL\<rparr>]"
  by (simp add: active_def two_ready_def)

lemma created_processes_never_run_witness:
  "list_all (\<lambda>p. pcb_state p = PROCESS_STATE_CREATED) (active example_scheduler) \<and>
   current_pid example_scheduler = SCHEDULER_IDLE_PID \<and> select_next example_scheduler = SCHEDULER_IDLE_PID"
  by (rule created_processes_never_run)
     (simp only: example_scheduler_def, rule reach_step [OF reach_init step_create])

lemma two_ready_start:
  "rt_initialized two_ready" "last_deadline_check two_ready = 0" "current_pid two_ready = 0"
  by (simp_all add: two_ready_def scheduler_init_def SCHEDULER_IDLE_PID_def)

text \<open>The CRITICAL process 2 runs; process 1 is READY in every state the loop reaches.\<close>

lemma scheduler_dispatches_once_witness:
  "\<exists>s'. scheduler_start 1000 1000 1000 two_ready kernel_time_boot = Inr [Dispatched s'] \<and> current_pid s' = 2 \<and>
     sched_view s' = [(1, PROCESS_STATE_READY, PROCESS_PRIORITY_NORMAL),
                      (2, PROCESS_STATE_RUNNING, PROCESS_PRIORITY_CRITICAL)]"
proof -
  have wf: "sched_wf two_ready"
    by (simp add: sched_wf_def two_ready_active two_ready_start)
  have "best_ready (active two_ready) = Some (active two_ready ! 1)"
    "sched_view two_ready = [(1, PROCESS_STATE_READY, PROCESS_PRIORITY_NORMAL),
                             (2, PROCESS_STATE_READY, PROCESS_PRIORITY_CRITICAL)]"
    by (simp_all add: best_ready_def two_ready_active runnable_def sched_view_def pcb_view_def
        less_eq_process_priority_t_def)
  moreover have "\<not> source_initialized kernel_time_boot (active_source kernel_time_boot)"
    by (simp add: kernel_time_boot_def)
  ultimately show ?thesis
    using scheduler_dispatches_once [OF wf, where fuel = 999 and rounds = 1000 and n = 999 and tm = kernel_time_boot]
    by (simp add: two_ready_start two_ready_active run_pid_def to_running_def)
qed

text \<open>C17: \<open>process_create\<close> appends exactly one CREATED process with the next pid to the table, or
  refuses and leaves the processes in use as they were; it succeeds exactly when the output
  pointer is given, the table has room and the feasibility check accepts.
\<close>

theorem process_create_spec:
  assumes "table_ok s"
  shows "case process_create f given priority rt_params s of (e, pid, s') \<Rightarrow>
    table_ok s' \<and>
    (if given \<and> unat (process_count s) < 32 \<and> scheduler_rt_feasibility_check f rt_params s
     then e = sched_ok \<and> pid = Some (process_count s + 1) \<and>
          active s' = active s @ [created_pcb priority rt_params s]
     else error_code e \<noteq> ERR_SYS_OK \<and> active s' = active s)"
  using assms
  by (auto simp: process_create_cases Let_def active_extend active_overwrite sched_high_def
      system_error_create_def table_ok_def unat_inc)

lemma process_create_spec_witness:
  "case process_create example_powf True PROCESS_PRIORITY_HIGH None example_scheduler of (e, pid, s') \<Rightarrow>
    table_ok s' \<and>
    (if True \<and> unat (process_count example_scheduler) < 32 \<and>
        scheduler_rt_feasibility_check example_powf None example_scheduler
     then e = sched_ok \<and> pid = Some (process_count example_scheduler + 1) \<and>
          active s' = active example_scheduler @ [created_pcb PROCESS_PRIORITY_HIGH None example_scheduler]
     else error_code e \<noteq> ERR_SYS_OK \<and> active s' = active example_scheduler)"
proof (rule process_create_spec)
  show "table_ok example_scheduler"
    using reachable_all_created [OF reach_step [OF reach_init step_create]]
    by (simp add: example_scheduler_def all_created_def)
qed

text \<open>A refused \<open>process_create\<close> leaves the refused real-time parameters in the free slot, and a
  following call without parameters takes them over: the new process is bound to a period and
  deadline that the feasibility check rejected.
\<close>

theorem rejected_parameters_are_inherited:
  assumes "table_ok s" "unat (process_count s) < 32"
    "\<not> scheduler_rt_feasibility_check f (Some p) s"
  shows "case process_create f True prio1 (Some p) s of (_, _, s1) \<Rightarrow>
    case process_create f True prio2 None s1 of (e, pid, s2) \<Rightarrow>
      e = sched_ok \<and> pid = Some (process_count s + 1) \<and>
      pcb_rt_params (last (active s2)) = p \<and> length (active s2) = length (active s) + 1"
proof -
  let ?s1 = "s\<lparr>process_table := (process_table s)[unat (process_count s) := created_pcb prio1 (Some p) s]\<rparr>"
  have s1: "snd (snd (process_create f True prio1 (Some p) s)) = ?s1"
    using assms by (simp add: process_create_cases)
  have t1: "table_ok ?s1" "process_count ?s1 = process_count s" "active ?s1 = active s"
    using assms(1) by (simp_all add: table_ok_def active_overwrite)
  have "pcb_rt_params (created_pcb prio2 None ?s1) = p"
    using assms(1,2) by (simp add: created_pcb_def Let_def table_ok_def)
  moreover have "scheduler_rt_feasibility_check f None ?s1"
    by (simp add: scheduler_rt_feasibility_check_def)
  ultimately show ?thesis
    using process_create_spec [OF t1(1), where f = f and given = True and priority = prio2 and rt_params = None] t1 assms(2) s1
    by (auto split: prod.splits)
qed

text \<open>For periods up to 4294967 ms the check accepts exactly the parameters with
  \<open>0 < deadline \<le> period\<close> and an execution time of at least 1 us and less than the period,
  if the utilisation test agrees.
\<close>

theorem feasibility_check_exact:
  assumes "unat (rt_period_ms p) \<le> 4294967"
  shows "scheduler_rt_feasibility_check powf (Some p) s \<longleftrightarrow>
    0 < unat (rt_deadline_ms p) \<and> unat (rt_deadline_ms p) \<le> unat (rt_period_ms p) \<and>
    0 < unat (rt_worst_case_execution_time_us p) \<and>
    unat (rt_worst_case_execution_time_us p) < 1000 * unat (rt_period_ms p) \<and>
    rms_test powf p s"
proof -
  have m: "unat (rt_period_ms p * 1000) = 1000 * unat (rt_period_ms p)"
    using assms by (simp add: unat_word_ariths)
  show ?thesis
    by (auto simp: scheduler_rt_feasibility_check_def word_less_nat_alt word_le_nat_alt m
        unat_gt_0 unat_eq_zero not_less not_le)
qed

text \<open>The product with 1000 wraps at 32 bits: a task with a period and deadline of 4294968 ms
  (about 72 minutes) and an execution time of 0.704 ms is refused whatever the utilisation test
  says, and its deadline, in the deadline checks, is 704 us.
\<close>

theorem long_period_wraps:
  defines "p \<equiv> \<lparr>rt_period_ms = 4294968, rt_deadline_ms = 4294968,
                rt_worst_case_execution_time_us = 704, rt_jitter_tolerance_us = 0\<rparr>"
  shows "\<not> scheduler_rt_feasibility_check powf (Some p) s \<and>
         deadline_us (zero_pcb\<lparr>pcb_rt_params := p\<rparr>) = 704"
  by (simp add: scheduler_rt_feasibility_check_def p_def deadline_us_def)

text \<open>An idle system that has reached SLEEP leaves it again on every call: the mode goes through
  LOW_POWER back to SLEEP and two timing-violation entries are logged each time.
\<close>

theorem sleep_mode_flaps:
  assumes "current_pid s = SCHEDULER_IDLE_PID"
    and "5000000 < idle_time_accumulated s + (now - last_tick_time s)"
    and "current_power_mode s = POWER_MODE_SLEEP"
  shows "scheduler_use_idle_process now s =
    (s\<lparr>idle_time_accumulated := idle_time_accumulated s + (now - last_tick_time s)\<rparr>,
     safety_log_error @ safety_log_error)"
proof -
  have "1000000 < idle_time_accumulated s + (now - last_tick_time s)"
    using assms(2) by (rule less_trans [rotated]) simp
  with assms show ?thesis
    by (simp add: scheduler_use_idle_process_def Let_def low_power_transition_def sleep_transition_def
        scheduler_enter_low_power_mode_def scheduler_enter_sleep_mode_def)
qed

lemma sleep_mode_flaps_witness:
  "scheduler_use_idle_process 6000000
     ((snd (scheduler_init 0))\<lparr>current_power_mode := POWER_MODE_SLEEP\<rparr>) =
   ((snd (scheduler_init 0))\<lparr>current_power_mode := POWER_MODE_SLEEP, idle_time_accumulated := 6000000\<rparr>,
    safety_log_error @ safety_log_error)"
  using sleep_mode_flaps [of "(snd (scheduler_init 0))\<lparr>current_power_mode := POWER_MODE_SLEEP\<rparr>" 6000000]
  by (simp add: scheduler_init_def)

lemma rejected_parameters_are_inherited_witness:
  "case process_create example_powf True PROCESS_PRIORITY_REALTIME (Some zero_rt_params)
       (snd (scheduler_init 0)) of (_, _, s1) \<Rightarrow>
    case process_create example_powf True PROCESS_PRIORITY_NORMAL None s1 of (e, pid, s2) \<Rightarrow>
      e = sched_ok \<and> pid = Some (process_count (snd (scheduler_init 0)) + 1) \<and>
      pcb_rt_params (last (active s2)) = zero_rt_params \<and>
      length (active s2) = length (active (snd (scheduler_init 0))) + 1"
  by (rule rejected_parameters_are_inherited)
     (simp_all add: table_ok_def scheduler_init_def scheduler_rt_feasibility_check_def zero_rt_params_def)

text \<open>A task that uses half of a processor is accepted as the first task.\<close>

lemma half_load_passes:
  "rms_test example_powf \<lparr>rt_period_ms = 10, rt_deadline_ms = 10, rt_worst_case_execution_time_us = 5000,
      rt_jitter_tolerance_us = 0\<rparr> (snd (scheduler_init 0))"
proof -
  have half: "float_round (1 / 2) = 1 / 2"
    using float_round_to [of "- 1" "1 / 2" 8388608] by (simp add: power_int_minus)
  have u: "fdiv 5000 (fmul 10 1000) = 1 / 2"
    using float_round_of_nat [of 10000] by (simp add: float_ops half)
  have b: "rms_bound example_powf 1 = 1"
    using float_round_of_nat [of 1] by (simp add: rms_bound_def float_ops example_powf_2_1)
  have "fsub 1 safety_margin = 15938355 / 16777216"
    using float_round_to [of "- 1" "255013683 / 268435456" 15938355]
    by (simp add: fsub_def safety_margin_def float_twentieth power_int_minus)
  then show ?thesis
    using float_of_uint_exact [of "10 :: u32"] float_of_uint_exact [of "5000 :: u32"]
    by (simp add: rms_test_def system_utilization_def active_def scheduler_init_def params_utilization_def
        fadd_def half u b)
qed

lemma feasibility_check_exact_witness:
  "scheduler_rt_feasibility_check example_powf
     (Some \<lparr>rt_period_ms = 10, rt_deadline_ms = 10, rt_worst_case_execution_time_us = 5000,
            rt_jitter_tolerance_us = 0\<rparr>) (snd (scheduler_init 0))"
  by (subst feasibility_check_exact) (simp_all add: half_load_passes)

end
