(* ===== verification/Kernel_Interrupt.thy ===== *)
theory Kernel_Interrupt
  imports Hw_Platform
begin

text \<open>
  The interrupt controller of kernel/core/interrupt.h and interrupt.c over the timer driver.  The
  arrays of INTERRUPT_MAX_HANDLERS entries are lists of length 32.  A registered handler is a
  function pointer, an opaque number; what the code behind it does to the controller and to the
  timer is a parameter (\<open>run_handler\<close>).  Calls of \<open>log_client_send_entry\<close> are returned in
  order.  The platform stubs are modelled as they stand, empty.
\<close>

section \<open>State\<close>

definition INTERRUPT_MAX_HANDLERS :: nat where "INTERRUPT_MAX_HANDLERS = 32"
definition INTERRUPT_PRIORITY_LEVELS :: u32 where "INTERRUPT_PRIORITY_LEVELS = 8"
definition MAX_ACCEPTABLE_LATENCY_US :: u64 where "MAX_ACCEPTABLE_LATENCY_US = 50"

record interrupt_controller =
  ic_initialized :: bool
  enabled_irqs :: u32
  pending_irqs :: u32
  ic_handlers :: "nat option list"
  handler_contexts :: "nat list"
  interrupt_counters :: "u32 list"
  latency_measurements :: "u64 list"
  worst_case_latency :: "u64 list"
  last_interrupt_entry_time :: "u64 list"
  latency_sample_count :: "u32 list"
  latency_samples :: "u64 list list"
  interrupt_priorities :: "u32 list"

definition zero_controller :: interrupt_controller where
  "zero_controller =
     \<lparr>ic_initialized = False, enabled_irqs = 0, pending_irqs = 0, ic_handlers = replicate 32 None,
      handler_contexts = replicate 32 0, interrupt_counters = replicate 32 0,
      latency_measurements = replicate 32 0, worst_case_latency = replicate 32 0,
      last_interrupt_entry_time = replicate 32 0, latency_sample_count = replicate 32 0,
      latency_samples = replicate 32 (replicate 16 0), interrupt_priorities = replicate 32 0\<rparr>"

definition irq_error :: "u32 \<Rightarrow> system_error" where
  "irq_error c = system_error_create c ERROR_CATEGORY_SYSTEM ERROR_SEVERITY_HIGH MODULE_ID_INTERRUPT"

definition irq_ok :: system_error where
  "irq_ok = system_error_create ERR_SYS_OK ERROR_CATEGORY_SYSTEM ERROR_SEVERITY_LOW MODULE_ID_INTERRUPT"

text \<open>Level, message and data; the tag is always the same.\<close>

definition irq_log :: "u8 \<Rightarrow> u16 \<Rightarrow> u32 \<Rightarrow> u32 \<Rightarrow> log_call" where
  "irq_log level msg a b = mk_log_call level LOG_TAG_INTERRUPT msg a b"

section \<open>Handling an interrupt\<close>

definition interrupt_get_hardware_timer_value :: "hw_timer_state \<Rightarrow> u64" where
  "interrupt_get_hardware_timer_value tm = hw_timer_get_counter tm"

definition interrupt_ticks_to_us :: "u64 \<Rightarrow> u64" where
  "interrupt_ticks_to_us timer_ticks = timer_ticks * 1000000 div 1000000"

definition record_interrupt_latency ::
  "u32 \<Rightarrow> u64 \<Rightarrow> hw_timer_state \<Rightarrow> interrupt_controller \<Rightarrow> interrupt_controller \<times> log_call list" where
  "record_interrupt_latency irq_number entry_time tm ic =
     (if INTERRUPT_MAX_HANDLERS \<le> unat irq_number then (ic, [])
      else
        let latency_us = interrupt_ticks_to_us (interrupt_get_hardware_timer_value tm - entry_time)
        in (ic\<lparr>latency_measurements := (latency_measurements ic)[unat irq_number := latency_us]\<rparr>,
            if MAX_ACCEPTABLE_LATENCY_US < latency_us then [irq_log LOG_LEVEL_INFO LOG_MSG_INTERRUPT_LATENCY_EXCEEDED irq_number (ucast latency_us)] else []))"

definition calculate_average_latency :: "u32 \<Rightarrow> interrupt_controller \<Rightarrow> u64" where
  "calculate_average_latency irq_number ic =
     (if INTERRUPT_MAX_HANDLERS \<le> unat irq_number then 0 else latency_measurements ic ! unat irq_number)"

text \<open>The handler gets the interrupt number and its context.\<close>

type_synonym handler_effect =
  "nat \<Rightarrow> u32 \<Rightarrow> nat \<Rightarrow> interrupt_controller \<times> hw_timer_state \<Rightarrow> interrupt_controller \<times> hw_timer_state"

definition interrupt_handler ::
  "handler_effect \<Rightarrow> u32 \<Rightarrow> interrupt_controller \<times> hw_timer_state \<Rightarrow>
   (interrupt_controller \<times> hw_timer_state) \<times> log_call list" where
  "interrupt_handler run_handler irq_number = (\<lambda>(ic, tm).
     let entry_time = interrupt_get_hardware_timer_value tm; i = unat irq_number in
     if INTERRUPT_MAX_HANDLERS \<le> i then ((ic, tm), [irq_log LOG_LEVEL_ERROR LOG_MSG_INVALID_INTERRUPT_NUMBER irq_number 0])
     else
       let ic1 = ic\<lparr>interrupt_counters := (interrupt_counters ic)[i := interrupt_counters ic ! i + 1]\<rparr>;
           (ic2, tm2) = (case ic_handlers ic1 ! i of
                           None \<Rightarrow> (ic1, tm)
                         | Some h \<Rightarrow> run_handler h irq_number (handler_contexts ic1 ! i) (ic1, tm));
           (ic3, logs) = record_interrupt_latency irq_number entry_time tm2 ic2
       in ((ic3, tm2), logs))"

section \<open>Statistics and checks\<close>

record interrupt_timing_stats =
  current_latency_us :: u64
  worst_case_latency_us :: u64
  average_latency_us :: u64
  interrupt_count :: u32
  sample_count :: u32

definition interrupt_get_timing_statistics ::
  "u32 \<Rightarrow> bool \<Rightarrow> interrupt_controller \<Rightarrow> system_error \<times> interrupt_timing_stats option" where
  "interrupt_get_timing_statistics irq_number stats_given ic =
     (if \<not> stats_given \<or> INTERRUPT_MAX_HANDLERS \<le> unat irq_number
      then (irq_error ERR_SYS_INVALID_PARAM, None)
      else (irq_ok, Some \<lparr>current_latency_us = latency_measurements ic ! unat irq_number,
                          worst_case_latency_us = latency_measurements ic ! unat irq_number,
                          average_latency_us = calculate_average_latency irq_number ic,
                          interrupt_count = interrupt_counters ic ! unat irq_number,
                          sample_count = 1\<rparr>))"

record interrupt_timing_analysis =
  total_interrupts :: u32
  system_worst_latency :: u64
  worst_latency_irq :: u32
  violation_count :: u32
  compliance_status :: u8

definition zero_analysis :: interrupt_timing_analysis where
  "zero_analysis = \<lparr>total_interrupts = 0, system_worst_latency = 0, worst_latency_irq = 0,
     violation_count = 0, compliance_status = 0\<rparr>"

definition analysis_step ::
  "interrupt_controller \<Rightarrow> nat \<Rightarrow> interrupt_timing_analysis \<Rightarrow> interrupt_timing_analysis" where
  "analysis_step ic i a =
     (if 0 < interrupt_counters ic ! i then
        let a1 = a\<lparr>total_interrupts := total_interrupts a + interrupt_counters ic ! i\<rparr>;
            latency = latency_measurements ic ! i;
            a2 = (if system_worst_latency a1 < latency
                  then a1\<lparr>system_worst_latency := latency, worst_latency_irq := of_nat i\<rparr> else a1)
        in if MAX_ACCEPTABLE_LATENCY_US < latency then a2\<lparr>violation_count := violation_count a2 + 1\<rparr> else a2
      else a)"

definition analyse :: "interrupt_controller \<Rightarrow> interrupt_timing_analysis" where
  "analyse ic =
     (let a = fold (analysis_step ic) [0..<32] zero_analysis
      in a\<lparr>compliance_status := if violation_count a = 0 then 0 else 1\<rparr>)"

definition interrupt_perform_timing_analysis ::
  "bool \<Rightarrow> interrupt_controller \<Rightarrow> system_error \<times> interrupt_timing_analysis option" where
  "interrupt_perform_timing_analysis analysis_given ic =
     (if \<not> analysis_given then (irq_error ERR_SYS_INVALID_PARAM, None) else (irq_ok, Some (analyse ic)))"

definition interrupt_safety_check :: "interrupt_controller \<Rightarrow> system_error \<times> log_call list" where
  "interrupt_safety_check ic =
     (if \<not> ic_initialized ic then
        (system_error_create ERR_SYS_NOT_INIT ERROR_CATEGORY_SAFETY ERROR_SEVERITY_HIGH MODULE_ID_INTERRUPT, [])
      else case find (\<lambda>i. 1000 < interrupt_counters ic ! i) [0..<32] of
             Some i \<Rightarrow>
               (system_error_create ERR_SYS_CONFIG_ERROR ERROR_CATEGORY_SAFETY ERROR_SEVERITY_HIGH MODULE_ID_INTERRUPT,
                [irq_log LOG_LEVEL_ERROR LOG_MSG_INTERRUPT_STORM_DETECTED (of_nat i) (interrupt_counters ic ! i)])
           | None \<Rightarrow>
               let analysis = analyse ic in
               if compliance_status analysis = 1 then
                 (system_error_create ERR_SYS_CONFIG_ERROR ERROR_CATEGORY_SAFETY ERROR_SEVERITY_MEDIUM MODULE_ID_INTERRUPT,
                  [irq_log LOG_LEVEL_INFO LOG_MSG_TIMING_VIOLATION_DETECTED (violation_count analysis) (ucast (system_worst_latency analysis))])
               else
                 (system_error_create ERR_SYS_OK ERROR_CATEGORY_SAFETY ERROR_SEVERITY_LOW MODULE_ID_INTERRUPT, []))"

section \<open>Configuration\<close>

definition interrupt_hw_init :: system_error where "interrupt_hw_init = irq_ok"

definition interrupt_controller_init ::
  "interrupt_controller \<Rightarrow> system_error \<times> interrupt_controller \<times> log_call list" where
  "interrupt_controller_init ic =
     (if ic_initialized ic then
        (system_error_create ERR_SYS_ALREADY_INIT ERROR_CATEGORY_SYSTEM ERROR_SEVERITY_MEDIUM MODULE_ID_INTERRUPT, ic, [])
      else
        let ic1 = zero_controller in
        if error_code interrupt_hw_init \<noteq> ERR_SYS_OK then (interrupt_hw_init, ic1, [])
        else
          let ic2 = ic1\<lparr>ic_initialized := True\<rparr>; (error, logs) = interrupt_safety_check ic2
          in if error_code error \<noteq> ERR_SYS_OK then (error, ic2, logs) else (irq_ok, ic2, logs))"

definition interrupt_hw_set_priority ::
  "u32 \<Rightarrow> u32 \<Rightarrow> interrupt_controller \<Rightarrow> system_error \<times> interrupt_controller \<times> log_call list" where
  "interrupt_hw_set_priority irq_number priority ic =
     (if INTERRUPT_MAX_HANDLERS \<le> unat irq_number then (irq_error ERR_SYS_INVALID_PARAM, ic, [])
      else if INTERRUPT_PRIORITY_LEVELS \<le> priority then (irq_error ERR_SYS_INVALID_PARAM, ic, [])
      else if \<not> ic_initialized ic then (irq_error ERR_SYS_NOT_INITIALIZED, ic, [])
      else (irq_ok,
            ic\<lparr>interrupt_priorities := (interrupt_priorities ic)[unat irq_number := priority]\<rparr>,
            [irq_log LOG_LEVEL_DEBUG LOG_MSG_INTERRUPT_PRIORITY_SET irq_number priority]))"

definition interrupt_register_handler ::
  "u32 \<Rightarrow> u32 \<Rightarrow> nat option \<Rightarrow> nat \<Rightarrow> interrupt_controller \<Rightarrow>
   system_error \<times> interrupt_controller \<times> log_call list" where
  "interrupt_register_handler irq_number priority handler ctxt ic =
     (if \<not> ic_initialized ic then (irq_error ERR_SYS_NOT_INITIALIZED, ic, [])
      else if INTERRUPT_MAX_HANDLERS \<le> unat irq_number then (irq_error ERR_SYS_INVALID_PARAM, ic, [])
      else if handler = None then (irq_error ERR_BASE_NULL_PTR, ic, [])
      else
        let ic1 = ic\<lparr>ic_handlers := (ic_handlers ic)[unat irq_number := handler],
                     handler_contexts := (handler_contexts ic)[unat irq_number := ctxt]\<rparr>;
            (error, ic2, logs) = interrupt_hw_set_priority irq_number priority ic1
        in if error_code error \<noteq> ERR_SYS_OK then (error, ic2, logs) else (irq_ok, ic2, logs))"

definition interrupt_hw_enable :: "u32 \<Rightarrow> system_error \<times> log_call list" where
  "interrupt_hw_enable irq_number =
     (if INTERRUPT_MAX_HANDLERS \<le> unat irq_number then (irq_error ERR_SYS_INVALID_PARAM, [])
      else (irq_ok, [irq_log LOG_LEVEL_DEBUG LOG_MSG_INTERRUPT_ENABLED irq_number 0]))"

definition interrupt_enable ::
  "u32 \<Rightarrow> interrupt_controller \<Rightarrow> system_error \<times> interrupt_controller \<times> log_call list" where
  "interrupt_enable irq_number ic =
     (if \<not> ic_initialized ic then (irq_error ERR_SYS_NOT_INITIALIZED, ic, [])
      else if INTERRUPT_MAX_HANDLERS \<le> unat irq_number then (irq_error ERR_SYS_INVALID_PARAM, ic, [])
      else
        let (error, logs) = interrupt_hw_enable irq_number in
        (error,
         if error_code error = ERR_SYS_OK
         then ic\<lparr>enabled_irqs := or (enabled_irqs ic) (push_bit (unat irq_number) 1)\<rparr> else ic,
         logs))"

definition interrupt_hw_get_priority ::
  "u32 \<Rightarrow> bool \<Rightarrow> interrupt_controller \<Rightarrow> system_error \<times> u32 option" where
  "interrupt_hw_get_priority irq_number priority_given ic =
     (if \<not> priority_given \<or> INTERRUPT_MAX_HANDLERS \<le> unat irq_number
      then (irq_error ERR_SYS_INVALID_PARAM, None)
      else if \<not> ic_initialized ic then (irq_error ERR_SYS_NOT_INITIALIZED, None)
      else (irq_ok, Some (interrupt_priorities ic ! unat irq_number)))"

definition interrupt_verify_priority ::
  "u32 \<Rightarrow> u32 \<Rightarrow> interrupt_controller \<Rightarrow> system_error \<times> log_call list" where
  "interrupt_verify_priority irq_number expected_priority ic =
     (case interrupt_hw_get_priority irq_number True ic of (result, actual) \<Rightarrow>
        if error_code result \<noteq> ERR_SYS_OK then (result, [])
        else if actual \<noteq> Some expected_priority
        then (irq_error ERR_SYS_CONFIG_ERROR, [irq_log LOG_LEVEL_ERROR LOG_MSG_INTERRUPT_PRIORITY_MISMATCH irq_number expected_priority])
        else (irq_ok, []))"

section \<open>Shape\<close>

definition ic_ok :: "interrupt_controller \<Rightarrow> bool" where
  "ic_ok ic \<longleftrightarrow> length (ic_handlers ic) = 32 \<and> length (handler_contexts ic) = 32 \<and>
     length (interrupt_counters ic) = 32 \<and> length (latency_measurements ic) = 32 \<and>
     length (interrupt_priorities ic) = 32"

lemma zero_controller_ok [simp]: "ic_ok zero_controller"
  by (simp add: ic_ok_def zero_controller_def)

lemma record_latency_ok [simp]: "ic_ok (fst (record_interrupt_latency irq t tm ic)) = ic_ok ic"
  by (simp add: record_interrupt_latency_def ic_ok_def Let_def)

lemma record_latency_fields [simp]:
  "ic_initialized (fst (record_interrupt_latency irq t tm ic)) = ic_initialized ic"
  "interrupt_counters (fst (record_interrupt_latency irq t tm ic)) = interrupt_counters ic"
  "ic_handlers (fst (record_interrupt_latency irq t tm ic)) = ic_handlers ic"
  by (simp_all add: record_interrupt_latency_def Let_def)

lemma set_priority_ok [simp]: "ic_ok (fst (snd (interrupt_hw_set_priority irq p ic))) = ic_ok ic"
  by (simp add: interrupt_hw_set_priority_def ic_ok_def)

lemma register_handler_ok [simp]:
  "ic_ok (fst (snd (interrupt_register_handler irq p h c ic))) = ic_ok ic"
  by (simp add: interrupt_register_handler_def Let_def case_prod_unfold) (simp add: ic_ok_def)

lemma enable_ok [simp]: "ic_ok (fst (snd (interrupt_enable irq ic))) = ic_ok ic"
  by (simp add: interrupt_enable_def Let_def case_prod_unfold ic_ok_def)

section \<open>Ticks and microseconds\<close>

text \<open>The timer runs at 1 MHz, so a tick is a microsecond; the conversion gives that value exactly
  when multiplying by 1000000 does not overflow 64 bits, and a smaller one otherwise.
\<close>

theorem ticks_to_us_exact_iff:
  "(interrupt_ticks_to_us t = t \<longleftrightarrow> unat t * 1000000 < 2 ^ 64) \<and> interrupt_ticks_to_us t \<le> t"
proof -
  have u: "unat (interrupt_ticks_to_us t) = unat t * 1000000 mod 2 ^ 64 div 1000000"
    by (simp add: interrupt_ticks_to_us_def unat_div unat_word_ariths)
  have le: "unat (interrupt_ticks_to_us t) \<le> unat t"
    unfolding u by (rule order_trans [OF div_le_mono [OF mod_less_eq_dividend]]) simp
  then have wle: "interrupt_ticks_to_us t \<le> t" by (simp add: word_le_nat_alt)
  show ?thesis
  proof (cases "unat t * 1000000 < 2 ^ 64")
    case True
    then have "unat (interrupt_ticks_to_us t) = unat t" by (simp add: u)
    with True wle show ?thesis by (simp add: word_unat_eq_iff)
  next
    case False
    have "unat t * 1000000 mod 2 ^ 64 < 2 ^ 64" by simp
    with False have "unat t * 1000000 mod 2 ^ 64 < unat t * 1000000" by linarith
    then have "unat (interrupt_ticks_to_us t) < unat t"
      unfolding u by (simp add: div_less_iff_less_mult)
    with False le show ?thesis by (auto simp: word_le_nat_alt)
  qed
qed

section \<open>The analysis\<close>

definition used_lines :: "interrupt_controller \<Rightarrow> nat list" where
  "used_lines ic = filter (\<lambda>i. 0 < interrupt_counters ic ! i) [0..<32]"

definition late_lines :: "interrupt_controller \<Rightarrow> nat list" where
  "late_lines ic = filter (\<lambda>i. 50 < latency_measurements ic ! i) (used_lines ic)"

text \<open>The loop over any list of lines, from any partial result.\<close>

lemma analysis_fold:
  "total_interrupts (fold (analysis_step ic) lines a) =
           total_interrupts a + sum_list (map ((!) (interrupt_counters ic)) (filter (\<lambda>i. 0 < interrupt_counters ic ! i) lines)) \<and>
         system_worst_latency (fold (analysis_step ic) lines a) =
           fold max (map ((!) (latency_measurements ic)) (filter (\<lambda>i. 0 < interrupt_counters ic ! i) lines)) (system_worst_latency a) \<and>
         violation_count (fold (analysis_step ic) lines a) =
           violation_count a + of_nat (length (filter (\<lambda>i. 50 < latency_measurements ic ! i) (filter (\<lambda>i. 0 < interrupt_counters ic ! i) lines)))"
proof (induction lines arbitrary: a)
  case (Cons i lines)
  have "total_interrupts (analysis_step ic i a) =
      (if 0 < interrupt_counters ic ! i then total_interrupts a + interrupt_counters ic ! i else total_interrupts a)"
    "system_worst_latency (analysis_step ic i a) =
      (if 0 < interrupt_counters ic ! i then max (latency_measurements ic ! i) (system_worst_latency a)
       else system_worst_latency a)"
    "violation_count (analysis_step ic i a) =
      (if 0 < interrupt_counters ic ! i \<and> 50 < latency_measurements ic ! i then violation_count a + 1
       else violation_count a)"
    by (auto simp: analysis_step_def Let_def MAX_ACCEPTABLE_LATENCY_US_def)
  then show ?case using Cons [of "analysis_step ic i a"] by (simp add: algebra_simps)
qed simp

lemma late_lines_bound: "length (late_lines ic) \<le> 32"
  unfolding late_lines_def used_lines_def
  by (rule order_trans [OF length_filter_le], rule order_trans [OF length_filter_le]) simp

text \<open>The timing analysis adds the counters of the lines that have interrupted (modulo \<open>2^32\<close>),
  takes the maximum of their last latencies, counts those above 50 us, and reports compliance
  exactly when there are none.
\<close>

theorem timing_analysis_spec:
  "interrupt_perform_timing_analysis True ic = (irq_ok, Some (analyse ic)) \<and>
   total_interrupts (analyse ic) = sum_list (map ((!) (interrupt_counters ic)) (used_lines ic)) \<and>
   system_worst_latency (analyse ic) = fold max (map ((!) (latency_measurements ic)) (used_lines ic)) 0 \<and>
   unat (violation_count (analyse ic)) = length (late_lines ic) \<and>
   (compliance_status (analyse ic) = 0 \<longleftrightarrow> late_lines ic = [])"
proof -
  define a where "a = fold (analysis_step ic) [0..<32] zero_analysis"
  have f: "total_interrupts a = sum_list (map ((!) (interrupt_counters ic)) (used_lines ic))"
    "system_worst_latency a = fold max (map ((!) (latency_measurements ic)) (used_lines ic)) 0"
    "violation_count a = of_nat (length (late_lines ic))"
    using analysis_fold [of ic "[0..<32]" zero_analysis]
    by (simp_all only: a_def late_lines_def used_lines_def zero_analysis_def
        interrupt_timing_analysis.simps add_0_left)
  have n: "unat (of_nat (length (late_lines ic)) :: u32) = length (late_lines ic)"
    using late_lines_bound [of ic] by (simp add: unat_of_nat)
  have "violation_count a = 0 \<longleftrightarrow> late_lines ic = []"
    by (simp only: f(3) n length_0_conv flip: unat_eq_zero)
  moreover have "analyse ic = a\<lparr>compliance_status := if violation_count a = 0 then 0 else 1\<rparr>"
    by (simp only: analyse_def a_def Let_def)
  ultimately show ?thesis
    using f n by (simp add: interrupt_perform_timing_analysis_def)
qed

section \<open>The storm check counts for ever\<close>

text \<open>n interrupts on a line that has no handler, at any timer readings.\<close>

fun repeat_interrupt ::
  "handler_effect \<Rightarrow> u32 \<Rightarrow> hw_timer_state list \<Rightarrow> interrupt_controller \<Rightarrow> interrupt_controller" where
  "repeat_interrupt run irq [] ic = ic"
| "repeat_interrupt run irq (tm # tms) ic =
     repeat_interrupt run irq tms (fst (fst (interrupt_handler run irq (ic, tm))))"

lemma interrupt_handler_plain:
  assumes "ic_ok ic" "unat irq < 32" "ic_handlers ic ! unat irq = None"
  shows "ic_ok (fst (fst (interrupt_handler run irq (ic, tm))))"
    "interrupt_counters (fst (fst (interrupt_handler run irq (ic, tm)))) =
       (interrupt_counters ic)[unat irq := interrupt_counters ic ! unat irq + 1]"
    "ic_handlers (fst (fst (interrupt_handler run irq (ic, tm)))) = ic_handlers ic"
    "ic_initialized (fst (fst (interrupt_handler run irq (ic, tm)))) = ic_initialized ic"
proof -
  let ?ic1 = "ic\<lparr>interrupt_counters := (interrupt_counters ic)[unat irq := interrupt_counters ic ! unat irq + 1]\<rparr>"
  have h: "fst (fst (interrupt_handler run irq (ic, tm))) =
      fst (record_interrupt_latency irq (interrupt_get_hardware_timer_value tm) tm ?ic1)"
    using assms by (simp add: interrupt_handler_def INTERRUPT_MAX_HANDLERS_def Let_def case_prod_unfold)
  have "ic_ok ?ic1" using assms(1) by (simp add: ic_ok_def)
  then show "ic_ok (fst (fst (interrupt_handler run irq (ic, tm))))" by (simp add: h)
  show "interrupt_counters (fst (fst (interrupt_handler run irq (ic, tm)))) =
       (interrupt_counters ic)[unat irq := interrupt_counters ic ! unat irq + 1]"
    "ic_handlers (fst (fst (interrupt_handler run irq (ic, tm)))) = ic_handlers ic"
    "ic_initialized (fst (fst (interrupt_handler run irq (ic, tm)))) = ic_initialized ic"
    by (simp_all add: h)
qed

lemma repeat_interrupt_count:
  assumes "ic_ok ic" "unat irq < 32" "ic_handlers ic ! unat irq = None"
  shows "ic_ok (repeat_interrupt run irq tms ic) \<and>
    ic_initialized (repeat_interrupt run irq tms ic) = ic_initialized ic \<and>
    interrupt_counters (repeat_interrupt run irq tms ic) ! unat irq =
      interrupt_counters ic ! unat irq + of_nat (length tms)"
  using assms
proof (induction tms arbitrary: ic)
  case (Cons tm tms)
  note h = interrupt_handler_plain [OF Cons.prems, of run tm]
  have "length (interrupt_counters ic) = 32" using Cons.prems(1) by (simp add: ic_ok_def)
  then show ?case
    using Cons.IH [OF h(1)] Cons.prems(2,3) h by (simp add: algebra_simps)
qed simp

definition ic_started :: interrupt_controller where
  "ic_started = fst (snd (interrupt_controller_init zero_controller))"

lemma ic_started_eq: "ic_started = zero_controller\<lparr>ic_initialized := True\<rparr>"
  by (simp add: ic_started_def interrupt_controller_init_def interrupt_hw_init_def irq_ok_def
      zero_controller_def Let_def case_prod_unfold)

text \<open>Nothing clears the interrupt counters, so the storm check measures the age of the system: a
  line that has interrupted more than 1000 times since start-up, however slowly, makes every
  later safety check fail.
\<close>

theorem storm_check_is_cumulative:
  assumes "unat irq < 32" "1000 < length tms" "length tms < 2 ^ 32"
  shows "error_code (fst (interrupt_safety_check (repeat_interrupt run irq tms ic_started))) =
         ERR_SYS_CONFIG_ERROR"
proof -
  let ?ic = "repeat_interrupt run irq tms ic_started"
  have ok: "ic_ok ic_started" by (simp add: ic_started_eq ic_ok_def zero_controller_def)
  have z: "ic_handlers ic_started ! unat irq = None" "interrupt_counters ic_started ! unat irq = 0"
    using assms(1) by (simp_all add: ic_started_eq zero_controller_def)
  have c: "interrupt_counters ?ic ! unat irq = of_nat (length tms)" and i: "ic_initialized ?ic"
    using repeat_interrupt_count [OF ok assms(1) z(1), of run tms] z(2)
    by (auto simp: ic_started_eq)
  have "1000 < interrupt_counters ?ic ! unat irq"
    using assms(2,3) by (simp add: c word_less_nat_alt unat_of_nat)
  then have "find (\<lambda>i. 1000 < interrupt_counters ?ic ! i) [0..<32] \<noteq> None"
    using assms(1) by (auto simp: find_None_iff simp del: upt_rec_numeral)
  then obtain j where "find (\<lambda>i. 1000 < interrupt_counters ?ic ! i) [0..<32] = Some j" by blast
  then show ?thesis using i by (simp add: interrupt_safety_check_def del: upt_rec_numeral)
qed

lemma storm_check_is_cumulative_witness:
  "error_code (fst (interrupt_safety_check
     (repeat_interrupt (\<lambda>_ _ _ w. w) 0 (replicate 1001 hw_timer_boot) ic_started))) = ERR_SYS_CONFIG_ERROR"
  by (rule storm_check_is_cumulative) (simp_all)

section \<open>Registration\<close>

text \<open>The handler is stored before the priority is checked: a registration that is refused for its
  priority has installed the handler, and the next interrupt on the line calls it.
\<close>

theorem refused_registration_installs_handler:
  assumes "ic_ok ic" "ic_initialized ic" "unat irq < 32" "8 \<le> priority"
  shows "case interrupt_register_handler irq priority (Some h) ctxt ic of (e, ic', logs) \<Rightarrow>
    error_code e = ERR_SYS_INVALID_PARAM \<and> logs = [] \<and>
    ic_handlers ic' ! unat irq = Some h \<and> handler_contexts ic' ! unat irq = ctxt \<and>
    interrupt_priorities ic' = interrupt_priorities ic"
  using assms
  by (simp add: interrupt_register_handler_def interrupt_hw_set_priority_def INTERRUPT_MAX_HANDLERS_def
      INTERRUPT_PRIORITY_LEVELS_def irq_error_def ic_ok_def Let_def)

lemma refused_registration_installs_handler_witness:
  "case interrupt_register_handler 5 8 (Some 77) 3 ic_started of (e, ic', logs) \<Rightarrow>
    error_code e = ERR_SYS_INVALID_PARAM \<and> logs = [] \<and>
    ic_handlers ic' ! unat (5 :: u32) = Some 77 \<and> handler_contexts ic' ! unat (5 :: u32) = 3 \<and>
    interrupt_priorities ic' = interrupt_priorities ic_started"
  by (rule refused_registration_installs_handler)
     (simp_all add: ic_started_eq ic_ok_def zero_controller_def)

text \<open>C19: An accepted registration stores handler, context and priority of its line and of no other,
  the verification of that priority succeeds, and that of any other fails.
\<close>

theorem register_verify_roundtrip:
  assumes "ic_ok ic" "ic_initialized ic" "unat irq < 32" "priority < 8"
  shows "case interrupt_register_handler irq priority (Some h) ctxt ic of (e, ic', _) \<Rightarrow>
    e = irq_ok \<and>
    ic_handlers ic' = (ic_handlers ic)[unat irq := Some h] \<and>
    handler_contexts ic' = (handler_contexts ic)[unat irq := ctxt] \<and>
    interrupt_priorities ic' = (interrupt_priorities ic)[unat irq := priority] \<and>
    (error_code (fst (interrupt_verify_priority irq q ic')) = ERR_SYS_OK \<longleftrightarrow> q = priority)"
  using assms
  by (auto simp: interrupt_register_handler_def interrupt_hw_set_priority_def INTERRUPT_MAX_HANDLERS_def
      INTERRUPT_PRIORITY_LEVELS_def irq_error_def irq_ok_def ic_ok_def Let_def not_le
      interrupt_verify_priority_def interrupt_hw_get_priority_def)

lemma register_verify_roundtrip_witness:
  "case interrupt_register_handler 5 7 (Some 77) 3 ic_started of (e, ic', _) \<Rightarrow>
    e = irq_ok \<and>
    ic_handlers ic' = (ic_handlers ic_started)[unat (5 :: u32) := Some 77] \<and>
    handler_contexts ic' = (handler_contexts ic_started)[unat (5 :: u32) := 3] \<and>
    interrupt_priorities ic' = (interrupt_priorities ic_started)[unat (5 :: u32) := 7] \<and>
    (error_code (fst (interrupt_verify_priority 5 6 ic')) = ERR_SYS_OK \<longleftrightarrow> 6 = (7 :: u32))"
  by (rule register_verify_roundtrip)
     (simp_all add: ic_started_eq ic_ok_def zero_controller_def)

text \<open>Enabling a line sets its bit in the mask and no other.\<close>

lemma enable_sets_bit:
  assumes "ic_initialized ic" "unat irq < 32" "n < 32"
  shows "bit (enabled_irqs (fst (snd (interrupt_enable irq ic)))) n \<longleftrightarrow>
         bit (enabled_irqs ic) n \<or> n = unat irq"
  using assms
  by (auto simp: interrupt_enable_def interrupt_hw_enable_def INTERRUPT_MAX_HANDLERS_def irq_ok_def
      bit_or_iff bit_push_bit_iff bit_1_iff simp del: push_bit_of_1)

end
