(* ===== verification/Kernel_Watchdog.thy ===== *)
theory Kernel_Watchdog
  imports System_Errors
begin

text \<open>
  The kernel side of the watchdog management, lib/watchdog/watchdog.h and watchdog.c.  The result
  of \<open>ipc_register_topic\<close> (declared in kernel/core/ipc.h, defined nowhere) is an argument of
  \<open>kernel_watchdog_init\<close>.  Calls of \<open>log_client_send_entry\<close> are returned.  A plain \<open>char\<close> is
  signed, as it is on the build host.
\<close>

section \<open>State\<close>

datatype kernel_watchdog_level_t =
    KERNEL_WATCHDOG_LEVEL_SCHEDULER
  | KERNEL_WATCHDOG_LEVEL_MEMORY
  | KERNEL_WATCHDOG_LEVEL_IPC
  | KERNEL_WATCHDOG_LEVEL_SYSCALL

fun level_value :: "kernel_watchdog_level_t \<Rightarrow> u32" where
  "level_value KERNEL_WATCHDOG_LEVEL_SCHEDULER = 0"
| "level_value KERNEL_WATCHDOG_LEVEL_MEMORY = 1"
| "level_value KERNEL_WATCHDOG_LEVEL_IPC = 2"
| "level_value KERNEL_WATCHDOG_LEVEL_SYSCALL = 3"

datatype kernel_watchdog_state_t =
    KERNEL_WATCHDOG_STATE_DISABLED
  | KERNEL_WATCHDOG_STATE_ARMED
  | KERNEL_WATCHDOG_STATE_TRIGGERED

record watchdog_component =
  wc_level :: kernel_watchdog_level_t
  wc_timeout_ms :: u32
  wc_component_name :: string
  wc_last_pet_time :: u64
  wc_state :: kernel_watchdog_state_t

record kernel_watchdog =
  kw_initialized :: bool
  kw_component_count :: u32
  kw_components :: "watchdog_component list"

definition zero_component :: watchdog_component where
  "zero_component = \<lparr>wc_level = KERNEL_WATCHDOG_LEVEL_SCHEDULER, wc_timeout_ms = 0,
     wc_component_name = [], wc_last_pet_time = 0, wc_state = KERNEL_WATCHDOG_STATE_DISABLED\<rparr>"

definition kernel_watchdog_boot :: kernel_watchdog where
  "kernel_watchdog_boot = \<lparr>kw_initialized = False, kw_component_count = 0,
     kw_components = replicate 8 zero_component\<rparr>"

definition MODULE_ID_WATCHDOG :: u16 where "MODULE_ID_WATCHDOG = 0x7000"

definition watchdog_error_success :: system_error where
  "watchdog_error_success =
     system_error_create ERR_SYS_OK ERROR_CATEGORY_SYSTEM ERROR_SEVERITY_NONE MODULE_ID_WATCHDOG"

definition watchdog_error_already_initialized :: system_error where
  "watchdog_error_already_initialized =
     system_error_create ERR_SYS_ALREADY_INIT ERROR_CATEGORY_SYSTEM ERROR_SEVERITY_WARNING MODULE_ID_WATCHDOG"

definition watchdog_error_not_initialized :: system_error where
  "watchdog_error_not_initialized =
     system_error_create ERR_SYS_NOT_INIT ERROR_CATEGORY_SYSTEM ERROR_SEVERITY_MEDIUM MODULE_ID_WATCHDOG"

definition watchdog_error_resource_exhausted :: system_error where
  "watchdog_error_resource_exhausted =
     system_error_create ERR_SYS_RESOURCE_UNAVAIL ERROR_CATEGORY_SYSTEM ERROR_SEVERITY_MEDIUM MODULE_ID_WATCHDOG"

definition watchdog_error_invalid_parameter :: system_error where
  "watchdog_error_invalid_parameter =
     system_error_create ERR_SYS_INVALID_PARAM ERROR_CATEGORY_SYSTEM ERROR_SEVERITY_MEDIUM MODULE_ID_WATCHDOG"

section \<open>Operations\<close>

definition kernel_watchdog_init :: "system_error \<Rightarrow> kernel_watchdog \<Rightarrow> system_error \<times> kernel_watchdog" where
  "kernel_watchdog_init register_result w =
     (if kw_initialized w then (watchdog_error_already_initialized, w)
      else
        let w1 = kernel_watchdog_boot\<lparr>kw_initialized := True\<rparr> in
        if error_code register_result \<noteq> ERR_BASE_OK
        then (register_result, w1\<lparr>kw_initialized := False\<rparr>)
        else (watchdog_error_success, w1))"

definition hash_step :: "u32 \<Rightarrow> char \<Rightarrow> u32" where
  "hash_step name_hash c = push_bit 5 name_hash - name_hash + scast (of_char c :: u8)"

definition name_hash :: "string \<Rightarrow> u32" where
  "name_hash name = foldl hash_step 0 name"

definition watchdog_log_component_register :: "kernel_watchdog_level_t \<Rightarrow> string \<Rightarrow> log_call list" where
  "watchdog_log_component_register level name = [mk_log_call LOG_LEVEL_INFO LOG_TAG_KERNEL LOG_MSG_SERVICE_READY (level_value level) (name_hash name)]"

definition watchdog_log_timeout_event :: "kernel_watchdog_level_t \<Rightarrow> log_call list" where
  "watchdog_log_timeout_event level = [mk_log_call LOG_LEVEL_EMERGENCY LOG_TAG_KERNEL LOG_MSG_SERVICE_ERROR (level_value level) 0]"

text \<open>\<open>strncpy\<close> copies at most 31 characters into the zeroed field of 32.\<close>

definition kernel_watchdog_register ::
  "kernel_watchdog_level_t \<Rightarrow> u32 \<Rightarrow> string \<Rightarrow> kernel_watchdog \<Rightarrow>
   system_error \<times> kernel_watchdog \<times> log_call list" where
  "kernel_watchdog_register level timeout_ms component_name w =
     (if \<not> kw_initialized w then (watchdog_error_not_initialized, w, [])
      else if 8 \<le> kw_component_count w then (watchdog_error_resource_exhausted, w, [])
      else if timeout_ms < 10 \<or> 10000 < timeout_ms then (watchdog_error_invalid_parameter, w, [])
      else
        let index = unat (kw_component_count w);
            c = (kw_components w ! index)\<lparr>wc_level := level, wc_timeout_ms := timeout_ms,
                  wc_state := KERNEL_WATCHDOG_STATE_DISABLED, wc_component_name := take 31 component_name\<rparr>
        in (watchdog_error_success,
            w\<lparr>kw_component_count := kw_component_count w + 1,
              kw_components := (kw_components w)[index := c]\<rparr>,
            watchdog_log_component_register level component_name))"

definition registered :: "kernel_watchdog \<Rightarrow> watchdog_component list" where
  "registered w = take (unat (kw_component_count w)) (kw_components w)"

text \<open>The recovery switch has only empty cases.\<close>

definition kernel_watchdog_timeout_handler ::
  "kernel_watchdog_level_t \<Rightarrow> kernel_watchdog \<Rightarrow> kernel_watchdog \<times> log_call list" where
  "kernel_watchdog_timeout_handler level w =
     (w\<lparr>kw_components :=
          update_first (\<lambda>c. wc_level c = level) (\<lambda>c. c\<lparr>wc_state := KERNEL_WATCHDOG_STATE_TRIGGERED\<rparr>)
            (registered w) @ drop (unat (kw_component_count w)) (kw_components w)\<rparr>,
      if list_ex (\<lambda>c. wc_level c = level) (registered w) then watchdog_log_timeout_event level else [])"

section \<open>Registration and timeouts\<close>

definition watchdog_ok :: "kernel_watchdog \<Rightarrow> bool" where
  "watchdog_ok w \<longleftrightarrow> length (kw_components w) = 8 \<and> unat (kw_component_count w) \<le> 8 \<and>
     list_all (\<lambda>c. wc_last_pet_time c = 0 \<and> wc_state c \<noteq> KERNEL_WATCHDOG_STATE_ARMED) (kw_components w) \<and>
     list_all (\<lambda>c. 10 \<le> unat (wc_timeout_ms c) \<and> unat (wc_timeout_ms c) \<le> 10000 \<and>
                   length (wc_component_name c) \<le> 31) (registered w)"

lemma boot_ok: "watchdog_ok kernel_watchdog_boot" "watchdog_ok (kernel_watchdog_boot\<lparr>kw_initialized := b\<rparr>)"
  by (simp_all add: watchdog_ok_def kernel_watchdog_boot_def zero_component_def registered_def list_all_iff)

lemma init_ok: "watchdog_ok w \<Longrightarrow> watchdog_ok (snd (kernel_watchdog_init r w))"
  using boot_ok by (simp add: kernel_watchdog_init_def Let_def)

lemma register_extends:
  assumes "watchdog_ok w" "kw_initialized w" "unat (kw_component_count w) < 8"
    "10 \<le> unat timeout" "unat timeout \<le> 10000"
  shows "registered (fst (snd (kernel_watchdog_register level timeout name w))) =
    registered w @ [\<lparr>wc_level = level, wc_timeout_ms = timeout, wc_component_name = take 31 name,
                     wc_last_pet_time = 0, wc_state = KERNEL_WATCHDOG_STATE_DISABLED\<rparr>]"
proof -
  let ?i = "unat (kw_component_count w)"
  have "?i < length (kw_components w)" using assms(1,3) by (simp add: watchdog_ok_def)
  then have "wc_last_pet_time (kw_components w ! ?i) = 0"
    using assms(1) by (simp add: watchdog_ok_def list_all_length)
  then have c: "(kw_components w ! ?i)\<lparr>wc_level := level, wc_timeout_ms := timeout,
      wc_state := KERNEL_WATCHDOG_STATE_DISABLED, wc_component_name := take 31 name\<rparr> =
    \<lparr>wc_level = level, wc_timeout_ms = timeout, wc_component_name = take 31 name,
     wc_last_pet_time = 0, wc_state = KERNEL_WATCHDOG_STATE_DISABLED\<rparr>"
    by simp
  show ?thesis
    using assms c
    by (simp add: kernel_watchdog_register_def Let_def registered_def watchdog_ok_def unat_inc
        take_Suc_conv_app_nth word_le_nat_alt word_less_nat_alt)
qed

lemma register_ok:
  assumes "watchdog_ok w"
  shows "watchdog_ok (fst (snd (kernel_watchdog_register level timeout name w)))"
proof (cases "kw_initialized w \<and> unat (kw_component_count w) < 8 \<and> 10 \<le> unat timeout \<and> unat timeout \<le> 10000")
  case False
  then show ?thesis
    using assms by (auto simp: kernel_watchdog_register_def word_le_nat_alt word_less_nat_alt)
next
  case True
  let ?w = "fst (snd (kernel_watchdog_register level timeout name w))"
  have "unat (kw_component_count w) < length (kw_components w)"
    using assms True by (simp add: watchdog_ok_def)
  then have "wc_last_pet_time (kw_components w ! unat (kw_component_count w)) = 0"
    using assms by (simp add: watchdog_ok_def list_all_length)
  then have "length (kw_components ?w) = 8 \<and> unat (kw_component_count ?w) \<le> 8 \<and>
     list_all (\<lambda>c. wc_last_pet_time c = 0 \<and> wc_state c \<noteq> KERNEL_WATCHDOG_STATE_ARMED) (kw_components ?w)"
    using assms True
    by (simp add: kernel_watchdog_register_def Let_def watchdog_ok_def unat_inc word_le_nat_alt
        word_less_nat_alt list_all_length nth_list_update)
  moreover have "list_all (\<lambda>c. 10 \<le> unat (wc_timeout_ms c) \<and> unat (wc_timeout_ms c) \<le> 10000 \<and>
                   length (wc_component_name c) \<le> 31) (registered ?w)"
    using register_extends [of w timeout level name] assms True by (simp add: watchdog_ok_def)
  ultimately show ?thesis by (simp add: watchdog_ok_def)
qed

lemma registered_timeout:
  "registered (fst (kernel_watchdog_timeout_handler level w)) =
     update_first (\<lambda>c. wc_level c = level) (\<lambda>c. c\<lparr>wc_state := KERNEL_WATCHDOG_STATE_TRIGGERED\<rparr>) (registered w)"
  by (auto simp: kernel_watchdog_timeout_handler_def registered_def)

lemma list_all_update_first:
  "list_all P xs \<Longrightarrow> (\<And>x. P x \<Longrightarrow> P (f x)) \<Longrightarrow> list_all P (update_first Q f xs)"
  by (induction xs) auto

lemma timeout_ok:
  assumes "watchdog_ok w"
  shows "watchdog_ok (fst (kernel_watchdog_timeout_handler level w))"
proof -
  let ?P = "\<lambda>c. wc_last_pet_time c = 0 \<and> wc_state c \<noteq> KERNEL_WATCHDOG_STATE_ARMED"
  have "list_all ?P (registered w @ drop (unat (kw_component_count w)) (kw_components w))"
    using assms by (simp add: watchdog_ok_def registered_def)
  then have "list_all ?P (kw_components (fst (kernel_watchdog_timeout_handler level w)))"
    by (auto simp: kernel_watchdog_timeout_handler_def intro: list_all_update_first)
  moreover have "length (kw_components (fst (kernel_watchdog_timeout_handler level w))) = 8"
    using assms by (simp add: kernel_watchdog_timeout_handler_def registered_def watchdog_ok_def)
  moreover have "kw_component_count (fst (kernel_watchdog_timeout_handler level w)) = kw_component_count w"
    by (simp add: kernel_watchdog_timeout_handler_def)
  ultimately show ?thesis
    using assms by (auto simp: watchdog_ok_def registered_timeout intro: list_all_update_first)
qed

inductive watchdog_reachable :: "kernel_watchdog \<Rightarrow> bool" where
  wr_boot: "watchdog_reachable kernel_watchdog_boot"
| wr_init: "watchdog_reachable w \<Longrightarrow> watchdog_reachable (snd (kernel_watchdog_init r w))"
| wr_register: "watchdog_reachable w \<Longrightarrow>
    watchdog_reachable (fst (snd (kernel_watchdog_register level timeout name w)))"
| wr_timeout: "watchdog_reachable w \<Longrightarrow> watchdog_reachable (fst (kernel_watchdog_timeout_handler level w))"

lemma watchdog_reachable_ok: "watchdog_reachable w \<Longrightarrow> watchdog_ok w"
  by (induction rule: watchdog_reachable.induct) (auto intro: boot_ok init_ok register_ok timeout_ok)

text \<open>C16: In every state of the kernel watchdog, at most 8 components are registered, each with a
  timeout of 10 to 10000 ms and a name of at most 31 characters; a further registration appends
  one DISABLED component exactly when the watchdog is initialised, there is room and the timeout
  is in range, and changes nothing otherwise.  No component is ever ARMED or fed.
\<close>

theorem watchdog_registry_spec:
  assumes "watchdog_reachable w"
  shows "length (registered w) \<le> 8 \<and>
    list_all (\<lambda>c. unat (wc_timeout_ms c) \<in> {10..10000} \<and> length (wc_component_name c) \<le> 31 \<and>
                  wc_state c \<noteq> KERNEL_WATCHDOG_STATE_ARMED \<and> wc_last_pet_time c = 0) (registered w) \<and>
    (case kernel_watchdog_register level timeout name w of (e, w', logs) \<Rightarrow>
       if kw_initialized w \<and> length (registered w) < 8 \<and> unat timeout \<in> {10..10000}
       then e = watchdog_error_success \<and> length logs = 1 \<and>
            registered w' = registered w @ [\<lparr>wc_level = level, wc_timeout_ms = timeout,
              wc_component_name = take 31 name, wc_last_pet_time = 0,
              wc_state = KERNEL_WATCHDOG_STATE_DISABLED\<rparr>]
       else error_code e \<noteq> ERR_SYS_OK \<and> w' = w \<and> logs = [])"
proof -
  have ok: "watchdog_ok w" by (rule watchdog_reachable_ok [OF assms])
  have len: "length (registered w) = unat (kw_component_count w)"
    using ok by (simp add: watchdog_ok_def registered_def)
  have regs: "list_all (\<lambda>c. wc_last_pet_time c = 0 \<and> wc_state c \<noteq> KERNEL_WATCHDOG_STATE_ARMED) (registered w)"
    using ok by (auto simp: watchdog_ok_def registered_def list_all_iff dest: in_set_takeD)
  have ext: "registered (fst (snd (kernel_watchdog_register level timeout name w))) =
    registered w @ [\<lparr>wc_level = level, wc_timeout_ms = timeout, wc_component_name = take 31 name,
                     wc_last_pet_time = 0, wc_state = KERNEL_WATCHDOG_STATE_DISABLED\<rparr>]"
    if "kw_initialized w" "unat (kw_component_count w) < 8" "unat timeout \<in> {10..10000}"
    using register_extends [OF ok that(1,2), of timeout level name] that(3) by simp
  have reg: "case kernel_watchdog_register level timeout name w of (e, w', logs) \<Rightarrow>
       if kw_initialized w \<and> length (registered w) < 8 \<and> unat timeout \<in> {10..10000}
       then e = watchdog_error_success \<and> length logs = 1 \<and>
            registered w' = registered w @ [\<lparr>wc_level = level, wc_timeout_ms = timeout,
              wc_component_name = take 31 name, wc_last_pet_time = 0,
              wc_state = KERNEL_WATCHDOG_STATE_DISABLED\<rparr>]
       else error_code e \<noteq> ERR_SYS_OK \<and> w' = w \<and> logs = []"
  proof (cases "kw_initialized w \<and> length (registered w) < 8 \<and> unat timeout \<in> {10..10000}")
    case True
    obtain e w' logs where r: "kernel_watchdog_register level timeout name w = (e, w', logs)"
      by (cases "kernel_watchdog_register level timeout name w")
    have "e = watchdog_error_success \<and> logs = watchdog_log_component_register level name"
      using True r
      by (simp add: kernel_watchdog_register_def Let_def len word_le_nat_alt word_less_nat_alt)
    then show ?thesis
      using True ext r len by (simp add: watchdog_log_component_register_def)
  next
    case False
    then show ?thesis
      unfolding if_not_P [OF False]
      by (auto simp: kernel_watchdog_register_def len word_le_nat_alt word_less_nat_alt
          watchdog_error_not_initialized_def watchdog_error_resource_exhausted_def
          watchdog_error_invalid_parameter_def)
  qed
  have "length (registered w) \<le> 8" using ok len by (simp add: watchdog_ok_def)
  moreover have "list_all (\<lambda>c. unat (wc_timeout_ms c) \<in> {10..10000} \<and> length (wc_component_name c) \<le> 31 \<and>
                  wc_state c \<noteq> KERNEL_WATCHDOG_STATE_ARMED \<and> wc_last_pet_time c = 0) (registered w)"
    using ok regs by (auto simp: watchdog_ok_def list_all_iff)
  ultimately show ?thesis using reg by blast
qed

lemma watchdog_registry_spec_witness:
  "length (registered (snd (kernel_watchdog_init watchdog_error_success kernel_watchdog_boot))) \<le> 8"
  using watchdog_registry_spec [OF wr_init [OF wr_boot], where level = KERNEL_WATCHDOG_LEVEL_IPC and
      timeout = 100 and name = "''ipc''"] by blast

text \<open>A timeout marks the first registered component of its level, and no other, and logs one
  emergency entry; a second component of the same level never times out, and without a component
  of the level nothing happens and nothing is logged.
\<close>

theorem timeout_marks_first_of_level:
  "case kernel_watchdog_timeout_handler level w of (w', logs) \<Rightarrow>
     (case find (\<lambda>i. wc_level (registered w ! i) = level) [0..<length (registered w)] of
        None \<Rightarrow> registered w' = registered w \<and> logs = []
      | Some i \<Rightarrow> registered w' = (registered w)[i := (registered w ! i)\<lparr>wc_state := KERNEL_WATCHDOG_STATE_TRIGGERED\<rparr>] \<and>
                  logs = [mk_log_call LOG_LEVEL_EMERGENCY LOG_TAG_KERNEL LOG_MSG_SERVICE_ERROR (level_value level) 0])"
proof -
  have u: "case find (\<lambda>i. P (xs ! i)) [0..<length xs] of
      None \<Rightarrow> update_first P f xs = xs \<and> \<not> list_ex P xs
    | Some i \<Rightarrow> update_first P f xs = xs[i := f (xs ! i)] \<and> list_ex P xs"
    for P and f :: "watchdog_component \<Rightarrow> watchdog_component" and xs
  proof (induction xs)
    case (Cons x xs)
    have "find (\<lambda>i. P ((x # xs) ! i)) [0..<length (x # xs)] =
        (if P x then Some 0 else map_option Suc (find (\<lambda>i. P (xs ! i)) [0..<length xs]))"
    proof -
      have "[0..<length (x # xs)] = 0 # map Suc [0..<length xs]"
        by (simp add: upt_conv_Cons map_Suc_upt del: upt_Suc)
      moreover have "find (\<lambda>i. P ((x # xs) ! i)) (map Suc is) = map_option Suc (find (\<lambda>i. P (xs ! i)) is)" for "is"
        by (induction "is") auto
      ultimately show ?thesis by simp
    qed
    with Cons show ?case by (auto split: option.splits simp del: upt_Suc)
  qed simp
  show ?thesis
    using u [where P = "\<lambda>c. wc_level c = level" and xs = "registered w" and
        f = "\<lambda>c. c\<lparr>wc_state := KERNEL_WATCHDOG_STATE_TRIGGERED\<rparr>"] registered_timeout [of level w]
    by (auto simp: kernel_watchdog_timeout_handler_def watchdog_log_timeout_event_def split: option.splits)
qed

end
