(* ===== verification/Kernel_Syscall.thy ===== *)
theory Kernel_Syscall
  imports System_Errors
begin

text \<open>
  The system call interface of kernel/core/syscall.h and syscall.c.  The kernel functions that the
  handlers call and that no file defines (\<open>ipc_publish_message\<close>, \<open>ipc_receive_message\<close>,
  \<open>ipc_register_topic\<close>, \<open>ipc_subscribe_topic\<close>, the handler \<open>syscall_ipc_unregister_topic\<close>) and the
  three error codes that no header declares are the fields of a parameter.  User pointers are
  32-bit addresses; the stores through them are returned as (address, bytes).
\<close>

section \<open>The kernel behind the calls\<close>

datatype topic_arg = Topic_literal string | Topic_at u32

record 'k kernel_services =
  ks_publish :: "topic_arg \<Rightarrow> u32 \<Rightarrow> u32 \<Rightarrow> u16 \<Rightarrow> 'k \<Rightarrow> system_error \<times> 'k"
  ks_receive :: "u16 \<Rightarrow> u32 \<Rightarrow> u32 \<Rightarrow> u32 \<Rightarrow> 'k \<Rightarrow> system_error \<times> 'k"
  ks_register :: "u32 \<Rightarrow> u32 \<Rightarrow> 'k \<Rightarrow> system_error \<times> 'k"
  ks_subscribe :: "u32 \<Rightarrow> u16 \<Rightarrow> 'k \<Rightarrow> system_error \<times> 'k"
  ks_unregister :: "u32 \<Rightarrow> u32 \<Rightarrow> u32 \<Rightarrow> u32 \<Rightarrow> 'k \<Rightarrow> system_error \<times> 'k"
  ks_invalid_syscall :: u32
  ks_not_implemented :: u32
  ks_invalid_pointer :: u32

type_synonym user_write = "u32 \<times> u8 list"
type_synonym 'k syscall_result = "system_error \<times> user_write list \<times> 'k"

definition sys_error :: "u32 \<Rightarrow> system_error" where
  "sys_error c = system_error_create c ERROR_CATEGORY_SYSTEM ERROR_SEVERITY_HIGH MODULE_ID_SYSCALL"

definition sys_ok :: system_error where
  "sys_ok = system_error_create ERR_BASE_OK ERROR_CATEGORY_SYSTEM ERROR_SEVERITY_LOW MODULE_ID_SYSCALL"

definition no_writes :: "system_error \<times> 'k \<Rightarrow> 'k syscall_result" where
  "no_writes r = (fst r, [], snd r)"

text \<open>The stubs at the end of the file.\<close>

definition scheduler_get_current_pid :: u16 where "scheduler_get_current_pid = 1"
definition validate_user_pointer :: "u32 \<Rightarrow> u32 \<Rightarrow> u32" where "validate_user_pointer p sz = p"
definition validate_user_string :: "u32 \<Rightarrow> u32 \<Rightarrow> u32" where "validate_user_string p max_len = p"

section \<open>Handlers\<close>

definition syscall_ipc_send ::
  "'k kernel_services \<Rightarrow> u32 \<Rightarrow> u32 \<Rightarrow> u32 \<Rightarrow> u32 \<Rightarrow> 'k \<Rightarrow> 'k syscall_result" where
  "syscall_ipc_send ks target_pid message_ptr sz flags k =
     (if target_pid = 0 \<or> message_ptr = 0 \<or> sz = 0 then (sys_error ERR_SYS_INVALID_PARAM, [], k)
      else
        let current_pid = scheduler_get_current_pid;
            kernel_message = validate_user_pointer message_ptr sz
        in if kernel_message = 0 then (sys_error (ks_invalid_pointer ks), [], k)
           else no_writes (ks_publish ks (Topic_literal ''direct'') kernel_message sz current_pid k))"

definition syscall_ipc_receive ::
  "'k kernel_services \<Rightarrow> u32 \<Rightarrow> u32 \<Rightarrow> u32 \<Rightarrow> u32 \<Rightarrow> 'k \<Rightarrow> 'k syscall_result" where
  "syscall_ipc_receive ks buffer_ptr sz timeout_ms flags k =
     (if buffer_ptr = 0 \<or> sz = 0 then (sys_error ERR_SYS_INVALID_PARAM, [], k)
      else
        let kernel_buffer = validate_user_pointer buffer_ptr sz
        in if kernel_buffer = 0 then (sys_error (ks_invalid_pointer ks), [], k)
           else no_writes (ks_receive ks scheduler_get_current_pid kernel_buffer sz timeout_ms k))"

definition syscall_ipc_register_topic ::
  "'k kernel_services \<Rightarrow> u32 \<Rightarrow> u32 \<Rightarrow> u32 \<Rightarrow> u32 \<Rightarrow> 'k \<Rightarrow> 'k syscall_result" where
  "syscall_ipc_register_topic ks topic_name_ptr flags arg3 arg4 k =
     (if topic_name_ptr = 0 then (sys_error ERR_SYS_INVALID_PARAM, [], k)
      else
        let kernel_topic_name = validate_user_string topic_name_ptr 64
        in if kernel_topic_name = 0 then (sys_error (ks_invalid_pointer ks), [], k)
           else no_writes (ks_register ks kernel_topic_name flags k))"

definition syscall_ipc_publish ::
  "'k kernel_services \<Rightarrow> u32 \<Rightarrow> u32 \<Rightarrow> u32 \<Rightarrow> u32 \<Rightarrow> 'k \<Rightarrow> 'k syscall_result" where
  "syscall_ipc_publish ks topic_name_ptr message_ptr sz flags k =
     (if topic_name_ptr = 0 \<or> message_ptr = 0 \<or> sz = 0 then (sys_error ERR_SYS_INVALID_PARAM, [], k)
      else
        let kernel_topic_name = validate_user_string topic_name_ptr 64
        in if kernel_topic_name = 0 then (sys_error (ks_invalid_pointer ks), [], k)
           else
             let kernel_message = validate_user_pointer message_ptr sz
             in if kernel_message = 0 then (sys_error (ks_invalid_pointer ks), [], k)
                else no_writes (ks_publish ks (Topic_at kernel_topic_name) kernel_message sz
                                  scheduler_get_current_pid k))"

definition syscall_ipc_subscribe ::
  "'k kernel_services \<Rightarrow> u32 \<Rightarrow> u32 \<Rightarrow> u32 \<Rightarrow> u32 \<Rightarrow> 'k \<Rightarrow> 'k syscall_result" where
  "syscall_ipc_subscribe ks topic_name_ptr flags arg3 arg4 k =
     (if topic_name_ptr = 0 then (sys_error ERR_SYS_INVALID_PARAM, [], k)
      else
        let kernel_topic_name = validate_user_string topic_name_ptr 64
        in if kernel_topic_name = 0 then (sys_error (ks_invalid_pointer ks), [], k)
           else no_writes (ks_subscribe ks kernel_topic_name scheduler_get_current_pid k))"

definition syscall_time_get_us ::
  "'k kernel_services \<Rightarrow> u32 \<Rightarrow> u32 \<Rightarrow> u32 \<Rightarrow> u32 \<Rightarrow> 'k \<Rightarrow> 'k syscall_result" where
  "syscall_time_get_us ks timestamp_ptr arg2 arg3 arg4 k =
     (if timestamp_ptr = 0 then (sys_error ERR_SYS_INVALID_PARAM, [], k)
      else
        let kernel_timestamp = validate_user_pointer timestamp_ptr 8
        in if kernel_timestamp = 0 then (sys_error (ks_invalid_pointer ks), [], k)
           else (sys_ok, [(kernel_timestamp, replicate 8 0)], k))"

definition syscall_getpid ::
  "'k kernel_services \<Rightarrow> u32 \<Rightarrow> u32 \<Rightarrow> u32 \<Rightarrow> u32 \<Rightarrow> 'k \<Rightarrow> 'k syscall_result" where
  "syscall_getpid ks pid_ptr arg2 arg3 arg4 k =
     (if pid_ptr = 0 then (sys_error ERR_SYS_INVALID_PARAM, [], k)
      else
        let kernel_pid = validate_user_pointer pid_ptr 2
        in if kernel_pid = 0 then (sys_error (ks_invalid_pointer ks), [], k)
           else (sys_ok, [(kernel_pid, le16 scheduler_get_current_pid)], k))"

definition syscall_service_lookup ::
  "'k kernel_services \<Rightarrow> u32 \<Rightarrow> u32 \<Rightarrow> u32 \<Rightarrow> u32 \<Rightarrow> 'k \<Rightarrow> 'k syscall_result" where
  "syscall_service_lookup ks service_name_ptr service_pid_ptr arg3 arg4 k =
     (if service_name_ptr = 0 \<or> service_pid_ptr = 0 then (sys_error ERR_SYS_INVALID_PARAM, [], k)
      else
        let kernel_service_name = validate_user_string service_name_ptr 64
        in if kernel_service_name = 0 then (sys_error (ks_invalid_pointer ks), [], k)
           else
             let kernel_service_pid = validate_user_pointer service_pid_ptr 2
             in if kernel_service_pid = 0 then (sys_error (ks_invalid_pointer ks), [], k)
                else (sys_ok, [(kernel_service_pid, le16 0)], k))"

section \<open>The table\<close>

datatype syscall_handler_t =
    Syscall_ipc_send
  | Syscall_ipc_receive
  | Syscall_ipc_register_topic
  | Syscall_ipc_unregister_topic
  | Syscall_ipc_publish
  | Syscall_ipc_subscribe
  | Syscall_time_get_us
  | Syscall_getpid
  | Syscall_service_lookup

definition SYSCALL_MAX :: nat where "SYSCALL_MAX = 9"

type_synonym syscall_table = "syscall_handler_t option list"

text \<open>The table before \<open>syscall_init\<close>: static storage.\<close>

definition g_syscall_table :: syscall_table where
  "g_syscall_table = replicate SYSCALL_MAX None"

definition syscall_init :: "syscall_table \<Rightarrow> system_error \<times> syscall_table" where
  "syscall_init table =
     (sys_ok,
      (replicate SYSCALL_MAX None)
        [0 := Some Syscall_ipc_send, 1 := Some Syscall_ipc_receive,
         2 := Some Syscall_ipc_register_topic, 3 := Some Syscall_ipc_unregister_topic,
         4 := Some Syscall_ipc_publish, 5 := Some Syscall_ipc_subscribe,
         6 := Some Syscall_time_get_us, 7 := Some Syscall_getpid,
         8 := Some Syscall_service_lookup])"

fun call_syscall ::
  "syscall_handler_t \<Rightarrow> 'k kernel_services \<Rightarrow> u32 \<Rightarrow> u32 \<Rightarrow> u32 \<Rightarrow> u32 \<Rightarrow> 'k \<Rightarrow> 'k syscall_result" where
  "call_syscall Syscall_ipc_send = syscall_ipc_send"
| "call_syscall Syscall_ipc_receive = syscall_ipc_receive"
| "call_syscall Syscall_ipc_register_topic = syscall_ipc_register_topic"
| "call_syscall Syscall_ipc_unregister_topic =
     (\<lambda>ks a b c d k. no_writes (ks_unregister ks a b c d k))"
| "call_syscall Syscall_ipc_publish = syscall_ipc_publish"
| "call_syscall Syscall_ipc_subscribe = syscall_ipc_subscribe"
| "call_syscall Syscall_time_get_us = syscall_time_get_us"
| "call_syscall Syscall_getpid = syscall_getpid"
| "call_syscall Syscall_service_lookup = syscall_service_lookup"

definition syscall_handler ::
  "'k kernel_services \<Rightarrow> syscall_table \<Rightarrow> u32 \<Rightarrow> u32 \<Rightarrow> u32 \<Rightarrow> u32 \<Rightarrow> u32 \<Rightarrow> 'k \<Rightarrow> 'k syscall_result" where
  "syscall_handler ks table syscall_num arg1 arg2 arg3 arg4 k =
     (if SYSCALL_MAX \<le> unat syscall_num then (sys_error (ks_invalid_syscall ks), [], k)
      else case table ! unat syscall_num of
             None \<Rightarrow> (sys_error (ks_not_implemented ks), [], k)
           | Some h \<Rightarrow> call_syscall h ks arg1 arg2 arg3 arg4 k)"

section \<open>Dispatch\<close>

definition numbered :: "syscall_handler_t list" where
  "numbered = [Syscall_ipc_send, Syscall_ipc_receive, Syscall_ipc_register_topic,
     Syscall_ipc_unregister_topic, Syscall_ipc_publish, Syscall_ipc_subscribe, Syscall_time_get_us,
     Syscall_getpid, Syscall_service_lookup]"

lemma init_table: "snd (syscall_init table) = map Some numbered"
  by (simp add: syscall_init_def numbered_def SYSCALL_MAX_def numeral_eq_Suc)

lemma length_numbered [simp]: "length numbered = 9"
  by (simp add: numbered_def)

lemma dispatch_numbered:
  "unat num < 9 \<Longrightarrow>
   syscall_handler ks (snd (syscall_init table)) num a b c d k = call_syscall (numbered ! unat num) ks a b c d k"
  by (simp add: syscall_handler_def init_table SYSCALL_MAX_def)

text \<open>C22: Before \<open>syscall_init\<close> every number below 9 is answered "not implemented"; after it each of
  them reaches its own handler and none is left out; a number from 9 on is refused in both
  states, with nothing written and the kernel untouched.
\<close>

theorem syscall_dispatch:
  "syscall_handler ks (snd (syscall_init table)) num a b c d k =
     (if unat num < 9 then call_syscall (numbered ! unat num) ks a b c d k
      else (sys_error (ks_invalid_syscall ks), [], k)) \<and>
   syscall_handler ks g_syscall_table num a b c d k =
     (if unat num < 9 then (sys_error (ks_not_implemented ks), [], k)
      else (sys_error (ks_invalid_syscall ks), [], k)) \<and>
   distinct numbered \<and> set numbered = UNIV"
proof -
  have "distinct numbered \<and> set numbered = UNIV"
  proof -
    have "h \<in> set numbered" for h by (cases h) (simp_all add: numbered_def)
    then show ?thesis by (auto simp: numbered_def)
  qed
  moreover have "syscall_handler ks g_syscall_table num a b c d k =
     (if unat num < 9 then (sys_error (ks_not_implemented ks), [], k)
      else (sys_error (ks_invalid_syscall ks), [], k))"
    by (simp add: syscall_handler_def g_syscall_table_def SYSCALL_MAX_def)
  moreover have "syscall_handler ks (snd (syscall_init table)) num a b c d k =
     (if unat num < 9 then call_syscall (numbered ! unat num) ks a b c d k
      else (sys_error (ks_invalid_syscall ks), [], k))"
    using dispatch_numbered [of num ks table a b c d k]
    by (simp add: syscall_handler_def SYSCALL_MAX_def)
  ultimately show ?thesis by simp
qed

lemmas syscall_handler_defs =
  syscall_ipc_send_def syscall_ipc_receive_def syscall_ipc_register_topic_def syscall_ipc_publish_def
  syscall_ipc_subscribe_def syscall_time_get_us_def syscall_getpid_def syscall_service_lookup_def
  validate_user_pointer_def validate_user_string_def scheduler_get_current_pid_def Let_def

text \<open>The arguments that a call requires to be non-zero.\<close>

fun required :: "syscall_handler_t \<Rightarrow> u32 \<Rightarrow> u32 \<Rightarrow> u32 \<Rightarrow> bool" where
  "required Syscall_ipc_send a b c = (a \<noteq> 0 \<and> b \<noteq> 0 \<and> c \<noteq> 0)"
| "required Syscall_ipc_receive a b c = (a \<noteq> 0 \<and> b \<noteq> 0)"
| "required Syscall_ipc_publish a b c = (a \<noteq> 0 \<and> b \<noteq> 0 \<and> c \<noteq> 0)"
| "required Syscall_service_lookup a b c = (a \<noteq> 0 \<and> b \<noteq> 0)"
| "required _ a b c = (a \<noteq> 0)"

text \<open>Every call whose handler the file defines is refused with ERR_SYS_INVALID_PARAM, nothing
  written and the kernel untouched, when a required argument is 0; with all of them present it is
  carried out whatever the pointers are, since the validation returns its argument, and on behalf
  of process 1 whichever process calls: the message target of a send is dropped, \<open>getpid\<close> stores 1,
  the time is 0, and every service is found at process 0.
\<close>

theorem syscalls_act_for_process_1:
  "call_syscall h ks a b c d k =
     (if h = Syscall_ipc_unregister_topic then no_writes (ks_unregister ks a b c d k)
      else if \<not> required h a b c then (sys_error ERR_SYS_INVALID_PARAM, [], k)
      else case h of
             Syscall_ipc_send \<Rightarrow> no_writes (ks_publish ks (Topic_literal ''direct'') b c 1 k)
           | Syscall_ipc_receive \<Rightarrow> no_writes (ks_receive ks 1 a b c k)
           | Syscall_ipc_register_topic \<Rightarrow> no_writes (ks_register ks a b k)
           | Syscall_ipc_publish \<Rightarrow> no_writes (ks_publish ks (Topic_at a) b c 1 k)
           | Syscall_ipc_subscribe \<Rightarrow> no_writes (ks_subscribe ks a 1 k)
           | Syscall_time_get_us \<Rightarrow> (sys_ok, [(a, [0, 0, 0, 0, 0, 0, 0, 0])], k)
           | Syscall_getpid \<Rightarrow> (sys_ok, [(a, [1, 0])], k)
           | Syscall_service_lookup \<Rightarrow> (sys_ok, [(b, [0, 0])], k))"
  by (cases h) (simp_all add: syscall_handler_defs le16_def numeral_eq_Suc)

end
