(* ===== verification/System_Monitor.thy ===== *)
theory System_Monitor
  imports Kernel_Time
begin

text \<open>
  The system monitor service of services/system_monitor/system_monitor.h and system_monitor.c.
  The file uses error constants, log constants and IPC ports that no header declares: the error
  constants and the invalid port are a parameter (\<open>monitor_codes\<close>), the results of
  \<open>ipc_create_port\<close> and the effect of \<open>hw_watchdog_set_timeout_callback\<close> are arguments, and a log
  call is the event that its message names.  The health update takes the state of the timer at each of
  its readings of \<open>system_monitor_get_system_time_us\<close> and calls the delay of theory Kernel_Time; in
  the other functions each reading is an argument.
\<close>

section \<open>State\<close>

record monitor_codes =
  mc_none :: system_error
  mc_already_initialized :: system_error
  mc_not_initialized :: system_error
  mc_not_running :: system_error
  mc_self_test_failed :: system_error
  mc_invalid_parameter :: system_error
  mc_port_invalid :: nat

datatype monitor_event =
    Cross_monitor_discrepancy bool bool
  | Self_health_check_failed u32 u8
  | Health_status_update u32 u32
  | Primary_watchdog_timeout
  | Close_port nat
  | Time_log log_call

record redundant_watchdog_t =
  rw_armed :: bool
  rw_timeout_ms :: u32
  rw_last_pet_time :: u64
  rw_timeout_count :: u32
  rw_independent :: bool

record system_health =
  hs_overall_score :: u32
  hs_component_scores :: "u32 list"
  hs_last_health_check :: u64
  hs_consecutive_failures :: u32
  hs_primary_monitor_healthy :: bool
  hs_secondary_monitor_healthy :: bool

record system_monitor =
  sm_initialized :: bool
  sm_running :: bool
  sm_health :: system_health
  sm_watchdogs :: "redundant_watchdog_t list"
  sm_last_heartbeat_time :: u64
  sm_last_cross_monitor_time :: u64
  sm_last_self_health_check_time :: u64
  sm_monitor_port :: nat
  sm_backup_monitor_port :: nat
  sm_primary_mode :: bool
  sm_cross_monitor_fail_count :: u8
  sm_self_health_fail_count :: u8
  sm_cross_monitor_healthy :: bool
  sm_self_health_healthy :: bool

definition zero_watchdog :: redundant_watchdog_t where
  "zero_watchdog = \<lparr>rw_armed = False, rw_timeout_ms = 0, rw_last_pet_time = 0, rw_timeout_count = 0,
     rw_independent = False\<rparr>"

definition zero_health :: system_health where
  "zero_health = \<lparr>hs_overall_score = 0, hs_component_scores = [0, 0, 0, 0], hs_last_health_check = 0,
     hs_consecutive_failures = 0, hs_primary_monitor_healthy = False, hs_secondary_monitor_healthy = False\<rparr>"

definition system_monitor_boot :: system_monitor where
  "system_monitor_boot = \<lparr>sm_initialized = False, sm_running = False, sm_health = zero_health,
     sm_watchdogs = [zero_watchdog, zero_watchdog], sm_last_heartbeat_time = 0,
     sm_last_cross_monitor_time = 0, sm_last_self_health_check_time = 0, sm_monitor_port = 0,
     sm_backup_monitor_port = 0, sm_primary_mode = False, sm_cross_monitor_fail_count = 0,
     sm_self_health_fail_count = 0, sm_cross_monitor_healthy = False, sm_self_health_healthy = False\<rparr>"

definition MONITOR_DEGRADATION_THRESHOLD :: u8 where "MONITOR_DEGRADATION_THRESHOLD = 3"

section \<open>Time and watchdogs\<close>

text \<open>None is the division by zero of an uninitialised timer.\<close>

definition system_monitor_get_system_time_us :: "hw_timer_state \<Rightarrow> system_monitor \<Rightarrow> u64 option" where
  "system_monitor_get_system_time_us tm s =
     (if \<not> sm_initialized s then Some 0
      else if hw_timer_get_frequency tm = 0 then None
      else Some (hw_timer_get_counter tm * 1000000 div hw_timer_get_frequency tm))"

definition check_watchdog ::
  "u64 \<Rightarrow> nat \<Rightarrow> system_monitor \<times> monitor_event list \<Rightarrow> system_monitor \<times> monitor_event list" where
  "check_watchdog current_time i = (\<lambda>(s, events).
     let w = sm_watchdogs s ! i;
         time_since_pet = current_time - rw_last_pet_time w;
         timeout_us = (ucast (rw_timeout_ms w * 1000) :: u64)
     in if timeout_us < time_since_pet then
          let s1 = s\<lparr>sm_watchdogs := (sm_watchdogs s)[i := w\<lparr>rw_timeout_count := rw_timeout_count w + 1\<rparr>]\<rparr>
          in if i = 0 \<and> hs_secondary_monitor_healthy (sm_health s1)
             then (s1\<lparr>sm_primary_mode := False\<rparr>, events @ [Primary_watchdog_timeout])
             else (s1, events)
        else (s, events))"

definition system_monitor_watchdog_check_consistency ::
  "monitor_codes \<Rightarrow> u64 \<Rightarrow> system_monitor \<Rightarrow> system_error \<times> system_monitor \<times> monitor_event list" where
  "system_monitor_watchdog_check_consistency mc current_time s =
     (mc_none mc, fold (check_watchdog current_time) [0, 1] (s, []))"

definition system_monitor_watchdog_arm_redundant ::
  "monitor_codes \<Rightarrow> system_error \<Rightarrow> (hw_watchdog_state \<Rightarrow> hw_watchdog_state) \<Rightarrow> u64 \<Rightarrow> u64 \<Rightarrow>
   hw_watchdog_state \<Rightarrow> system_monitor \<Rightarrow> system_error \<times> hw_watchdog_state \<times> system_monitor" where
  "system_monitor_watchdog_arm_redundant mc self_test set_callback now1 now2 wd s =
     (if \<not> sm_initialized s then (mc_not_initialized mc, wd, s)
      else
        let w0 = sm_watchdogs s ! 0;
            (ret, wd1) = hw_watchdog_init self_test (rw_timeout_ms w0) wd;
            (wd2, s1) = (if ret = mc_none mc
                         then (set_callback wd1,
                               s\<lparr>sm_watchdogs := (sm_watchdogs s)[0 := w0\<lparr>rw_armed := True, rw_last_pet_time := now1\<rparr>]\<rparr>)
                         else (wd1, s));
            w1 = sm_watchdogs s1 ! 1
        in (ret, wd2,
            s1\<lparr>sm_watchdogs := (sm_watchdogs s1)[1 := w1\<lparr>rw_armed := True, rw_last_pet_time := now2\<rparr>]\<rparr>))"

definition system_monitor_watchdog_pet_redundant ::
  "monitor_codes \<Rightarrow> hw_timer_state \<Rightarrow> u64 \<Rightarrow> hw_watchdog_state \<Rightarrow> system_monitor \<Rightarrow>
   system_error \<times> hw_watchdog_state \<times> system_monitor" where
  "system_monitor_watchdog_pet_redundant mc tm current_time wd s =
     (if \<not> sm_running s then (mc_not_running mc, wd, s)
      else
        let (ret, wd1) = hw_watchdog_pet tm wd;
            s1 = (if ret = mc_none mc
                  then s\<lparr>sm_watchdogs := (sm_watchdogs s)[0 := (sm_watchdogs s ! 0)\<lparr>rw_last_pet_time := current_time\<rparr>]\<rparr>
                  else s)
        in (ret, wd1,
            s1\<lparr>sm_watchdogs := (sm_watchdogs s1)[1 := (sm_watchdogs s1 ! 1)\<lparr>rw_last_pet_time := current_time\<rparr>]\<rparr>))"

section \<open>Initialisation\<close>

definition system_monitor_service_init ::
  "monitor_codes \<Rightarrow> system_error \<times> nat \<Rightarrow> system_error \<times> nat \<Rightarrow> system_monitor \<Rightarrow>
   system_error \<times> system_monitor \<times> monitor_event list" where
  "system_monitor_service_init mc primary backup s =
     (if sm_initialized s then (mc_already_initialized mc, s, [])
      else
        let w = zero_watchdog\<lparr>rw_timeout_ms := 1000\<rparr>;
            s1 = system_monitor_boot
                   \<lparr>sm_watchdogs := [w\<lparr>rw_independent := True\<rparr>, w\<lparr>rw_independent := False\<rparr>],
                    sm_health := zero_health\<lparr>hs_overall_score := 100, hs_primary_monitor_healthy := True,
                                             hs_secondary_monitor_healthy := True\<rparr>\<rparr>;
            s2 = s1\<lparr>sm_monitor_port := snd primary\<rparr>
        in if fst primary \<noteq> mc_none mc then (fst primary, s2, [])
           else
             let s3 = s2\<lparr>sm_backup_monitor_port := snd backup\<rparr>
             in if fst backup \<noteq> mc_none mc then (fst backup, s3, [Close_port (sm_monitor_port s3)])
                else (mc_none mc, s3\<lparr>sm_primary_mode := True, sm_initialized := True\<rparr>, []))"

section \<open>Cross monitoring and self check\<close>

text \<open>The two checks on the times that they read.\<close>

definition cross_monitoring_at ::
  "monitor_codes \<Rightarrow> u64 \<Rightarrow> u64 \<Rightarrow> system_monitor \<Rightarrow> system_error \<times> system_monitor \<times> monitor_event list" where
  "cross_monitoring_at mc current_time check_time s =
     (if current_time - sm_last_cross_monitor_time s < 100000 then (mc_none mc, s, [])
      else
        let s0 = s\<lparr>sm_last_cross_monitor_time := current_time\<rparr>;
            primary_healthy = hs_primary_monitor_healthy (sm_health s0);
            backup_healthy = hs_secondary_monitor_healthy (sm_health s0);
            (s1, log1) =
              (if primary_healthy \<noteq> backup_healthy
               then (s0\<lparr>sm_cross_monitor_fail_count := sm_cross_monitor_fail_count s0 + 1\<rparr>,
                     [Cross_monitor_discrepancy primary_healthy backup_healthy])
               else (s0\<lparr>sm_cross_monitor_fail_count := 0\<rparr>, []));
            (watchdog_check, s2, log2) = system_monitor_watchdog_check_consistency mc check_time s1;
            s3 = (if watchdog_check \<noteq> mc_none mc
                  then s2\<lparr>sm_cross_monitor_fail_count := sm_cross_monitor_fail_count s2 + 1\<rparr> else s2)
        in (mc_none mc,
            s3\<lparr>sm_cross_monitor_healthy := sm_cross_monitor_fail_count s3 < MONITOR_DEGRADATION_THRESHOLD\<rparr>,
            log1 @ log2))"

text \<open>
  The memory test stores 0xDEADBEEF over the first four bytes of the state, which are
  \<open>initialized\<close>, \<open>running\<close> and two bytes of padding, and does not restore them: both flags read as
  set afterwards.
\<close>

definition memory_test :: "system_monitor \<Rightarrow> system_monitor" where
  "memory_test s = s\<lparr>sm_initialized := True, sm_running := True\<rparr>"

definition test_mask :: "bool \<Rightarrow> bool \<Rightarrow> bool \<Rightarrow> u32" where
  "test_mask timer memory ipc =
     or (or (of_bool timer) (push_bit 1 (of_bool memory))) (push_bit 2 (of_bool ipc))"

definition self_health_check_at ::
  "monitor_codes \<Rightarrow> u64 \<Rightarrow> u64 \<Rightarrow> u64 \<Rightarrow> system_monitor \<Rightarrow> system_error \<times> system_monitor \<times> monitor_event list" where
  "self_health_check_at mc current_time test_start test_end s =
     (if current_time - sm_last_self_health_check_time s < 1000000 then (mc_none mc, s, [])
      else
        let s0 = s\<lparr>sm_last_self_health_check_time := current_time\<rparr>;
            timer_test_passed = (900 \<le> test_end - test_start \<and> test_end - test_start \<le> 1100);
            s1 = memory_test s0;
            memory_test_passed = True;
            ipc_test_passed = (if sm_initialized s1 then sm_monitor_port s1 \<noteq> mc_port_invalid mc else True);
            self_test_passed = (timer_test_passed \<and> memory_test_passed \<and> ipc_test_passed);
            (s2, events) =
              (if \<not> self_test_passed
               then let s' = s1\<lparr>sm_self_health_fail_count := sm_self_health_fail_count s1 + 1\<rparr>
                    in (s', [Self_health_check_failed
                               (test_mask timer_test_passed memory_test_passed ipc_test_passed)
                               (sm_self_health_fail_count s')])
               else (s1\<lparr>sm_self_health_fail_count := 0\<rparr>, []))
        in (if self_test_passed then mc_none mc else mc_self_test_failed mc,
            s2\<lparr>sm_self_health_healthy := sm_self_health_fail_count s2 < MONITOR_DEGRADATION_THRESHOLD\<rparr>,
            events))"

text \<open>The checks with their readings.  The second reading of the cross check, in the consistency
  check, is made only when the check is due.  The timer test of the self check calls the delay, whose
  clock is \<open>clk\<close>; \<open>rounds\<close> bounds the busy-wait and \<open>fuel\<close> its readings.  None is a division by zero
  or a call that is still running.\<close>

definition perform_cross_monitoring ::
  "monitor_codes \<Rightarrow> hw_timer_state \<Rightarrow> hw_timer_state \<Rightarrow> system_monitor \<Rightarrow>
   (system_error \<times> system_monitor \<times> monitor_event list) option" where
  "perform_cross_monitoring mc tm1 tm2 s =
     (case system_monitor_get_system_time_us tm1 s of
        None \<Rightarrow> None
      | Some current_time \<Rightarrow>
          if current_time - sm_last_cross_monitor_time s < 100000
          then Some (cross_monitoring_at mc current_time current_time s)
          else map_option (\<lambda>check_time. cross_monitoring_at mc current_time check_time s)
                 (system_monitor_get_system_time_us tm2 s))"

definition perform_self_health_check ::
  "nat \<Rightarrow> nat \<Rightarrow> monitor_codes \<Rightarrow> hw_timer_state \<Rightarrow> hw_timer_state \<Rightarrow> hw_timer_state \<Rightarrow> kernel_time \<Rightarrow>
   system_monitor \<Rightarrow> (system_error \<times> system_monitor \<times> monitor_event list \<times> kernel_time) option" where
  "perform_self_health_check rounds fuel mc tm1 tm2 tm3 clk s =
     (case system_monitor_get_system_time_us tm1 s of
        None \<Rightarrow> None
      | Some current_time \<Rightarrow>
          if current_time - sm_last_self_health_check_time s < 1000000
          then (case self_health_check_at mc current_time current_time current_time s of
                  (error, s1, events) \<Rightarrow> Some (error, s1, events, clk))
          else case system_monitor_get_system_time_us tm2 s of
                 None \<Rightarrow> None
               | Some test_start \<Rightarrow>
                   (case kernel_time_delay_us rounds fuel 1000 clk of
                      None \<Rightarrow> None
                    | Some (clk1, logs) \<Rightarrow>
                        (case system_monitor_get_system_time_us tm3 s of
                           None \<Rightarrow> None
                         | Some test_end \<Rightarrow>
                             (case self_health_check_at mc current_time test_start test_end s of
                                (error, s1, events) \<Rightarrow> Some (error, s1, map Time_log logs @ events, clk1)))))"

section \<open>Health\<close>

definition overall_score :: "bool \<Rightarrow> bool \<Rightarrow> bool \<Rightarrow> bool \<Rightarrow> u32" where
  "overall_score primary secondary cross self =
     (if primary \<and> secondary \<and> cross \<and> self then 100
      else if (primary \<or> secondary) \<and> self then 70
      else if self then 30 else 0)"

definition health_mask :: "bool \<Rightarrow> bool \<Rightarrow> bool \<Rightarrow> bool \<Rightarrow> u32" where
  "health_mask primary secondary cross self =
     or (or (or (of_bool primary) (push_bit 1 (of_bool secondary))) (push_bit 2 (of_bool cross)))
       (push_bit 3 (of_bool self))"

text \<open>The part of an update that follows the two checks.\<close>

definition assess_health ::
  "monitor_codes \<Rightarrow> u64 \<Rightarrow> system_error \<Rightarrow> system_monitor \<Rightarrow> system_monitor \<times> monitor_event" where
  "assess_health mc current_time self_health_result s =
     (let primary = (current_time - sm_last_heartbeat_time s \<le> 100 * 2000);
          secondary = (self_health_result = mc_none mc);
          score = overall_score primary secondary (sm_cross_monitor_healthy s) (sm_self_health_healthy s)
      in (s\<lparr>sm_health := (sm_health s)\<lparr>hs_primary_monitor_healthy := primary,
                     hs_secondary_monitor_healthy := secondary, hs_overall_score := score,
                     hs_last_health_check := current_time\<rparr>\<rparr>,
          Health_status_update score
             (health_mask primary secondary (sm_cross_monitor_healthy s) (sm_self_health_healthy s))))"

text \<open>The timer at the readings that one update makes, in order.\<close>

record update_readings =
  ur_now :: hw_timer_state
  ur_cross :: hw_timer_state
  ur_cross_check :: hw_timer_state
  ur_self :: hw_timer_state
  ur_test_start :: hw_timer_state
  ur_test_end :: hw_timer_state

definition system_monitor_update_health_redundant ::
  "nat \<Rightarrow> nat \<Rightarrow> monitor_codes \<Rightarrow> update_readings \<Rightarrow> kernel_time \<Rightarrow> system_monitor \<Rightarrow>
   (system_error \<times> system_monitor \<times> monitor_event list \<times> kernel_time) option" where
  "system_monitor_update_health_redundant rounds fuel mc r clk s =
     (case system_monitor_get_system_time_us (ur_now r) s of
        None \<Rightarrow> None
      | Some current_time \<Rightarrow>
          (case perform_cross_monitoring mc (ur_cross r) (ur_cross_check r) s of
             None \<Rightarrow> None
           | Some (_, s1, log1) \<Rightarrow>
               (case perform_self_health_check rounds fuel mc (ur_self r) (ur_test_start r) (ur_test_end r) clk s1 of
                  None \<Rightarrow> None
                | Some (self_health_result, s2, log2, clk1) \<Rightarrow>
                    (case assess_health mc current_time self_health_result s2 of
                       (s3, event) \<Rightarrow> Some (mc_none mc, s3, log1 @ log2 @ [event], clk1)))))"

definition system_monitor_is_reliable_for_safety :: "system_monitor \<Rightarrow> bool" where
  "system_monitor_is_reliable_for_safety s \<longleftrightarrow>
     sm_self_health_healthy s \<and>
     (hs_primary_monitor_healthy (sm_health s) \<or> hs_secondary_monitor_healthy (sm_health s))"

record detailed_health =
  dh_overall_score :: u32
  dh_primary_monitor_healthy :: bool
  dh_secondary_monitor_healthy :: bool
  dh_cross_monitor_healthy :: bool
  dh_self_health_healthy :: bool
  dh_cross_monitor_fail_count :: u8
  dh_self_health_fail_count :: u8
  dh_last_health_check :: u64

definition system_monitor_get_detailed_health ::
  "monitor_codes \<Rightarrow> bool \<Rightarrow> system_monitor \<Rightarrow> system_error \<times> detailed_health option" where
  "system_monitor_get_detailed_health mc given s =
     (if \<not> given then (mc_invalid_parameter mc, None)
      else (mc_none mc,
            Some \<lparr>dh_overall_score = hs_overall_score (sm_health s),
                  dh_primary_monitor_healthy = hs_primary_monitor_healthy (sm_health s),
                  dh_secondary_monitor_healthy = hs_secondary_monitor_healthy (sm_health s),
                  dh_cross_monitor_healthy = sm_cross_monitor_healthy s,
                  dh_self_health_healthy = sm_self_health_healthy s,
                  dh_cross_monitor_fail_count = sm_cross_monitor_fail_count s,
                  dh_self_health_fail_count = sm_self_health_fail_count s,
                  dh_last_health_check = hs_last_health_check (sm_health s)\<rparr>))"

definition system_monitor_enter_safe_state :: "u16 \<Rightarrow> system_error" where
  "system_monitor_enter_safe_state module_id_system_monitor =
     system_error_create ERR_BASE_OK ERROR_CATEGORY_SAFETY ERROR_SEVERITY_HIGH module_id_system_monitor"

section \<open>What each operation leaves alone\<close>

lemma check_watchdog_fields [simp]:
  "sm_health (fst (check_watchdog t i p)) = sm_health (fst p)"
  "sm_cross_monitor_fail_count (fst (check_watchdog t i p)) = sm_cross_monitor_fail_count (fst p)"
  "sm_last_cross_monitor_time (fst (check_watchdog t i p)) = sm_last_cross_monitor_time (fst p)"
  "sm_last_self_health_check_time (fst (check_watchdog t i p)) = sm_last_self_health_check_time (fst p)"
  "sm_self_health_healthy (fst (check_watchdog t i p)) = sm_self_health_healthy (fst p)"
  "sm_last_heartbeat_time (fst (check_watchdog t i p)) = sm_last_heartbeat_time (fst p)"
  "sm_initialized (fst (check_watchdog t i p)) = sm_initialized (fst p)"
  "sm_running (fst (check_watchdog t i p)) = sm_running (fst p)"
  by (cases p; simp add: check_watchdog_def Let_def)+

lemma consistency_result [simp]:
  "fst (system_monitor_watchdog_check_consistency mc t s) = mc_none mc"
  by (simp add: system_monitor_watchdog_check_consistency_def)

lemma consistency_fields [simp]:
  fixes mc t s
  defines "s' \<equiv> fst (snd (system_monitor_watchdog_check_consistency mc t s))"
  shows "sm_health s' = sm_health s"
    "sm_cross_monitor_fail_count s' = sm_cross_monitor_fail_count s"
    "sm_last_cross_monitor_time s' = sm_last_cross_monitor_time s"
    "sm_last_self_health_check_time s' = sm_last_self_health_check_time s"
    "sm_self_health_healthy s' = sm_self_health_healthy s"
    "sm_last_heartbeat_time s' = sm_last_heartbeat_time s"
    "sm_initialized s' = sm_initialized s"
    "sm_running s' = sm_running s"
  by (simp_all add: s'_def system_monitor_watchdog_check_consistency_def)

lemma cross_fields [simp]:
  fixes mc t c s
  defines "s' \<equiv> fst (snd (cross_monitoring_at mc t c s))"
  shows "sm_health s' = sm_health s"
    "sm_last_self_health_check_time s' = sm_last_self_health_check_time s"
    "sm_self_health_healthy s' = sm_self_health_healthy s"
    "sm_last_heartbeat_time s' = sm_last_heartbeat_time s"
    "sm_initialized s' = sm_initialized s"
    "sm_running s' = sm_running s"
  by (simp_all add: s'_def cross_monitoring_at_def Let_def case_prod_unfold)

lemma self_check_fields [simp]:
  "sm_last_heartbeat_time (fst (snd (self_health_check_at mc t a b s))) = sm_last_heartbeat_time s"
  "sm_health (fst (snd (self_health_check_at mc t a b s))) = sm_health s"
  by (simp_all add: self_health_check_at_def Let_def case_prod_unfold memory_test_def)

lemma self_check_not_due:
  "t - sm_last_self_health_check_time s < 1000000 \<Longrightarrow> self_health_check_at mc t a b s = (mc_none mc, s, [])"
  by (simp add: self_health_check_at_def)

section \<open>Counting failures\<close>

text \<open>A sequence of cross checks, and the condition that each of them is due.\<close>

fun cross_rounds :: "monitor_codes \<Rightarrow> (u64 \<times> u64) list \<Rightarrow> system_monitor \<Rightarrow> system_monitor" where
  "cross_rounds mc [] s = s"
| "cross_rounds mc ((t, c) # ts) s = cross_rounds mc ts (fst (snd (cross_monitoring_at mc t c s)))"

fun all_due :: "u64 \<Rightarrow> (u64 \<times> u64) list \<Rightarrow> bool" where
  "all_due last_time [] = True"
| "all_due last_time ((t, c) # ts) = (100000 \<le> t - last_time \<and> all_due t ts)"

lemma cross_step:
  assumes "100000 \<le> t - sm_last_cross_monitor_time s"
    "hs_primary_monitor_healthy (sm_health s) \<noteq> hs_secondary_monitor_healthy (sm_health s)"
  shows "sm_cross_monitor_fail_count (fst (snd (cross_monitoring_at mc t c s))) =
           sm_cross_monitor_fail_count s + 1"
    "sm_last_cross_monitor_time (fst (snd (cross_monitoring_at mc t c s))) = t"
    "sm_cross_monitor_healthy (fst (snd (cross_monitoring_at mc t c s))) =
       (sm_cross_monitor_fail_count s + 1 < 3)"
  using leD [OF assms(1)] assms(2)
  by (simp_all add: cross_monitoring_at_def Let_def case_prod_unfold MONITOR_DEGRADATION_THRESHOLD_def)

lemma cross_rounds_count:
  assumes "all_due (sm_last_cross_monitor_time s) ts"
    "hs_primary_monitor_healthy (sm_health s) \<noteq> hs_secondary_monitor_healthy (sm_health s)"
  shows "sm_cross_monitor_fail_count (cross_rounds mc ts s) = sm_cross_monitor_fail_count s + of_nat (length ts) \<and>
    (ts \<noteq> [] \<longrightarrow> sm_cross_monitor_healthy (cross_rounds mc ts s) =
       (sm_cross_monitor_fail_count s + of_nat (length ts) < 3))"
  using assms
proof (induction mc ts s rule: cross_rounds.induct)
  case (2 mc t c ts s)
  let ?s = "fst (snd (cross_monitoring_at mc t c s))"
  have d: "100000 \<le> t - sm_last_cross_monitor_time s" "all_due t ts" using 2(2) by simp_all
  note st = cross_step [OF d(1) 2(3), of mc c]
  have "all_due (sm_last_cross_monitor_time ?s) ts" using d(2) st(2) by simp
  note ih = 2(1) [OF this]
  have e: "sm_cross_monitor_fail_count s + (1 + of_nat (length ts)) =
      sm_cross_monitor_fail_count ?s + of_nat (length ts)"
    by (simp add: st(1) add.assoc)
  show ?case
  proof (cases "ts = []")
    case True
    then show ?thesis using st by simp
  next
    case False
    then show ?thesis using ih 2(3) by (simp add: e)
  qed
qed simp

text \<open>The failure counter of the cross check has eight bits and no limit: after n consecutive
  checks that find primary and backup in disagreement it holds \<open>n mod 256\<close>, and the monitor calls
  itself healthy exactly when that is below 3, so again after 256 failures in a row.
\<close>

theorem cross_failures_wrap:
  assumes "all_due (sm_last_cross_monitor_time s) ts" "ts \<noteq> []"
    "hs_primary_monitor_healthy (sm_health s) \<noteq> hs_secondary_monitor_healthy (sm_health s)"
    "sm_cross_monitor_fail_count s = 0"
  shows "unat (sm_cross_monitor_fail_count (cross_rounds mc ts s)) = length ts mod 256 \<and>
    (sm_cross_monitor_healthy (cross_rounds mc ts s) \<longleftrightarrow> length ts mod 256 < 3)"
  using cross_rounds_count [OF assms(1,3), of mc] assms(2,4)
  by (simp add: unat_of_nat word_less_nat_alt)

definition example_codes :: monitor_codes where
  "example_codes = \<lparr>mc_none = hw_watchdog_ok, mc_already_initialized = timer_ok, mc_not_initialized = timer_ok,
     mc_not_running = timer_ok, mc_self_test_failed = timer_ok, mc_invalid_parameter = timer_ok,
     mc_port_invalid = 0\<rparr>"

definition disagreeing :: system_monitor where
  "disagreeing = system_monitor_boot\<lparr>sm_health := zero_health\<lparr>hs_primary_monitor_healthy := True\<rparr>\<rparr>"

lemma cross_failures_wrap_witness:
  "unat (sm_cross_monitor_fail_count (cross_rounds example_codes [(100000, 0), (200000, 0), (300000, 0)] disagreeing)) = 3 mod 256 \<and>
    (sm_cross_monitor_healthy (cross_rounds example_codes [(100000, 0), (200000, 0), (300000, 0)] disagreeing) \<longleftrightarrow> 3 mod 256 < (3 :: nat))"
  using cross_failures_wrap [of disagreeing "[(100000, 0), (200000, 0), (300000, 0)]" example_codes]
  by (simp add: disagreeing_def system_monitor_boot_def zero_health_def)

section \<open>The state over time\<close>

text \<open>What the service's operations can make of its state; a call that does not return makes nothing.\<close>

inductive monitor_reachable :: "monitor_codes \<Rightarrow> system_monitor \<Rightarrow> bool" for mc where
  mon_boot: "monitor_reachable mc system_monitor_boot"
| mon_init: "monitor_reachable mc s \<Longrightarrow> monitor_reachable mc (fst (snd (system_monitor_service_init mc p b s)))"
| mon_update: "monitor_reachable mc s \<Longrightarrow>
    system_monitor_update_health_redundant rounds fuel mc r clk s = Some (e, s', events, clk') \<Longrightarrow>
    monitor_reachable mc s'"
| mon_check: "monitor_reachable mc s \<Longrightarrow>
    monitor_reachable mc (fst (snd (system_monitor_watchdog_check_consistency mc t s)))"
| mon_arm: "monitor_reachable mc s \<Longrightarrow>
    monitor_reachable mc (snd (snd (system_monitor_watchdog_arm_redundant mc e f t1 t2 wd s)))"
| mon_pet: "monitor_reachable mc s \<Longrightarrow>
    monitor_reachable mc (snd (snd (system_monitor_watchdog_pet_redundant mc tm t wd s)))"

lemma system_time_cong:
  "sm_initialized s' = sm_initialized s \<Longrightarrow>
   system_monitor_get_system_time_us tm s' = system_monitor_get_system_time_us tm s"
  by (simp add: system_monitor_get_system_time_us_def)

text \<open>The two ways a self check can end: it is not due and changes nothing, or it calls the delay.\<close>

lemma self_check_outcome:
  assumes "system_monitor_get_system_time_us tm1 s = Some t"
  shows "perform_self_health_check rounds fuel mc tm1 tm2 tm3 clk s =
    (if t - sm_last_self_health_check_time s < 1000000 then Some (mc_none mc, s, [], clk) else None)"
  using assms
  by (simp add: perform_self_health_check_def self_check_not_due delay_stuck split: option.split)

lemma cross_check_outcome:
  assumes "perform_cross_monitoring mc tm1 tm2 s = Some (e, s', events)"
  shows "sm_health s' = sm_health s" "sm_last_self_health_check_time s' = sm_last_self_health_check_time s"
    "sm_self_health_healthy s' = sm_self_health_healthy s" "sm_last_heartbeat_time s' = sm_last_heartbeat_time s"
    "sm_initialized s' = sm_initialized s"
proof -
  obtain t c where "cross_monitoring_at mc t c s = (e, s', events)"
    using assms by (auto simp: perform_cross_monitoring_def split: option.splits if_splits)
  then have "s' = fst (snd (cross_monitoring_at mc t c s))" by simp
  then show "sm_health s' = sm_health s" "sm_last_self_health_check_time s' = sm_last_self_health_check_time s"
    "sm_self_health_healthy s' = sm_self_health_healthy s" "sm_last_heartbeat_time s' = sm_last_heartbeat_time s"
    "sm_initialized s' = sm_initialized s" by simp_all
qed

text \<open>An update that returns has not made its self check.\<close>

lemma update_returns:
  assumes "system_monitor_update_health_redundant rounds fuel mc r clk s = Some (e, s', events, clk')"
  obtains now e1 s1 log1 where "system_monitor_get_system_time_us (ur_now r) s = Some now"
    "perform_cross_monitoring mc (ur_cross r) (ur_cross_check r) s = Some (e1, s1, log1)"
    "s' = fst (assess_health mc now (mc_none mc) s1)" "e = mc_none mc" "clk' = clk"
proof -
  obtain now where now: "system_monitor_get_system_time_us (ur_now r) s = Some now"
    using assms by (auto simp: system_monitor_update_health_redundant_def split: option.splits)
  obtain e1 s1 log1 where cross: "perform_cross_monitoring mc (ur_cross r) (ur_cross_check r) s = Some (e1, s1, log1)"
    using assms now by (auto simp: system_monitor_update_health_redundant_def split: option.splits)
  obtain t where t: "system_monitor_get_system_time_us (ur_self r) s1 = Some t"
    using assms by (auto simp: system_monitor_update_health_redundant_def now cross
        perform_self_health_check_def split: option.splits)
  show thesis
    using that [OF now cross] assms
    by (auto simp: system_monitor_update_health_redundant_def now cross self_check_outcome [OF t]
        split: if_splits prod.splits)
qed

text \<open>So nothing ever records a heartbeat, a self check or its result.\<close>

definition never_checked :: "system_monitor \<Rightarrow> bool" where
  "never_checked s \<longleftrightarrow>
     sm_last_heartbeat_time s = 0 \<and> sm_last_self_health_check_time s = 0 \<and> \<not> sm_self_health_healthy s"

lemma update_never_checked:
  assumes "system_monitor_update_health_redundant rounds fuel mc r clk s = Some (e, s', events, clk')"
    and "never_checked s"
  shows "never_checked s'"
proof -
  obtain now e1 s1 log1 where cross: "perform_cross_monitoring mc (ur_cross r) (ur_cross_check r) s = Some (e1, s1, log1)"
    and s': "s' = fst (assess_health mc now (mc_none mc) s1)"
    by (rule update_returns [OF assms(1)])
  show ?thesis
    using assms(2) cross_check_outcome [OF cross] by (simp add: s' never_checked_def assess_health_def Let_def)
qed

lemma reachable_never_checked: "monitor_reachable mc s \<Longrightarrow> never_checked s"
proof (induction rule: monitor_reachable.induct)
  case (mon_update s rounds fuel r clk e s' events clk')
  then show ?case by (blast intro: update_never_checked)
qed (simp_all add: never_checked_def system_monitor_boot_def system_monitor_service_init_def
      system_monitor_watchdog_arm_redundant_def system_monitor_watchdog_pet_redundant_def
      Let_def case_prod_unfold)

text \<open>C33: The monitor never finds the system reliable.  Whatever an update in a reachable state reads,
  as long as its readings are defined (the timer has a frequency): once the reading of its self
  check is a second or more, the update never returns, because the self check calls the delay;
  before that it reports the score 0 and is not reliable for safety functions, because no self check
  has ever been made, and it finds the primary monitor healthy only up to 200000 us, because
  nothing records a heartbeat.
\<close>

theorem monitor_never_reliable:
  assumes "monitor_reachable mc s"
    and "system_monitor_get_system_time_us (ur_now r) s = Some now"
    and "system_monitor_get_system_time_us (ur_cross r) s = Some c1"
    and "system_monitor_get_system_time_us (ur_cross_check r) s = Some c2"
    and "system_monitor_get_system_time_us (ur_self r) s = Some self_time"
  shows "if 1000000 \<le> unat self_time
    then \<forall>rounds fuel. system_monitor_update_health_redundant rounds fuel mc r clk s = None
    else \<exists>s' events. (\<forall>rounds fuel. system_monitor_update_health_redundant rounds fuel mc r clk s =
        Some (mc_none mc, s', events, clk)) \<and>
      hs_overall_score (sm_health s') = 0 \<and> \<not> system_monitor_is_reliable_for_safety s' \<and>
      hs_secondary_monitor_healthy (sm_health s') \<and>
      (hs_primary_monitor_healthy (sm_health s') \<longleftrightarrow> unat now \<le> 200000)"
proof -
  note inv = reachable_never_checked [OF assms(1), unfolded never_checked_def]
  obtain e1 s1 log1 where cross: "perform_cross_monitoring mc (ur_cross r) (ur_cross_check r) s = Some (e1, s1, log1)"
    by (cases "perform_cross_monitoring mc (ur_cross r) (ur_cross_check r) s")
       (auto simp: perform_cross_monitoring_def assms(3,4) split: if_splits)
  note s1 = cross_check_outcome [OF cross]
  have "system_monitor_get_system_time_us (ur_self r) s1 = Some self_time"
    using assms(5) system_time_cong [OF s1(5)] by simp
  note self = self_check_outcome [OF this]
  show ?thesis
    using inv s1
    by (simp add: system_monitor_update_health_redundant_def assms(2) cross self word_less_nat_alt not_le
        assess_health_def Let_def overall_score_def system_monitor_is_reliable_for_safety_def word_le_nat_alt)
qed

text \<open>A service that has just been initialised; the timer counts microseconds.\<close>

definition started_monitor :: system_monitor where
  "started_monitor = fst (snd (system_monitor_service_init example_codes (hw_watchdog_ok, 4) (hw_watchdog_ok, 5)
     system_monitor_boot))"

definition timer_at :: "u64 \<Rightarrow> hw_timer_state" where
  "timer_at n = hw_timer_boot\<lparr>tm_initialized := True, tm_frequency_hz := 1000000, tm_base_counter := n\<rparr>"

definition readings_at :: "u64 \<Rightarrow> update_readings" where
  "readings_at n = \<lparr>ur_now = timer_at n, ur_cross = timer_at n, ur_cross_check = timer_at n,
     ur_self = timer_at n, ur_test_start = timer_at n, ur_test_end = timer_at n\<rparr>"

lemma readings_at_time:
  "system_monitor_get_system_time_us (timer_at n) started_monitor = Some (n * 1000000 div 1000000)"
  by (simp add: system_monitor_get_system_time_us_def timer_at_def hw_timer_get_frequency_def
      hw_timer_get_counter_def hw_timer_platform_get_counter_def started_monitor_def
      system_monitor_service_init_def example_codes_def Let_def)

text \<open>A fifth of a second after the start the score is 0, and a second after it the update hangs.\<close>

lemma monitor_never_reliable_witness:
  "hs_overall_score (sm_health started_monitor) = 100 \<and>
   (\<exists>s' events. system_monitor_update_health_redundant 1000 1000 example_codes (readings_at 200001) kernel_time_boot
      started_monitor = Some (mc_none example_codes, s', events, kernel_time_boot) \<and>
    hs_overall_score (sm_health s') = 0 \<and> \<not> hs_primary_monitor_healthy (sm_health s')) \<and>
   system_monitor_update_health_redundant 1000 1000 example_codes (readings_at 1000000) kernel_time_boot
      started_monitor = None"
proof -
  have r: "monitor_reachable example_codes started_monitor"
    unfolding started_monitor_def by (rule mon_init [OF mon_boot])
  have t: "system_monitor_get_system_time_us (ur_now (readings_at n)) started_monitor = Some (n * 1000000 div 1000000)"
    "system_monitor_get_system_time_us (ur_cross (readings_at n)) started_monitor = Some (n * 1000000 div 1000000)"
    "system_monitor_get_system_time_us (ur_cross_check (readings_at n)) started_monitor = Some (n * 1000000 div 1000000)"
    "system_monitor_get_system_time_us (ur_self (readings_at n)) started_monitor = Some (n * 1000000 div 1000000)" for n
    using readings_at_time [of n] by (simp_all add: readings_at_def)
  note u = monitor_never_reliable [OF r t, where clk = kernel_time_boot]
  have "hs_overall_score (sm_health started_monitor) = 100"
    by (simp add: started_monitor_def system_monitor_service_init_def example_codes_def Let_def system_monitor_boot_def)
  then show ?thesis using u [of 200001] u [of 1000000] by auto
qed

text \<open>The memory test of the self check overwrites the service's own flags: were the delay of the
  timer test to return, a due self check would leave the service marked initialised and running, whatever
  it was before, and with that the watchdog could be fed although the service was never started.
\<close>

theorem self_check_starts_service:
  assumes "1000000 \<le> now - sm_last_self_health_check_time s"
  shows "case self_health_check_at mc now test_start test_end s of (_, s', _) \<Rightarrow>
    sm_initialized s' \<and> sm_running s' \<and>
    fst (system_monitor_watchdog_pet_redundant mc tm t wd s') = fst (hw_watchdog_pet tm wd)"
  using leD [OF assms]
  by (simp add: self_health_check_at_def Let_def case_prod_unfold memory_test_def
      system_monitor_watchdog_pet_redundant_def)

lemma self_check_starts_service_witness:
  "case self_health_check_at example_codes 1000000 0 1000 system_monitor_boot of (_, s', _) \<Rightarrow>
    sm_initialized s' \<and> sm_running s' \<and>
    fst (system_monitor_watchdog_pet_redundant example_codes hw_timer_boot 0 hw_watchdog_boot s') =
      fst (hw_watchdog_pet hw_timer_boot hw_watchdog_boot)"
  by (rule self_check_starts_service) (simp add: system_monitor_boot_def)

end
