(* ===== verification/Log_Parser.thy ===== *)
theory Log_Parser
  imports Log_Core
begin

text \<open>
  The offline parser of tools/log_parser: log_parser.h and log_parser.c.  A file is the list of
  its bytes or characters, or None when \<open>fopen\<close> fails.  The C library functions are modelled as the
  code uses them: \<open>fgets\<close> on a buffer of 512, the two \<open>sscanf\<close> patterns, \<open>strstr\<close>, \<open>fread\<close> of whole
  entries, and \<open>printf\<close> with the conversions u, X and the percent sign.  A format string with
  another conversion, or with more conversions than arguments, is undefined behaviour in C; the
  output is None then.
\<close>

section \<open>Strings\<close>

definition newline :: char where "newline = CHR 0x0A"

definition is_space :: "char \<Rightarrow> bool" where
  "is_space c \<longleftrightarrow> c \<in> {CHR '' '', CHR 0x09, CHR 0x0A, CHR 0x0B, CHR 0x0C, CHR 0x0D}"

definition is_digit :: "char \<Rightarrow> bool" where
  "is_digit c \<longleftrightarrow> 48 \<le> (of_char c :: nat) \<and> (of_char c :: nat) \<le> 57"

fun starts_with :: "string \<Rightarrow> string \<Rightarrow> bool" where
  "starts_with [] s = True"
| "starts_with (c # cs) [] = False"
| "starts_with (c # cs) (d # ds) = (c = d \<and> starts_with cs ds)"

text \<open>\<open>strstr(haystack, needle) != NULL\<close>.\<close>

fun strstr :: "string \<Rightarrow> string \<Rightarrow> bool" where
  "strstr [] needle = starts_with needle []"
| "strstr (c # cs) needle = (starts_with needle (c # cs) \<or> strstr cs needle)"

definition digit_char :: "nat \<Rightarrow> char" where
  "digit_char d = (if d < 10 then char_of (48 + d) else char_of (55 + d))"

fun show_base :: "nat \<Rightarrow> nat \<Rightarrow> string" where
  "show_base b n = (if b < 2 \<or> n < b then [digit_char n] else show_base b (n div b) @ [digit_char (n mod b)])"

declare show_base.simps [simp del]

definition dec :: "nat \<Rightarrow> string" where "dec n = show_base 10 n"
definition hex :: "nat \<Rightarrow> string" where "hex n = show_base 16 n"

text \<open>\<open>printf\<close> with unsigned arguments.\<close>

fun c_format :: "string \<Rightarrow> u32 list \<Rightarrow> string option" where
  "c_format [] args = Some []"
| "c_format [c] args = (if c = CHR ''%'' then None else Some [c])"
| "c_format (c # d # r) args =
     (if c \<noteq> CHR ''%'' then map_option ((#) c) (c_format (d # r) args)
      else if d = CHR ''%'' then map_option ((#) c) (c_format r args)
      else case args of
             [] \<Rightarrow> None
           | a # as \<Rightarrow>
               if d = CHR ''u'' then map_option ((@) (dec (unat a))) (c_format r as)
               else if d = CHR ''X'' then map_option ((@) (hex (unat a))) (c_format r as)
               else None)"

section \<open>Databases\<close>

datatype message_type_t =
    MESSAGE_TYPE_GENERAL
  | MESSAGE_TYPE_CAN
  | MESSAGE_TYPE_UDS
  | MESSAGE_TYPE_KERNEL
  | MESSAGE_TYPE_SECURITY
  | MESSAGE_TYPE_COUNT

record format_string_entry_t =
  fe_message_id :: u16
  fe_format_string :: string
  fe_description :: string
  fe_message_type :: int

record tag_name_entry_t =
  te_tag_id :: u8
  te_tag_name :: string

record parser_stats_t =
  total_entries_parsed :: u32
  valid_entries :: u32
  corrupted_entries :: u32
  unknown_messages :: u32

record parser_state =
  g_format_db :: "format_string_entry_t list"
  g_tag_db :: "tag_name_entry_t list"
  g_parser_stats :: parser_stats_t

definition zero_stats :: parser_stats_t where
  "zero_stats = \<lparr>total_entries_parsed = 0, valid_entries = 0, corrupted_entries = 0, unknown_messages = 0\<rparr>"

definition parser_boot :: parser_state where
  "parser_boot = \<lparr>g_format_db = [], g_tag_db = [], g_parser_stats = zero_stats\<rparr>"

text \<open>The successive results of \<open>fgets\<close> with a buffer of 512 bytes.\<close>

function fgets_lines :: "string \<Rightarrow> string list" where
  "fgets_lines s =
     (if s = [] then []
      else
        let line = takeWhile (\<lambda>c. c \<noteq> newline) (take 511 s); n = length line
        in if n < 511 \<and> n < length s then (line @ [newline]) # fgets_lines (drop (n + 1) s)
           else line # fgets_lines (drop n s))"
  by pat_completeness auto
termination
proof (relation "measure length", goal_cases)
  case 1
  show ?case by simp
next
  case (2 s line n)
  then show ?case by simp
next
  case (3 s line n)
  then have "0 < n \<or> \<not> (n < 511 \<and> n < length s)" by simp
  moreover have "n \<noteq> 0"
    using 3 by (cases s) auto
  ultimately show ?case using 3(1) by simp
qed

declare fgets_lines.simps [simp del]

definition is_entry_line :: "string \<Rightarrow> bool" where
  "is_entry_line buffer \<longleftrightarrow> buffer \<noteq> [] \<and> hd buffer \<noteq> CHR ''#'' \<and> 1 < length buffer"

text \<open>The conversions of \<open>sscanf\<close>: the value and the rest of the input, or None when the conversion
  fails.\<close>

definition scan_set :: "nat \<Rightarrow> (char \<Rightarrow> bool) \<Rightarrow> string \<Rightarrow> (string \<times> string) option" where
  "scan_set width P s =
     (let t = takeWhile P (take width s) in if t = [] then None else Some (t, drop (length t) s))"

definition digits_value :: "string \<Rightarrow> int" where
  "digits_value ds = foldl (\<lambda>n c. 10 * n + (of_char c - 48)) 0 ds"

definition scan_int :: "string \<Rightarrow> (int \<times> string) option" where
  "scan_int s =
     (let s1 = dropWhile is_space s;
          (neg, s2) = (case s1 of c # r \<Rightarrow> if c = CHR ''-'' then (True, r)
                                           else if c = CHR ''+'' then (False, r) else (False, s1)
                                | [] \<Rightarrow> (False, s1));
          ds = takeWhile is_digit s2
      in if ds = [] then None
         else Some (if neg then - digits_value ds else digits_value ds, drop (length ds) s2))"

definition scan_char :: "char \<Rightarrow> string \<Rightarrow> string option" where
  "scan_char c s = (case s of d # r \<Rightarrow> if d = c then Some r else None | [] \<Rightarrow> None)"

definition not_bar :: "char \<Rightarrow> bool" where "not_bar c \<longleftrightarrow> c \<noteq> CHR ''|''"

text \<open>The fourth field is optional: its variable keeps 0.\<close>

definition scan_format_line :: "string \<Rightarrow> format_string_entry_t option" where
  "scan_format_line buffer =
     Option.bind (scan_int buffer) (\<lambda>(i, r1).
     Option.bind (scan_char (CHR ''|'') r1) (\<lambda>r2.
     Option.bind (scan_set 255 not_bar r2) (\<lambda>(f, r3).
     Option.bind (scan_char (CHR ''|'') r3) (\<lambda>r4.
     Option.bind (scan_set 127 not_bar r4) (\<lambda>(d, r5).
       Some \<lparr>fe_message_id = word_of_int i, fe_format_string = f, fe_description = d,
             fe_message_type = (case Option.bind (scan_char (CHR ''|'') r5) scan_int of
                                  None \<Rightarrow> 0 | Some (t, _) \<Rightarrow> t)\<rparr>)))))"

definition scan_tag_line :: "string \<Rightarrow> tag_name_entry_t option" where
  "scan_tag_line buffer =
     Option.bind (scan_int buffer) (\<lambda>(i, r1).
     Option.bind (scan_char (CHR ''|'') r1) (\<lambda>r2.
     Option.bind (scan_set 63 (\<lambda>c. c \<noteq> newline) r2) (\<lambda>(n, _).
       Some \<lparr>te_tag_id = word_of_int i, te_tag_name = n\<rparr>)))"

text \<open>The new database, or None for the result -1, which leaves the old one in place.\<close>

definition load_database :: "(string \<Rightarrow> 'a option) \<Rightarrow> bool \<Rightarrow> string option \<Rightarrow> 'a list option" where
  "load_database scan malloc_ok file =
     (case file of
        None \<Rightarrow> None
      | Some text \<Rightarrow>
          let ls = filter is_entry_line (fgets_lines text)
          in if ls = [] then None
             else if \<not> malloc_ok then None
             else Some (List.map_filter scan ls))"

definition load_format_database :: "bool \<Rightarrow> string option \<Rightarrow> format_string_entry_t list option" where
  "load_format_database malloc_ok file = load_database scan_format_line malloc_ok file"

definition load_tag_database :: "bool \<Rightarrow> string option \<Rightarrow> tag_name_entry_t list option" where
  "load_tag_database malloc_ok file = load_database scan_tag_line malloc_ok file"

definition log_parser_init :: "bool \<Rightarrow> string option \<Rightarrow> string option \<Rightarrow> parser_state \<Rightarrow> int \<times> parser_state" where
  "log_parser_init malloc_ok format_file tag_file s =
     (let s1 = s\<lparr>g_parser_stats := zero_stats\<rparr>;
          formats = load_format_database malloc_ok format_file;
          tags = load_tag_database malloc_ok tag_file;
          s2 = (case formats of None \<Rightarrow> s1 | Some db \<Rightarrow> s1\<lparr>g_format_db := db\<rparr>);
          s3 = (case tags of None \<Rightarrow> s2 | Some db \<Rightarrow> s2\<lparr>g_tag_db := db\<rparr>)
      in if formats = None then (-1, s3) else if tags = None then (-1, s3) else (0, s3))"

section \<open>Entries\<close>

text \<open>A byte image read back as the packed structure.\<close>

definition entry_of_bytes :: "u8 list \<Rightarrow> log_entry_binary_t" where
  "entry_of_bytes bs =
     \<lparr>le_timestamp = of_le32 (bs ! 0) (bs ! 1) (bs ! 2) (bs ! 3),
      le_process_id = of_le16 (bs ! 4) (bs ! 5), le_level = bs ! 6, le_tag_id = bs ! 7,
      le_message_id = of_le16 (bs ! 8) (bs ! 9),
      le_data0 = of_le32 (bs ! 10) (bs ! 11) (bs ! 12) (bs ! 13),
      le_data1 = of_le32 (bs ! 14) (bs ! 15) (bs ! 16) (bs ! 17),
      le_checksum = of_le16 (bs ! 18) (bs ! 19)\<rparr>"

definition log_parser_validate_entry ::
  "u8 list option \<Rightarrow> u64 \<Rightarrow> parser_stats_t \<Rightarrow> int \<times> parser_stats_t" where
  "log_parser_validate_entry entry_data entry_size st =
     (case entry_data of
        None \<Rightarrow> (-1, st)
      | Some bs \<Rightarrow>
          if entry_size \<noteq> 20 then (-1, st)
          else
            let entry = entry_of_bytes bs; calculated_checksum = checksum16 (take 18 bs)
            in if calculated_checksum \<noteq> le_checksum entry
               then (-1, st\<lparr>corrupted_entries := corrupted_entries st + 1\<rparr>)
               else if LOG_LEVEL_COUNT \<le> unat (le_level entry) then (-1, st)
               else if LOG_TAG_COUNT \<le> unat (le_tag_id entry)
               then (0, st\<lparr>unknown_messages := unknown_messages st + 1\<rparr>)
               else (0, st))"

definition log_parser_get_tag_name :: "parser_state \<Rightarrow> u8 \<Rightarrow> string" where
  "log_parser_get_tag_name s tag_id =
     (case find (\<lambda>e. te_tag_id e = tag_id) (g_tag_db s) of Some e \<Rightarrow> te_tag_name e | None \<Rightarrow> ''UNKNOWN'')"

definition log_parser_get_message_text :: "parser_state \<Rightarrow> u16 \<Rightarrow> string option" where
  "log_parser_get_message_text s message_id =
     map_option fe_format_string (find (\<lambda>e. fe_message_id e = message_id) (g_format_db s))"

definition log_parser_get_level_name :: "u8 \<Rightarrow> string" where
  "log_parser_get_level_name level =
     (if unat level < LOG_LEVEL_COUNT then [''EMERGENCY'', ''ERROR'', ''INFO'', ''DEBUG''] ! unat level
      else ''UNKNOWN'')"

definition log_parser_detect_message_type :: "u16 \<Rightarrow> string option \<Rightarrow> message_type_t" where
  "log_parser_detect_message_type message_id message_format =
     (case message_format of
        None \<Rightarrow> MESSAGE_TYPE_GENERAL
      | Some f \<Rightarrow>
          if strstr f ''CAN'' \<or> strstr f ''ID:'' \<or> strstr f ''DLC:'' \<or> strstr f ''frame''
          then MESSAGE_TYPE_CAN
          else if strstr f ''UDS'' \<or> strstr f ''SID:'' \<or> strstr f ''DID:'' \<or> strstr f ''diagnostic''
          then MESSAGE_TYPE_UDS
          else if strstr f ''kernel'' \<or> strstr f ''memory'' \<or> strstr f ''scheduler'' \<or> strstr f ''interrupt''
          then MESSAGE_TYPE_KERNEL
          else if strstr f ''security'' \<or> strstr f ''permission'' \<or> strstr f ''access'' \<or> strstr f ''denied''
          then MESSAGE_TYPE_SECURITY
          else MESSAGE_TYPE_GENERAL)"

definition log_parser_get_stats :: "parser_state \<Rightarrow> parser_stats_t" where
  "log_parser_get_stats s = g_parser_stats s"

section \<open>Formatting\<close>

datatype color_mode_t = COLOR_MODE_NEVER | COLOR_MODE_MINIMAL | COLOR_MODE_ALWAYS
datatype log_format_t = FORMAT_SMART | FORMAT_FIXED | FORMAT_MINIMAL | FORMAT_VERBOSE
datatype output_format_t =
    OUTPUT_FORMAT_TEXT
  | OUTPUT_FORMAT_JSON
  | OUTPUT_FORMAT_CSV
  | OUTPUT_FORMAT_BINARY

record module_filter_t =
  mf_tag_id :: u8
  mf_min_level :: u8

definition COLOR_RED :: string where "COLOR_RED = CHR 0x1B # ''[31m''"
definition COLOR_RESET :: string where "COLOR_RESET = CHR 0x1B # ''[0m''"

text \<open>The buffer contents after the call; \<open>snprintf\<close> keeps one byte for the terminator.\<close>

definition log_parser_extract_context :: "string option \<Rightarrow> u32 \<Rightarrow> u32 \<Rightarrow> nat \<Rightarrow> string" where
  "log_parser_extract_context message_format d0 d1 context_size =
     (case message_format of
        None \<Rightarrow> []
      | Some f \<Rightarrow>
          take (context_size - 1)
            (if strstr f ''session'' then ''Session:'' @ dec (unat d0)
             else if strstr f ''process'' \<or> strstr f ''thread'' then ''Process:'' @ dec (unat d0)
             else if strstr f ''user'' \<or> strstr f ''device'' then ''User:'' @ dec (unat d0)
             else []))"

definition log_parser_extract_key_data :: "string option \<Rightarrow> u32 \<Rightarrow> u32 \<Rightarrow> nat \<Rightarrow> string" where
  "log_parser_extract_key_data message_format d0 d1 key_data_size =
     (case message_format of
        None \<Rightarrow> []
      | Some f \<Rightarrow>
          take (key_data_size - 1)
            (if strstr f ''CAN'' \<or> strstr f ''ID:''
             then ''ID:0x'' @ hex (unat d0) @ '' DLC:'' @ dec (unat d1)
             else if strstr f ''UDS'' \<or> strstr f ''SID:''
             then ''SID:0x'' @ hex (unat d0) @ '' Result:'' @ (if d1 = 0 then ''Success'' else ''Failure'')
             else if strstr f ''error'' \<or> strstr f ''code'' then ''ErrorCode:'' @ dec (unat d0)
             else if strstr f ''latency'' \<or> strstr f ''time'' then ''Latency:'' @ dec (unat d0) @ ''ms''
             else if d0 \<noteq> 0 \<or> d1 \<noteq> 0 then ''Data:'' @ dec (unat d0) @ '','' @ dec (unat d1)
             else []))"

definition formatted_message :: "string \<Rightarrow> log_entry_binary_t \<Rightarrow> string option" where
  "formatted_message f e = map_option (take 127) (c_format f [le_data0 e, le_data1 e])"

definition format_body ::
  "parser_state \<Rightarrow> log_format_t \<Rightarrow> log_entry_binary_t \<Rightarrow> string option" where
  "format_body s log_format e =
     (let tag_name = log_parser_get_tag_name s (le_tag_id e);
          message_format = log_parser_get_message_text s (le_message_id e);
          level_name = log_parser_get_level_name (le_level e);
          ctxt = log_parser_extract_context message_format (le_data0 e) (le_data1 e) 32;
          key_data = log_parser_extract_key_data message_format (le_data0 e) (le_data1 e) 64;
          ts = dec (unat (le_timestamp e));
          unknown = ''Unknown message '' @ dec (unat (le_message_id e));
          message = (case message_format of None \<Rightarrow> Some unknown | Some f \<Rightarrow> formatted_message f e);
          fixed = map_option (\<lambda>m. ts @ '' | '' @ level_name @ '' | '' @ tag_name @
                    (if ctxt \<noteq> [] then '' | '' @ ctxt else '' | -'') @ '' | '' @ m @
                    (if key_data \<noteq> [] then '' | '' @ key_data else [])) message
      in case log_format of
           FORMAT_SMART \<Rightarrow> fixed
         | FORMAT_FIXED \<Rightarrow> fixed
         | FORMAT_MINIMAL \<Rightarrow> map_option (\<lambda>m. ts @ '' | '' @ level_name @ '' | '' @ m) message
         | FORMAT_VERBOSE \<Rightarrow>
             map_option (\<lambda>m. ''Timestamp:'' @ ts @ '' Level:'' @ level_name @ '' Module:'' @ tag_name @
               '' Process:'' @ dec (unat (le_process_id e)) @
               (if ctxt \<noteq> [] then '' Context:'' @ ctxt else []) @ '' Message:'' @ m @
               (if key_data \<noteq> [] then '' KeyData:'' @ key_data else [])) message)"

definition log_parser_format_entry_smart ::
  "parser_state \<Rightarrow> color_mode_t \<Rightarrow> log_format_t \<Rightarrow> log_entry_binary_t \<Rightarrow> string option" where
  "log_parser_format_entry_smart s color_mode log_format e =
     (let use_color = (color_mode = COLOR_MODE_MINIMAL \<and>
                       (le_level e = LOG_LEVEL_ERROR \<or> le_level e = LOG_LEVEL_EMERGENCY))
      in map_option (\<lambda>body. (if use_color then COLOR_RED else []) @ body @
                            (if use_color then COLOR_RESET else []) @ [newline])
           (format_body s log_format e))"

definition format_plain :: "parser_state \<Rightarrow> log_entry_binary_t \<Rightarrow> string option" where
  "format_plain s e =
     (let tag_name = log_parser_get_tag_name s (le_tag_id e);
          start = ''['' @ dec (unat (le_timestamp e)) @ ''] '' @ tag_name @ '': ''
      in case log_parser_get_message_text s (le_message_id e) of
           Some f \<Rightarrow> map_option (\<lambda>m. start @ m @ [newline]) (c_format f [le_data0 e, le_data1 e])
         | None \<Rightarrow> Some (start @ ''Unknown message '' @ dec (unat (le_message_id e)) @ '' (data: '' @
                         dec (unat (le_data0 e)) @ '', '' @ dec (unat (le_data1 e)) @ '')'' @ [newline]))"

section \<open>Files\<close>

text \<open>The entries that \<open>fread\<close> returns; a shorter rest ends the loop.\<close>

fun entry_chunks :: "u8 list \<Rightarrow> u8 list list" where
  "entry_chunks bs = (if length bs < 20 then [] else take 20 bs # entry_chunks (drop 20 bs))"

declare entry_chunks.simps [simp del]

definition process_entry ::
  "(log_entry_binary_t \<Rightarrow> string option) \<Rightarrow> (log_entry_binary_t \<Rightarrow> bool) \<Rightarrow> u8 list \<Rightarrow> parser_stats_t \<Rightarrow>
   parser_stats_t \<times> string option" where
  "process_entry render should_output bs st =
     (let st1 = st\<lparr>total_entries_parsed := total_entries_parsed st + 1\<rparr>;
          (r, st2) = log_parser_validate_entry (Some bs) 20 st1
      in if r = 0 then
           (st2\<lparr>valid_entries := valid_entries st2 + 1\<rparr>,
            if should_output (entry_of_bytes bs) then render (entry_of_bytes bs) else Some [])
         else (st2, Some []))"

definition join_output :: "string option \<Rightarrow> string option \<Rightarrow> string option" where
  "join_output a b = Option.bind a (\<lambda>x. map_option ((@) x) b)"

fun process_entries ::
  "(log_entry_binary_t \<Rightarrow> string option) \<Rightarrow> (log_entry_binary_t \<Rightarrow> bool) \<Rightarrow> u8 list list \<Rightarrow> parser_stats_t \<Rightarrow>
   parser_stats_t \<times> string option" where
  "process_entries render should_output [] st = (st, Some [])"
| "process_entries render should_output (c # cs) st =
     (let (st1, out1) = process_entry render should_output c st;
          (st2, out2) = process_entries render should_output cs st1
      in (st2, join_output out1 out2))"

text \<open>The result code, the contents of the output file, and the new state.\<close>

definition log_parser_process_file ::
  "u8 list option \<Rightarrow> bool \<Rightarrow> output_format_t \<Rightarrow> parser_state \<Rightarrow> int \<times> string option \<times> parser_state" where
  "log_parser_process_file input output_ok format s =
     (case input of
        None \<Rightarrow> (-1, Some [], s)
      | Some bytes \<Rightarrow>
          if \<not> output_ok then (-1, Some [], s)
          else
            let (st, out) = process_entries
                  (\<lambda>e. if format = OUTPUT_FORMAT_TEXT then format_plain s e else Some [])
                  (\<lambda>_. True) (entry_chunks bytes) (g_parser_stats s)
            in (0, out, s\<lparr>g_parser_stats := st\<rparr>))"

definition passes_filters :: "module_filter_t list \<Rightarrow> log_entry_binary_t \<Rightarrow> bool" where
  "passes_filters filters e =
     (if filters \<noteq> [] then list_ex (\<lambda>f. mf_tag_id f = le_tag_id e \<and> mf_min_level f \<le> le_level e) filters
      else True)"

definition log_parser_process_file_ex ::
  "u8 list option \<Rightarrow> bool \<Rightarrow> output_format_t \<Rightarrow> color_mode_t \<Rightarrow> log_format_t \<Rightarrow> module_filter_t list \<Rightarrow>
   parser_state \<Rightarrow> int \<times> string option \<times> parser_state" where
  "log_parser_process_file_ex input output_ok format color_mode log_format filters s =
     (case input of
        None \<Rightarrow> (-1, Some [], s)
      | Some bytes \<Rightarrow>
          if \<not> output_ok then (-1, Some [], s)
          else
            let (st, out) = process_entries
                  (\<lambda>e. if format = OUTPUT_FORMAT_TEXT
                       then log_parser_format_entry_smart s color_mode log_format e else format_plain s e)
                  (passes_filters filters) (entry_chunks bytes) (g_parser_stats s)
            in (0, out, s\<lparr>g_parser_stats := st\<rparr>))"

section \<open>Entries survive the file\<close>

lemma le16_bytes: "le16 w = [ucast w, ucast (drop_bit 8 w)]"
  by (simp add: le16_def)

lemma of_le16_bytes: "of_le16 (ucast w) (ucast (drop_bit 8 w)) = w"
  by (rule of_le16_le16) (simp add: le16_def)

lemma entry_of_bytes_entry: "entry_of_bytes (entry_bytes e) = e"
proof -
  have "entry_bytes e =
    [ucast (le_timestamp e), ucast (drop_bit 8 (le_timestamp e)), ucast (drop_bit 16 (le_timestamp e)),
     ucast (drop_bit 24 (le_timestamp e)), ucast (le_process_id e), ucast (drop_bit 8 (le_process_id e)),
     le_level e, le_tag_id e, ucast (le_message_id e), ucast (drop_bit 8 (le_message_id e)),
     ucast (le_data0 e), ucast (drop_bit 8 (le_data0 e)), ucast (drop_bit 16 (le_data0 e)),
     ucast (drop_bit 24 (le_data0 e)),
     ucast (le_data1 e), ucast (drop_bit 8 (le_data1 e)), ucast (drop_bit 16 (le_data1 e)),
     ucast (drop_bit 24 (le_data1 e)), ucast (le_checksum e), ucast (drop_bit 8 (le_checksum e))]"
    by (simp add: entry_bytes_def entry_body_bytes_def le16_def le32_def)
  then show ?thesis by (simp add: entry_of_bytes_def of_le32_le32 of_le16_bytes)
qed

lemma entry_bytes_of:
  assumes "length bs = 20"
  shows "entry_bytes (entry_of_bytes bs) = bs"
proof -
  have "entry_bytes (entry_of_bytes bs) = map ((!) bs) [0..<20]"
    by (simp add: upt_conv_Cons entry_of_bytes_def entry_bytes_def entry_body_bytes_def
        le16_of_le16 le32_of_le32) (simp add: numeral_eq_Suc)
  then show ?thesis using map_nth [of bs] assms by simp
qed

lemma entry_chunks_short: "length bs < 20 \<Longrightarrow> entry_chunks bs = []"
  by (simp add: entry_chunks.simps)

lemma entry_chunks_entry: "entry_chunks (entry_bytes e @ bs) = entry_bytes e # entry_chunks bs"
  by (simp add: entry_chunks.simps [of "entry_bytes e @ bs"])

lemma entry_chunks_entries:
  "length rest < 20 \<Longrightarrow> entry_chunks (concat (map entry_bytes es) @ rest) = map entry_bytes es"
  by (induction es) (simp_all add: entry_chunks_short entry_chunks_entry)

text \<open>The verdict on an entry, as the parser takes it.\<close>

definition intact :: "log_entry_binary_t \<Rightarrow> bool" where
  "intact e \<longleftrightarrow> le_checksum e = log_calculate_checksum (Some e)"

lemma validate_entry:
  "log_parser_validate_entry (Some (entry_bytes e)) 20 st =
     (if \<not> intact e then (-1, st\<lparr>corrupted_entries := corrupted_entries st + 1\<rparr>)
      else if 4 \<le> unat (le_level e) then (-1, st)
      else if 9 \<le> unat (le_tag_id e) then (0, st\<lparr>unknown_messages := unknown_messages st + 1\<rparr>)
      else (0, st))"
  by (auto simp: log_parser_validate_entry_def entry_of_bytes_entry intact_def log_calculate_checksum_def
      LOG_LEVEL_COUNT_def LOG_TAG_COUNT_def Let_def)

lemma process_entry_valid:
  "process_entry render keep (entry_bytes e) st =
     (let st1 = st\<lparr>total_entries_parsed := total_entries_parsed st + 1\<rparr>
      in if \<not> intact e then (st1\<lparr>corrupted_entries := corrupted_entries st1 + 1\<rparr>, Some [])
         else if 4 \<le> unat (le_level e) then (st1, Some [])
         else (st1\<lparr>unknown_messages := unknown_messages st1 + (if 9 \<le> unat (le_tag_id e) then 1 else 0),
                   valid_entries := valid_entries st1 + 1\<rparr>,
               if keep e then render e else Some []))"
  by (simp add: process_entry_def validate_entry entry_of_bytes_entry Let_def)

definition accepted :: "log_entry_binary_t \<Rightarrow> bool" where
  "accepted e \<longleftrightarrow> intact e \<and> unat (le_level e) < 4"

definition count_entries :: "(log_entry_binary_t \<Rightarrow> bool) \<Rightarrow> log_entry_binary_t list \<Rightarrow> u32" where
  "count_entries P es = word_of_nat (length (filter P es))"

text \<open>The output of a run: the renderings of the accepted entries that pass, one after the other.\<close>

fun rendered :: "(log_entry_binary_t \<Rightarrow> string option) \<Rightarrow> log_entry_binary_t list \<Rightarrow> string option" where
  "rendered render [] = Some []"
| "rendered render (e # es) = join_output (render e) (rendered render es)"

lemma join_output_empty [simp]: "join_output (Some []) x = x"
  by (cases x) (simp_all add: join_output_def)

lemma process_entries_run:
  "process_entries render keep (map entry_bytes es) st =
     (st\<lparr>total_entries_parsed := total_entries_parsed st + word_of_nat (length es),
        valid_entries := valid_entries st + count_entries accepted es,
        corrupted_entries := corrupted_entries st + count_entries (\<lambda>e. \<not> intact e) es,
        unknown_messages := unknown_messages st + count_entries (\<lambda>e. accepted e \<and> 9 \<le> unat (le_tag_id e)) es\<rparr>,
      rendered render (filter (\<lambda>e. accepted e \<and> keep e) es))"
proof (induction es arbitrary: st)
  case Nil
  then show ?case by (simp add: count_entries_def)
next
  case (Cons e es)
  consider "\<not> intact e" | "intact e" "4 \<le> unat (le_level e)" | "accepted e" "intact e" "unat (le_level e) < 4"
    unfolding accepted_def by (meson not_le)
  then show ?case
    by cases (simp_all add: process_entry_valid Cons Let_def count_entries_def accepted_def algebra_simps)
qed

text \<open>C12: A file of entry images, with less than one entry after them, is read back entry by entry:
  the output is the renderings of exactly the entries that are intact, have a level below 4 and
  pass the filters, in order; the totals count all of them, the valid ones, the corrupted ones and,
  among the valid ones, those with an unknown tag.  An intact entry with a level out of range is
  in the total and in no other counter.
\<close>

theorem log_file_roundtrip:
  assumes "length rest < 20"
  shows "log_parser_process_file_ex (Some (concat (map entry_bytes es) @ rest)) True OUTPUT_FORMAT_TEXT
      color_mode log_format filters s =
    (0, rendered (log_parser_format_entry_smart s color_mode log_format)
          (filter (\<lambda>e. accepted e \<and> passes_filters filters e) es),
     s\<lparr>g_parser_stats := (g_parser_stats s)
         \<lparr>total_entries_parsed := total_entries_parsed (g_parser_stats s) + word_of_nat (length es),
          valid_entries := valid_entries (g_parser_stats s) + count_entries accepted es,
          corrupted_entries := corrupted_entries (g_parser_stats s) + count_entries (\<lambda>e. \<not> intact e) es,
          unknown_messages := unknown_messages (g_parser_stats s) +
            count_entries (\<lambda>e. accepted e \<and> 9 \<le> unat (le_tag_id e)) es\<rparr>\<rparr>)"
  using assms
  by (simp add: log_parser_process_file_ex_def entry_chunks_entries process_entries_run Let_def)

lemma log_file_roundtrip_witness:
  "fst (log_parser_process_file_ex (Some (concat (map entry_bytes [new_entry 5 0 1 4 2 7 8]) @ [1, 2, 3])) True
     OUTPUT_FORMAT_TEXT COLOR_MODE_NEVER FORMAT_SMART [] parser_boot) = 0"
  by (subst log_file_roundtrip) simp_all

lemma new_entry_intact: "intact (new_entry ts pid l t m a b)"
  by (simp add: intact_def new_entry_def with_checksum_def log_calculate_checksum_def entry_bytes_def
      entry_body_bytes_def)

lemma created_accepted:
  assumes "log_create_entry env True l t m a b = (err, Some e)"
  shows "accepted e \<and> unat (le_tag_id e) < 9"
proof -
  have "\<exists>ts pid. e = new_entry ts pid l t m a b" "unat l < 4" "unat t < 9"
    using assms
    by (auto simp: log_create_entry_def log_safety_checks_def LOG_LEVEL_COUNT_def LOG_TAG_COUNT_def
        split: if_splits)
  then show ?thesis
    by (auto simp: accepted_def new_entry_intact) (simp_all add: new_entry_def with_checksum_def)
qed

text \<open>The parser accepts what the logger writes: a file of entries that \<open>log_create_entry\<close> made is
  parsed with every entry valid, none corrupted and none of an unknown tag, and without filters
  every one of them is printed, in the order of the file.  An entry at the end whose write was cut
  short does no harm.
\<close>

theorem logger_files_are_valid:
  assumes "\<And>e. e \<in> set es \<Longrightarrow> \<exists>env l t m a b err. log_create_entry env True l t m a b = (err, Some e)"
    and "length es < 2 ^ 32" "length rest < 20"
  shows "case log_parser_process_file (Some (concat (map entry_bytes es) @ rest)) True OUTPUT_FORMAT_TEXT
      (parser_boot\<lparr>g_format_db := formats, g_tag_db := tags\<rparr>) of (r, out, s') \<Rightarrow>
    r = 0 \<and> out = rendered (format_plain (parser_boot\<lparr>g_format_db := formats, g_tag_db := tags\<rparr>)) es \<and>
    unat (total_entries_parsed (g_parser_stats s')) = length es \<and>
    unat (valid_entries (g_parser_stats s')) = length es \<and>
    corrupted_entries (g_parser_stats s') = 0 \<and> unknown_messages (g_parser_stats s') = 0"
proof -
  have ok: "accepted e \<and> unat (le_tag_id e) < 9" if "e \<in> set es" for e
    using assms(1) [OF that] created_accepted by blast
  then have f: "filter (\<lambda>e. accepted e) es = es" "filter (\<lambda>e. \<not> intact e) es = []"
    "filter (\<lambda>e. accepted e \<and> 9 \<le> unat (le_tag_id e)) es = []"
    by (auto simp: filter_id_conv filter_empty_conv accepted_def not_le)
  have "entry_chunks (concat (map entry_bytes es) @ rest) = map entry_bytes es"
    using assms(3) by (rule entry_chunks_entries)
  moreover have "unat (word_of_nat (length es) :: u32) = length es"
    using assms(2) by (simp add: unat_of_nat)
  ultimately show ?thesis
    by (simp add: log_parser_process_file_def process_entries_run count_entries_def f parser_boot_def
        zero_stats_def Let_def)
qed

lemma logger_files_are_valid_witness:
  "case log_parser_process_file (Some (concat (map entry_bytes [new_entry 0 0 1 4 2 7 8]) @ [1, 2])) True OUTPUT_FORMAT_TEXT
      (parser_boot\<lparr>g_format_db := [], g_tag_db := []\<rparr>) of (r, out, s') \<Rightarrow>
    r = 0 \<and> out = rendered (format_plain (parser_boot\<lparr>g_format_db := [], g_tag_db := []\<rparr>)) [new_entry 0 0 1 4 2 7 8] \<and>
    unat (total_entries_parsed (g_parser_stats s')) = length [new_entry 0 0 1 4 2 7 8] \<and>
    unat (valid_entries (g_parser_stats s')) = length [new_entry 0 0 1 4 2 7 8] \<and>
    corrupted_entries (g_parser_stats s') = 0 \<and> unknown_messages (g_parser_stats s') = 0"
proof (rule logger_files_are_valid)
  fix e
  assume "e \<in> set [new_entry 0 0 1 4 2 7 8]"
  then have "log_create_entry mock_env True 1 4 2 7 8 = (log_ok, Some e)"
    by (simp add: log_create_entry_def log_safety_checks_def LOG_LEVEL_COUNT_def LOG_TAG_COUNT_def
        LOG_MSG_COUNT_def mock_env_def mock_sys_getpid_def mock_time_get_us_def)
  then show "\<exists>env l t m a b err. log_create_entry env True l t m a b = (err, Some e)" by blast
qed simp_all

section \<open>Filters and formats\<close>

text \<open>A filter compares levels by their number, and the most severe level is 0: a filter with a
  minimal level keeps the entries of its tag that are at most that severe.  With the level ERROR
  it hides the EMERGENCY entries of the module and shows its INFO and DEBUG entries.
\<close>

theorem filter_hides_more_severe:
  "(passes_filters [\<lparr>mf_tag_id = t, mf_min_level = l\<rparr>] e \<longleftrightarrow> le_tag_id e = t \<and> unat l \<le> unat (le_level e)) \<and>
   (filter (passes_filters [\<lparr>mf_tag_id = t, mf_min_level = LOG_LEVEL_ERROR\<rparr>])
      (map (\<lambda>l. new_entry ts pid l t m a b) [LOG_LEVEL_EMERGENCY, LOG_LEVEL_ERROR, LOG_LEVEL_INFO, LOG_LEVEL_DEBUG]) =
    map (\<lambda>l. new_entry ts pid l t m a b) [LOG_LEVEL_ERROR, LOG_LEVEL_INFO, LOG_LEVEL_DEBUG])"
  by (auto simp: passes_filters_def word_le_nat_alt new_entry_def with_checksum_def)

text \<open>Without extended options a JSON, CSV or binary conversion succeeds with an empty file, for
  every input, and still counts the entries as for text.
\<close>

theorem other_formats_write_nothing:
  assumes "format \<noteq> OUTPUT_FORMAT_TEXT"
  shows "case log_parser_process_file (Some bytes) True format s of (r, out, s') \<Rightarrow>
    r = 0 \<and> out = Some [] \<and>
    s' = snd (snd (log_parser_process_file (Some bytes) True OUTPUT_FORMAT_TEXT s))"
proof -
  have e: "process_entry (\<lambda>_. Some []) (\<lambda>_. True) bs st =
      (fst (process_entry render (\<lambda>_. True) bs st), Some [])" for render bs st
    by (simp add: process_entry_def Let_def case_prod_unfold)
  have "process_entries (\<lambda>_. Some []) (\<lambda>_. True) cs st =
      (fst (process_entries render (\<lambda>_. True) cs st), Some [])" for render cs st
  proof (induction cs arbitrary: st)
    case (Cons c cs)
    have "process_entries (\<lambda>_. Some []) (\<lambda>_. True) (c # cs) st =
        (fst (process_entries (\<lambda>_. Some []) (\<lambda>_. True) cs (fst (process_entry render (\<lambda>_. True) c st))), Some [])"
      using Cons [of "fst (process_entry render (\<lambda>_. True) c st)"]
      by (simp only: process_entries.simps e [where render = render] Let_def case_prod_conv) simp
    then show ?case
      using Cons [of "fst (process_entry render (\<lambda>_. True) c st)"]
      by (simp add: Let_def case_prod_unfold)
  qed simp
  note out = this [where render = "format_plain s"]
  show ?thesis
    using assms by (simp add: log_parser_process_file_def out Let_def case_prod_unfold)
qed

lemma other_formats_write_nothing_witness:
  "case log_parser_process_file (Some (entry_bytes (new_entry 0 0 1 4 2 7 8))) True OUTPUT_FORMAT_JSON parser_boot of
     (r, out, s') \<Rightarrow> r = 0 \<and> out = Some [] \<and>
    s' = snd (snd (log_parser_process_file (Some (entry_bytes (new_entry 0 0 1 4 2 7 8))) True OUTPUT_FORMAT_TEXT parser_boot))"
  by (rule other_formats_write_nothing) simp

lemma strstr_suffix: "strstr f (c # n) \<Longrightarrow> strstr f n"
proof (induction f)
  case (Cons d f)
  have "starts_with n f \<Longrightarrow> strstr f n" for n by (cases f) auto
  with Cons show ?case by auto
qed simp

text \<open>The tests for service and data identifiers are shadowed: a format string that contains
  \<open>SID:\<close> or \<open>DID:\<close> contains \<open>ID:\<close> and is taken for a CAN message, in the type and in the key data,
  whatever else it says.
\<close>

theorem identifiers_detected_as_can:
  assumes "strstr f ''SID:'' \<or> strstr f ''DID:''" "0 < key_size"
  shows "log_parser_detect_message_type i (Some f) = MESSAGE_TYPE_CAN \<and>
    log_parser_extract_key_data (Some f) a b key_size =
      take (key_size - 1) (''ID:0x'' @ hex (unat a) @ '' DLC:'' @ dec (unat b))"
proof -
  have "strstr f ''ID:''" using assms(1) strstr_suffix by blast
  then show ?thesis by (simp add: log_parser_detect_message_type_def log_parser_extract_key_data_def)
qed

lemma identifiers_detected_as_can_witness:
  "log_parser_detect_message_type 10 (Some ''UDS request SID: %X'') = MESSAGE_TYPE_CAN"
  using identifiers_detected_as_can [of "''UDS request SID: %X''" 64 10] by simp

section \<open>Databases\<close>

text \<open>Reading by lines loses nothing: the pieces that \<open>fgets\<close> returns are non-empty, have at most
  511 characters, and together are the file.
\<close>

theorem fgets_lines_concat:
  "concat (fgets_lines s) = s \<and> list_all (\<lambda>l. l \<noteq> [] \<and> length l \<le> 511) (fgets_lines s)"
proof (induction s rule: fgets_lines.induct)
  case (1 s)
  define line where "line = takeWhile (\<lambda>c. c \<noteq> newline) (take 511 s)"
  have len: "length line \<le> 511" "length line \<le> length s"
    using length_takeWhile_le [of "\<lambda>c. c \<noteq> newline" "take 511 s"] by (auto simp: line_def)
  have pre: "line = take (length line) s"
    using len takeWhile_eq_take [of "\<lambda>c. c \<noteq> newline" "take 511 s"] by (simp add: line_def min_def take_take)
  show ?case
  proof (cases "s = []")
    case True
    then show ?thesis by (simp add: fgets_lines.simps)
  next
    case False
    show ?thesis
    proof (cases "length line < 511 \<and> length line < length s")
      case True
      then have "s ! length line = newline"
        using nth_length_takeWhile [of "\<lambda>c. c \<noteq> newline" "take 511 s"] by (simp add: line_def)
      then have "s = line @ newline # drop (length line + 1) s"
        using pre True id_take_nth_drop [of "length line" s] by simp
      moreover have "fgets_lines s = (line @ [newline]) # fgets_lines (drop (length line + 1) s)"
        using False True by (simp add: fgets_lines.simps [of s] line_def Let_def)
      ultimately show ?thesis
        using 1(1) [OF False line_def refl] True by simp
    next
      case f: False
      have "line \<noteq> []"
      proof
        assume "line = []"
        with f False show False by simp
      qed
      moreover have "s = line @ drop (length line) s" using pre by (metis append_take_drop_id)
      moreover have "fgets_lines s = line # fgets_lines (drop (length line) s)"
        using False f by (simp add: fgets_lines.simps [of s] line_def Let_def)
      ultimately show ?thesis
        using 1(2) [OF False line_def refl f] len by simp
    qed
  qed
qed

end
