(* ===== verification/Log_Parser_Main.thy ===== *)
theory Log_Parser_Main
  imports Log_Parser
begin

text \<open>
  The command line of the log parser: tools/log_parser/main.c.  The directory of the executable,
  which the operating system knows, is a parameter, and so are the files: a map from path names to
  contents, and the paths that can be written.  The result is the exit code, the contents of the
  output file and the state of the parser, whose statistics the program prints.  What goes to the
  terminal is not modelled.
\<close>

section \<open>Arguments\<close>

definition PATH_MAX :: nat where "PATH_MAX = 4096"

text \<open>The directory of the executable, None for the result -1.\<close>

definition get_tool_directory :: "string option \<Rightarrow> nat \<Rightarrow> string option" where
  "get_tool_directory exe_dir bufsize =
     (case exe_dir of None \<Rightarrow> None | Some dir \<Rightarrow> if bufsize \<le> length dir then None else Some dir)"

definition parse_format :: "string \<Rightarrow> output_format_t" where
  "parse_format str =
     (if str = ''text'' then OUTPUT_FORMAT_TEXT
      else if str = ''json'' then OUTPUT_FORMAT_JSON
      else if str = ''csv'' then OUTPUT_FORMAT_CSV
      else if str = ''binary'' then OUTPUT_FORMAT_BINARY
      else OUTPUT_FORMAT_TEXT)"

definition parse_color_mode :: "string \<Rightarrow> color_mode_t" where
  "parse_color_mode str =
     (if str = ''never'' then COLOR_MODE_NEVER
      else if str = ''minimal'' then COLOR_MODE_MINIMAL
      else if str = ''always'' then COLOR_MODE_ALWAYS
      else COLOR_MODE_MINIMAL)"

definition parse_log_format :: "string \<Rightarrow> log_format_t" where
  "parse_log_format str =
     (if str = ''smart'' then FORMAT_SMART
      else if str = ''fixed'' then FORMAT_FIXED
      else if str = ''minimal'' then FORMAT_MINIMAL
      else if str = ''verbose'' then FORMAT_VERBOSE
      else FORMAT_SMART)"

definition filter_tag :: "string \<Rightarrow> u8 option" where
  "filter_tag str =
     (if str = ''SYSTEM'' then Some LOG_TAG_SYSTEM
      else if str = ''KERNEL'' then Some LOG_TAG_KERNEL
      else if str = ''DRIVER_CAN'' then Some LOG_TAG_DRIVER_CAN
      else if str = ''SERVICE_AI'' then Some LOG_TAG_SERVICE_AI
      else if str = ''SERVICE_DIAG'' then Some LOG_TAG_SERVICE_DIAG
      else if str = ''APPLICATION'' then Some LOG_TAG_APPLICATION
      else None)"

definition filter_level :: "string \<Rightarrow> u8 option" where
  "filter_level str =
     (if str = ''DEBUG'' then Some LOG_LEVEL_DEBUG
      else if str = ''INFO'' then Some LOG_LEVEL_INFO
      else if str = ''ERROR'' then Some LOG_LEVEL_ERROR
      else if str = ''EMERGENCY'' then Some LOG_LEVEL_EMERGENCY
      else None)"

text \<open>The two conversions of the pattern: up to 31 characters that are no colon, a colon, and, after
  white space, up to 31 characters that are no white space.\<close>

definition scan_filter :: "string \<Rightarrow> (string \<times> string) option" where
  "scan_filter str =
     Option.bind (scan_set 31 (\<lambda>c. c \<noteq> CHR '':'') str) (\<lambda>(tag_str, r1).
     Option.bind (scan_char (CHR '':'') r1) (\<lambda>r2.
     Option.bind (scan_set 31 (\<lambda>c. \<not> is_space c) (dropWhile is_space r2)) (\<lambda>(level_str, _).
       Some (tag_str, level_str))))"

text \<open>The filter, or None for the result -1.\<close>

definition parse_module_filter :: "string \<Rightarrow> module_filter_t option" where
  "parse_module_filter filter_str =
     Option.bind (scan_filter filter_str) (\<lambda>(tag_str, level_str).
     Option.bind (filter_tag tag_str) (\<lambda>t.
     Option.bind (filter_level level_str) (\<lambda>l.
       Some \<lparr>mf_tag_id = t, mf_min_level = l\<rparr>)))"

record tool_options =
  input_file :: "string option"
  output_file :: "string option"
  output_format :: output_format_t
  color_mode :: color_mode_t
  log_format :: log_format_t
  verbose :: bool
  filters :: "module_filter_t list"

definition default_options :: tool_options where
  "default_options = \<lparr>input_file = None, output_file = None, output_format = OUTPUT_FORMAT_TEXT,
     color_mode = COLOR_MODE_MINIMAL, log_format = FORMAT_SMART, verbose = False, filters = []\<rparr>"

definition file_argument :: "string \<Rightarrow> tool_options \<Rightarrow> tool_options" where
  "file_argument a opt =
     (if input_file opt = None then opt\<lparr>input_file := Some a\<rparr>
      else if output_file opt = None then opt\<lparr>output_file := Some a\<rparr>
      else opt)"

definition module_argument :: "string \<Rightarrow> tool_options \<Rightarrow> tool_options" where
  "module_argument a opt =
     (case parse_module_filter a of Some f \<Rightarrow> opt\<lparr>filters := filters opt @ [f]\<rparr> | None \<Rightarrow> opt)"

definition arg_is :: "string \<Rightarrow> string \<Rightarrow> string \<Rightarrow> bool" where
  "arg_is short long a \<longleftrightarrow> a = short \<or> a = long"

text \<open>The loop over the arguments; None when the help text ends the program.  An option whose value
  is missing, or the option \<open>-m\<close> when sixteen filters are set, takes no argument.\<close>

fun parse_arguments :: "string list \<Rightarrow> tool_options \<Rightarrow> tool_options option" where
  "parse_arguments [] opt = Some opt"
| "parse_arguments (a # as) opt =
     (if arg_is ''-h'' ''--help'' a then None
      else if arg_is ''-f'' ''--format'' a then
        (case as of b # bs \<Rightarrow> parse_arguments bs (opt\<lparr>output_format := parse_format b\<rparr>)
                  | [] \<Rightarrow> parse_arguments as opt)
      else if arg_is ''-c'' ''--color'' a then
        (case as of b # bs \<Rightarrow> parse_arguments bs (opt\<lparr>color_mode := parse_color_mode b\<rparr>)
                  | [] \<Rightarrow> parse_arguments as opt)
      else if arg_is ''-s'' ''--style'' a then
        (case as of b # bs \<Rightarrow> parse_arguments bs (opt\<lparr>log_format := parse_log_format b\<rparr>)
                  | [] \<Rightarrow> parse_arguments as opt)
      else if arg_is ''-m'' ''--module'' a then
        (if as \<noteq> [] \<and> length (filters opt) < 16
         then parse_arguments (tl as) (module_argument (hd as) opt)
         else parse_arguments as opt)
      else if arg_is ''-v'' ''--verbose'' a then parse_arguments as (opt\<lparr>verbose := True\<rparr>)
      else parse_arguments as (file_argument a opt))"

section \<open>The program\<close>

record tool_env =
  exe_dir :: "string option"
  contents :: "string \<Rightarrow> u8 list option"
  can_write :: "string \<Rightarrow> bool"
  db_malloc_ok :: bool

definition text_of :: "u8 list \<Rightarrow> string" where
  "text_of bs = map (\<lambda>b. char_of (unat b)) bs"

definition db_path :: "string \<Rightarrow> string \<Rightarrow> string" where
  "db_path tool_dir name = take (PATH_MAX - 1) (take (PATH_MAX - 1) tool_dir @ name)"

text \<open>Opening the output file for writing empties it before the input is read.\<close>

definition input_contents :: "tool_env \<Rightarrow> string \<Rightarrow> string \<Rightarrow> u8 list option" where
  "input_contents env inp out =
     (if inp = out \<and> can_write env out then map_option (\<lambda>_. []) (contents env inp) else contents env inp)"

definition process_files :: "tool_env \<Rightarrow> tool_options \<Rightarrow> string \<Rightarrow> string \<Rightarrow> parser_state \<Rightarrow>
  int \<times> string option \<times> parser_state" where
  "process_files env opt inp out s =
     (if filters opt \<noteq> [] \<or> color_mode opt \<noteq> COLOR_MODE_MINIMAL \<or> log_format opt \<noteq> FORMAT_SMART
      then log_parser_process_file_ex (input_contents env inp out) (can_write env out) (output_format opt)
             (color_mode opt) (log_format opt) (filters opt) s
      else log_parser_process_file (input_contents env inp out) (can_write env out) (output_format opt) s)"

definition main :: "tool_env \<Rightarrow> string list \<Rightarrow> parser_state \<Rightarrow> int \<times> string option \<times> parser_state" where
  "main env args s =
     (case get_tool_directory (exe_dir env) PATH_MAX of
        None \<Rightarrow> (1, None, s)
      | Some tool_dir \<Rightarrow>
          (case parse_arguments args default_options of
             None \<Rightarrow> (0, None, s)
           | Some opt \<Rightarrow>
               (case (input_file opt, output_file opt) of
                  (Some inp, Some out) \<Rightarrow>
                    let (r, s1) = log_parser_init (db_malloc_ok env)
                          (map_option text_of (contents env (db_path tool_dir ''/formats.db'')))
                          (map_option text_of (contents env (db_path tool_dir ''/tags.db''))) s
                    in if r \<noteq> 0 then (1, None, s1)
                       else let (r2, output, s2) = process_files env opt inp out s1
                            in (if r2 \<noteq> 0 then 1 else 0, output, s2)
                | _ \<Rightarrow> (1, None, s))))"

section \<open>Module filters\<close>

definition no_bar_word :: "string \<Rightarrow> bool" where
  "no_bar_word w \<longleftrightarrow> w \<noteq> [] \<and> length w \<le> 31 \<and> list_all (\<lambda>c. c \<noteq> CHR '':'' \<and> \<not> is_space c) w"

lemma scan_set_word:
  assumes "length w \<le> n" "w \<noteq> []" "list_all P w" "rest = [] \<or> \<not> P (hd rest)"
  shows "scan_set n P (w @ rest) = Some (w, rest)"
proof -
  have "takeWhile P (take n (w @ rest)) = w"
    using assms by (cases rest; cases "n - length w") (auto simp: list_all_iff takeWhile_append2)
  then show ?thesis using assms by (simp add: scan_set_def)
qed

lemma scan_filter_words:
  assumes "no_bar_word t" "no_bar_word l"
  shows "scan_filter (t @ CHR '':'' # l) = Some (t, l)"
proof -
  have t: "scan_set 31 (\<lambda>c. c \<noteq> CHR '':'') (t @ CHR '':'' # l) = Some (t, CHR '':'' # l)"
    using assms(1) by (intro scan_set_word) (auto simp: no_bar_word_def list_all_iff)
  have "dropWhile is_space l = l"
    using assms(2) by (cases l) (auto simp: no_bar_word_def)
  moreover have "scan_set 31 (\<lambda>c. \<not> is_space c) (l @ []) = Some (l, [])"
    using assms(2) by (intro scan_set_word) (auto simp: no_bar_word_def list_all_iff)
  ultimately show ?thesis by (simp add: scan_filter_def t scan_char_def)
qed

text \<open>A filter argument made of two words around a colon is accepted exactly when the first is one
  of the six module names and the second one of the four levels, and the filter then holds their
  numbers.  The arguments of the help text, \<open>CAN:INFO\<close> and \<open>UDS:ERROR\<close>, are rejected.
\<close>

theorem module_filter_spec:
  assumes "no_bar_word t" "no_bar_word l"
  shows "(parse_module_filter (t @ CHR '':'' # l) =
      (case (filter_tag t, filter_level l) of
         (Some i, Some k) \<Rightarrow> Some \<lparr>mf_tag_id = i, mf_min_level = k\<rparr> | _ \<Rightarrow> None)) \<and>
    (parse_module_filter (t @ CHR '':'' # l) \<noteq> None \<longleftrightarrow>
      t \<in> {''SYSTEM'', ''KERNEL'', ''DRIVER_CAN'', ''SERVICE_AI'', ''SERVICE_DIAG'', ''APPLICATION''} \<and>
      l \<in> {''DEBUG'', ''INFO'', ''ERROR'', ''EMERGENCY''}) \<and>
    parse_module_filter ''CAN:INFO'' = None \<and> parse_module_filter ''UDS:ERROR'' = None"
proof (intro conjI)
  show eq: "parse_module_filter (t @ CHR '':'' # l) =
      (case (filter_tag t, filter_level l) of
         (Some i, Some k) \<Rightarrow> Some \<lparr>mf_tag_id = i, mf_min_level = k\<rparr> | _ \<Rightarrow> None)"
    by (simp add: parse_module_filter_def scan_filter_words [OF assms] split: option.splits)
  have "filter_tag t \<noteq> None \<longleftrightarrow>
      t \<in> {''SYSTEM'', ''KERNEL'', ''DRIVER_CAN'', ''SERVICE_AI'', ''SERVICE_DIAG'', ''APPLICATION''}"
    by (simp add: filter_tag_def)
  moreover have "filter_level l \<noteq> None \<longleftrightarrow> l \<in> {''DEBUG'', ''INFO'', ''ERROR'', ''EMERGENCY''}"
    by (simp add: filter_level_def)
  ultimately show "parse_module_filter (t @ CHR '':'' # l) \<noteq> None \<longleftrightarrow>
      t \<in> {''SYSTEM'', ''KERNEL'', ''DRIVER_CAN'', ''SERVICE_AI'', ''SERVICE_DIAG'', ''APPLICATION''} \<and>
      l \<in> {''DEBUG'', ''INFO'', ''ERROR'', ''EMERGENCY''}"
    unfolding eq by (auto split: option.splits)
  show "parse_module_filter ''CAN:INFO'' = None" by code_simp
  show "parse_module_filter ''UDS:ERROR'' = None" by code_simp
qed

lemma module_filter_spec_witness:
  "parse_module_filter ''KERNEL:ERROR'' = Some \<lparr>mf_tag_id = LOG_TAG_KERNEL, mf_min_level = LOG_LEVEL_ERROR\<rparr>"
  using module_filter_spec [of "''KERNEL''" "''ERROR''"]
  by (simp add: no_bar_word_def is_space_def filter_tag_def filter_level_def)

section \<open>Runs of the tool\<close>

text \<open>The seventeenth module filter is not skipped with its option: when sixteen filters are set,
  the text after another \<open>-m\<close> is read as an argument of its own, and when no input file was named
  yet it becomes the input file.
\<close>

theorem seventeenth_filter_is_a_file:
  assumes "length (filters opt) = 16" "input_file opt = None"
  shows "parse_arguments [''-m'', ''KERNEL:INFO'', inp] opt =
      parse_arguments [inp] (opt\<lparr>input_file := Some ''KERNEL:INFO''\<rparr>)"
  using assms by (simp add: arg_is_def file_argument_def)

lemma seventeenth_filter_is_a_file_witness:
  "parse_arguments [''-m'', ''KERNEL:INFO'', ''log.bin'']
     (default_options\<lparr>filters := replicate 16 \<lparr>mf_tag_id = 1, mf_min_level = 2\<rparr>\<rparr>) =
   parse_arguments [''log.bin'']
     (default_options\<lparr>filters := replicate 16 \<lparr>mf_tag_id = 1, mf_min_level = 2\<rparr>, input_file := Some ''KERNEL:INFO''\<rparr>)"
  using seventeenth_filter_is_a_file
    [of "default_options\<lparr>filters := replicate 16 \<lparr>mf_tag_id = 1, mf_min_level = 2\<rparr>\<rparr>" "''log.bin''"]
  by (simp add: default_options_def)

definition is_option :: "string \<Rightarrow> bool" where
  "is_option a \<longleftrightarrow> a \<in> {''-h'', ''--help'', ''-f'', ''--format'', ''-c'', ''--color'', ''-s'', ''--style'',
     ''-m'', ''--module'', ''-v'', ''--verbose''}"

lemma two_files:
  assumes "\<not> is_option inp" "\<not> is_option out"
  shows "parse_arguments [inp, out] default_options =
    Some (default_options\<lparr>input_file := Some inp, output_file := Some out\<rparr>)"
  using assms by (simp add: is_option_def arg_is_def file_argument_def default_options_def)

lemma parser_init_boot:
  assumes "load_format_database ok f = Some formats" "load_tag_database ok t = Some tags"
  shows "log_parser_init ok f t parser_boot = (0, parser_boot\<lparr>g_format_db := formats, g_tag_db := tags\<rparr>)"
  using assms by (simp add: log_parser_init_def parser_boot_def Let_def)

text \<open>The tool on a log file of the logger: called with the names of an input file, which holds
  entries that \<open>log_create_entry\<close> made and perhaps a last one that was cut short, and of another
  file that can be written, and with both databases beside it, it exits with 0, has written the plain line of every entry in order, and
  reports all entries as valid, none corrupted and none unknown.
\<close>

theorem tool_converts_logger_file:
  assumes dir: "exe_dir env = Some dir" "length dir < PATH_MAX"
    and names: "\<not> is_option inp" "\<not> is_option out" "inp \<noteq> out"
    and files: "contents env inp = Some (concat (map entry_bytes es) @ rest)" "can_write env out"
    and dbs: "load_format_database (db_malloc_ok env)
        (map_option text_of (contents env (db_path dir ''/formats.db''))) = Some formats"
      "load_tag_database (db_malloc_ok env)
        (map_option text_of (contents env (db_path dir ''/tags.db''))) = Some tags"
    and made: "\<And>e. e \<in> set es \<Longrightarrow> \<exists>env l t m a b err. log_create_entry env True l t m a b = (err, Some e)"
    and len: "length es < 2 ^ 32" "length rest < 20"
  shows "case main env [inp, out] parser_boot of (code, output, s') \<Rightarrow>
    code = 0 \<and> output = rendered (format_plain (parser_boot\<lparr>g_format_db := formats, g_tag_db := tags\<rparr>)) es \<and>
    unat (total_entries_parsed (log_parser_get_stats s')) = length es \<and>
    unat (valid_entries (log_parser_get_stats s')) = length es \<and>
    corrupted_entries (log_parser_get_stats s') = 0 \<and> unknown_messages (log_parser_get_stats s') = 0"
proof -
  have main: "main env [inp, out] parser_boot =
      (case log_parser_process_file (Some (concat (map entry_bytes es) @ rest)) True OUTPUT_FORMAT_TEXT
          (parser_boot\<lparr>g_format_db := formats, g_tag_db := tags\<rparr>) of
         (r, output, s') \<Rightarrow> (if r \<noteq> 0 then 1 else 0, output, s'))"
    using dir names(3) files
    by (simp add: main_def get_tool_directory_def two_files [OF names(1,2)] parser_init_boot [OF dbs]
        process_files_def input_contents_def del: parse_arguments.simps)
       (simp add: default_options_def)
  show ?thesis
    using logger_files_are_valid [where formats = formats and tags = tags, OF made len]
    unfolding main by (simp add: log_parser_get_stats_def case_prod_unfold)
qed

definition ascii :: "string \<Rightarrow> u8 list" where
  "ascii str = map (\<lambda>c. word_of_nat (of_char c)) str"

definition example_env :: tool_env where
  "example_env = \<lparr>exe_dir = Some ''/opt'',
     contents = (\<lambda>p. if p = ''a.bin'' then Some (entry_bytes (new_entry 0 0 1 4 2 7 8))
                     else if p = ''/opt/formats.db'' then Some (ascii ''2|Service %u ready|d|0'')
                     else if p = ''/opt/tags.db'' then Some (ascii ''4|SERVICE_AI'') else None),
     can_write = (\<lambda>p. p = ''a.txt''), db_malloc_ok = True\<rparr>"

lemma tool_converts_logger_file_witness:
  "fst (main example_env [''a.bin'', ''a.txt''] parser_boot) = 0"
proof -
  have made: "\<exists>env l t m a b err. log_create_entry env True l t m a b = (err, Some e)"
    if "e \<in> set [new_entry 0 0 1 4 2 7 8]" for e
  proof -
    have "log_create_entry mock_env True 1 4 2 7 8 = (log_ok, Some e)"
      using that by (simp add: log_create_entry_def log_safety_checks_def LOG_LEVEL_COUNT_def LOG_TAG_COUNT_def
        LOG_MSG_COUNT_def mock_env_def mock_sys_getpid_def mock_time_get_us_def)
    then show ?thesis by blast
  qed
  have formats: "load_format_database (db_malloc_ok example_env)
        (map_option text_of (contents example_env (db_path ''/opt'' ''/formats.db''))) =
      Some [\<lparr>fe_message_id = 2, fe_format_string = ''Service %u ready'', fe_description = ''d'', fe_message_type = 0\<rparr>]"
    by code_simp
  have tags: "load_tag_database (db_malloc_ok example_env)
        (map_option text_of (contents example_env (db_path ''/opt'' ''/tags.db''))) =
      Some [\<lparr>te_tag_id = 4, te_tag_name = ''SERVICE_AI''\<rparr>]"
    by code_simp
  have "case main example_env [''a.bin'', ''a.txt''] parser_boot of (code, output, s') \<Rightarrow> code = 0"
    using tool_converts_logger_file [of example_env "''/opt''" "''a.bin''" "''a.txt''" "[new_entry 0 0 1 4 2 7 8]" "[]",
        OF _ _ _ _ _ _ _ formats tags made]
    by (simp add: example_env_def PATH_MAX_def is_option_def case_prod_unfold)
  then show ?thesis by (simp add: case_prod_unfold)
qed

section \<open>The tag database\<close>

definition tags_db :: string where
  "tags_db =
     ''# AutoMLOS Tag Name Database'' @ [newline] @ ''# Format: tag_id|tag_name'' @ [newline] @ [newline] @
     ''0|SYSTEM'' @ [newline] @ ''1|KERNEL  '' @ [newline] @ ''2|DRIVER_CAMERA'' @ [newline] @
     ''3|DRIVER_CAN'' @ [newline] @ ''4|SERVICE_AI'' @ [newline] @ ''5|SERVICE_DIAG'' @ [newline] @
     ''6|SERVICE_LOGGER'' @ [newline] @ ''7|APPLICATION''"

text \<open>The tag database that comes with the tool gives the wrong names from tag 2 on: it has no line
  for the interrupt tag, so interrupt entries are shown as \<open>DRIVER_CAMERA\<close>, each later tag has
  the name of its successor, and the application tag has none.
\<close>

theorem shipped_tag_names:
  "map (log_parser_get_tag_name (snd (log_parser_init True (Some ''0|f|d|0'') (Some tags_db) parser_boot)))
     [LOG_TAG_SYSTEM, LOG_TAG_KERNEL, LOG_TAG_INTERRUPT, LOG_TAG_DRIVER_CAMERA, LOG_TAG_DRIVER_CAN,
      LOG_TAG_SERVICE_AI, LOG_TAG_SERVICE_DIAG, LOG_TAG_SERVICE_LOGGER, LOG_TAG_APPLICATION] =
   [''SYSTEM'', ''KERNEL  '', ''DRIVER_CAMERA'', ''DRIVER_CAN'', ''SERVICE_AI'', ''SERVICE_DIAG'',
    ''SERVICE_LOGGER'', ''APPLICATION'', ''UNKNOWN'']"
  by code_simp

end
