(* ===== verification/Kernel_Boot.thy ===== *)
theory Kernel_Boot
  imports Kernel_Ipc Kernel_Scheduler Kernel_Time Kernel_Interrupt Kernel_Watchdog Kernel_Syscall
    System_Monitor Log_Client
begin

text \<open>
  The start of the kernel and its main loop: kernel/core/kernel.h and kernel.c.  The state is the
  phase together with the states of the parts that are started; the log calls of the parts go
  through the log client, and what it publishes is kept in order.  The parameters hold the answers
  of code outside the repository.  A result of None is a call that is still running when the fuel,
  which bounds the readings of the clock, is used up.
\<close>

section \<open>State\<close>

datatype startup_phase_t =
    STARTUP_PHASE_PURE_HARDWARE
  | STARTUP_PHASE_HARDWARE
  | STARTUP_PHASE_KERNEL_CORE
  | STARTUP_PHASE_SAFETY_MONITOR
  | STARTUP_PHASE_SYSTEM_SERVICES
  | STARTUP_PHASE_APPLICATION
  | STARTUP_PHASE_COMPLETE

fun phase_number :: "startup_phase_t \<Rightarrow> nat" where
  "phase_number STARTUP_PHASE_PURE_HARDWARE = 0"
| "phase_number STARTUP_PHASE_HARDWARE = 1"
| "phase_number STARTUP_PHASE_KERNEL_CORE = 2"
| "phase_number STARTUP_PHASE_SAFETY_MONITOR = 3"
| "phase_number STARTUP_PHASE_SYSTEM_SERVICES = 4"
| "phase_number STARTUP_PHASE_APPLICATION = 5"
| "phase_number STARTUP_PHASE_COMPLETE = 6"

lemma phase_number_inj: "phase_number p = phase_number q \<longleftrightarrow> p = q"
  by (cases p; cases q) simp_all

instantiation startup_phase_t :: linorder
begin

definition less_eq_startup_phase_t :: "startup_phase_t \<Rightarrow> startup_phase_t \<Rightarrow> bool" where
  "less_eq_startup_phase_t p q \<longleftrightarrow> phase_number p \<le> phase_number q"

definition less_startup_phase_t :: "startup_phase_t \<Rightarrow> startup_phase_t \<Rightarrow> bool" where
  "less_startup_phase_t p q \<longleftrightarrow> phase_number p < phase_number q"

instance
  by standard (auto simp: less_eq_startup_phase_t_def less_startup_phase_t_def phase_number_inj)

end

lemmas phase_order = less_eq_startup_phase_t_def less_startup_phase_t_def

record kernel =
  k_phase :: startup_phase_t
  k_time :: kernel_time
  k_interrupts :: interrupt_controller
  k_log :: log_client
  k_published :: "u8 list list"
  k_ipc :: kernel_ipc
  k_monitor :: system_monitor
  k_syscalls :: syscall_table
  k_scheduler :: scheduler_state
  k_watchdog :: kernel_watchdog

text \<open>The static variables at power-on; the scheduler's table is zeroed storage.\<close>

definition scheduler_boot :: scheduler_state where
  "scheduler_boot = (snd (scheduler_init 0))\<lparr>rt_initialized := False\<rparr>"

definition kernel_boot :: kernel where
  "kernel_boot =
     \<lparr>k_phase = STARTUP_PHASE_PURE_HARDWARE, k_time = kernel_time_boot, k_interrupts = zero_controller,
      k_log = log_client_boot, k_published = [], k_ipc = ipc_boot memory_boot,
      k_monitor = system_monitor_boot, k_syscalls = g_syscall_table, k_scheduler = scheduler_boot,
      k_watchdog = kernel_watchdog_boot\<rparr>"

record boot_params =
  bp_self_test :: system_error
  bp_malloc_ok :: bool
  bp_verify :: "log_entry_binary_t \<Rightarrow> system_error"
  bp_env :: log_env
  bp_codes :: monitor_codes
  bp_ports :: "(system_error \<times> nat) \<times> (system_error \<times> nat)"
  bp_monitor_start :: "system_monitor \<Rightarrow> system_error \<times> system_monitor"
  bp_register_topic :: system_error

type_synonym boot_result = "(system_error \<times> kernel) option"

definition MODULE_ID_KERNEL :: u16 where "MODULE_ID_KERNEL = 0x10"

definition kernel_ok :: system_error where
  "kernel_ok = system_error_create ERR_BASE_OK ERROR_CATEGORY_SYSTEM ERROR_SEVERITY_LOW MODULE_ID_KERNEL"

text \<open>The pattern of every call: an error ends the caller.\<close>

definition if_ok :: "boot_result \<Rightarrow> (kernel \<Rightarrow> boot_result) \<Rightarrow> boot_result" where
  "if_ok r f = (case r of None \<Rightarrow> None
                | Some (error, k) \<Rightarrow> if error_code error \<noteq> ERR_BASE_OK then Some (error, k) else f k)"

section \<open>Logging\<close>

definition send_log :: "boot_params \<Rightarrow> log_call \<Rightarrow> kernel \<Rightarrow> system_error \<times> kernel" where
  "send_log p c k =
     (case log_client_send_entry (bp_verify p) (bp_env p) (lc_level c) (lc_tag c) (lc_msg c)
             (lc_data1 c) (lc_data2 c) (k_log k) of
        (error, l, payloads) \<Rightarrow> (error, k\<lparr>k_log := l, k_published := k_published k @ payloads\<rparr>))"

fun send_logs :: "boot_params \<Rightarrow> log_call list \<Rightarrow> kernel \<Rightarrow> kernel" where
  "send_logs p [] k = k"
| "send_logs p (c # cs) k = send_logs p cs (snd (send_log p c k))"

definition kernel_log_phase_transition :: "boot_params \<Rightarrow> startup_phase_t \<Rightarrow> kernel \<Rightarrow> system_error \<times> kernel" where
  "kernel_log_phase_transition p phase k =
     send_log p (mk_log_call LOG_LEVEL_INFO LOG_TAG_KERNEL LOG_MSG_STARTUP_PHASE (word_of_nat (phase_number phase))
                   (word_of_nat (phase_number (k_phase k)))) k"

text \<open>The last two statements of each phase.\<close>

definition enter_phase :: "boot_params \<Rightarrow> startup_phase_t \<Rightarrow> kernel \<Rightarrow> boot_result" where
  "enter_phase p phase k =
     (let k1 = k\<lparr>k_phase := phase\<rparr> in Some (kernel_log_phase_transition p (k_phase k1) k1))"

section \<open>The phases\<close>

definition kernel_init_pure_hardware :: "nat \<Rightarrow> boot_params \<Rightarrow> kernel \<Rightarrow> boot_result" where
  "kernel_init_pure_hardware fuel p k =
     if_ok (case kernel_time_init fuel (bp_self_test p) (k_time k) of
              None \<Rightarrow> None
            | Some (error, t, logs) \<Rightarrow> Some (error, send_logs p logs (k\<lparr>k_time := t\<rparr>)))
       (\<lambda>k1. if_ok (case interrupt_controller_init (k_interrupts k1) of
                      (error, ic, logs) \<Rightarrow> Some (error, send_logs p logs (k1\<lparr>k_interrupts := ic\<rparr>)))
         (\<lambda>k2. Some (kernel_ok, k2\<lparr>k_phase := STARTUP_PHASE_PURE_HARDWARE\<rparr>)))"

definition kernel_init_early_logging :: "boot_params \<Rightarrow> kernel \<Rightarrow> boot_result" where
  "kernel_init_early_logging p k =
     if_ok (case log_client_init (bp_malloc_ok p) (k_log k) of
              (error, l, payloads) \<Rightarrow> Some (error, k\<lparr>k_log := l, k_published := k_published k @ payloads\<rparr>))
       (enter_phase p STARTUP_PHASE_HARDWARE)"

definition kernel_init_core_services :: "boot_params \<Rightarrow> kernel \<Rightarrow> boot_result" where
  "kernel_init_core_services p k =
     if_ok (case memory_init (ki_memory (k_ipc k)) of
              (error, m) \<Rightarrow> Some (error, k\<lparr>k_ipc := (k_ipc k)\<lparr>ki_memory := m\<rparr>\<rparr>))
       (\<lambda>k1. if_ok (case ipc_kernel_init (k_ipc k1) of (error, i) \<Rightarrow> Some (error, k1\<lparr>k_ipc := i\<rparr>))
         (enter_phase p STARTUP_PHASE_KERNEL_CORE))"

definition kernel_init_safety_monitor :: "boot_params \<Rightarrow> kernel \<Rightarrow> boot_result" where
  "kernel_init_safety_monitor p k =
     if_ok (case system_monitor_service_init (bp_codes p) (fst (bp_ports p)) (snd (bp_ports p)) (k_monitor k) of
              (error, m, _) \<Rightarrow> Some (error, k\<lparr>k_monitor := m\<rparr>))
       (\<lambda>k1. if_ok (case bp_monitor_start p (k_monitor k1) of (error, m) \<Rightarrow> Some (error, k1\<lparr>k_monitor := m\<rparr>))
         (enter_phase p STARTUP_PHASE_SAFETY_MONITOR))"

definition watch :: "boot_params \<Rightarrow> kernel_watchdog_level_t \<Rightarrow> u32 \<Rightarrow> string \<Rightarrow> kernel \<Rightarrow> kernel" where
  "watch p level timeout_ms component_name k =
     (case kernel_watchdog_register level timeout_ms component_name (k_watchdog k) of
        (_, w, logs) \<Rightarrow> send_logs p logs (k\<lparr>k_watchdog := w\<rparr>))"

definition kernel_init_system_services :: "nat \<Rightarrow> boot_params \<Rightarrow> kernel \<Rightarrow> boot_result" where
  "kernel_init_system_services fuel p k =
     if_ok (case syscall_init (k_syscalls k) of (error, table) \<Rightarrow> Some (error, k\<lparr>k_syscalls := table\<rparr>))
       (\<lambda>k1. if_ok (case Kernel_Time.kernel_time_get_uptime_us fuel (k_time k1) of
                      None \<Rightarrow> None
                    | Some (now, t, logs) \<Rightarrow>
                        (case scheduler_init now of
                           (error, s) \<Rightarrow> Some (error, send_logs p logs (k1\<lparr>k_time := t, k_scheduler := s\<rparr>))))
         (\<lambda>k2. if_ok (case kernel_watchdog_init (bp_register_topic p) (k_watchdog k2) of
                        (error, w) \<Rightarrow> Some (error, k2\<lparr>k_watchdog := w\<rparr>))
           (\<lambda>k3. enter_phase p STARTUP_PHASE_SYSTEM_SERVICES
                   (watch p KERNEL_WATCHDOG_LEVEL_IPC 1500 ''ipc_subsystem''
                     (watch p KERNEL_WATCHDOG_LEVEL_MEMORY 2000 ''memory_manager''
                       (watch p KERNEL_WATCHDOG_LEVEL_SCHEDULER 1000 ''scheduler'' k3))))))"

definition kernel_init :: "nat \<Rightarrow> boot_params \<Rightarrow> kernel \<Rightarrow> boot_result" where
  "kernel_init fuel p k =
     if_ok (kernel_init_pure_hardware fuel p k) (\<lambda>k1.
     if_ok (kernel_init_early_logging p k1) (\<lambda>k2.
     if_ok (kernel_init_core_services p k2) (\<lambda>k3.
     if_ok (kernel_init_safety_monitor p k3) (\<lambda>k4.
     if_ok (kernel_init_system_services fuel p k4) (\<lambda>k5.
       let k6 = k5\<lparr>k_phase := STARTUP_PHASE_COMPLETE\<rparr>
       in Some (kernel_ok, snd (kernel_log_phase_transition p (k_phase k6) k6)))))))"

section \<open>The main loop\<close>

text \<open>What the loop does to the outside; \<open>kernel_watchdog_pet\<close> and \<open>kernel_log_watchdog_pet\<close> are
  declared and defined nowhere.\<close>

datatype main_event =
    Pet kernel_watchdog_level_t
  | Log_pet kernel_watchdog_level_t
  | Clock_log log_call
  | Scheduler_refused
  | Scheduler_runs "sched_event list"

definition pet_all :: "main_event list" where
  "pet_all = [Pet KERNEL_WATCHDOG_LEVEL_SCHEDULER, Log_pet KERNEL_WATCHDOG_LEVEL_SCHEDULER,
              Pet KERNEL_WATCHDOG_LEVEL_MEMORY, Log_pet KERNEL_WATCHDOG_LEVEL_MEMORY,
              Pet KERNEL_WATCHDOG_LEVEL_IPC, Log_pet KERNEL_WATCHDOG_LEVEL_IPC]"

text \<open>\<open>n\<close> bounds the rounds of this loop and of the scheduler's.  \<open>scheduler_start\<close> comes back
  only when it finds the scheduler not initialised, and the loop continues only then.\<close>

fun main_loop :: "nat \<Rightarrow> nat \<Rightarrow> nat \<Rightarrow> scheduler_state \<Rightarrow> u64 \<Rightarrow> kernel_time \<Rightarrow> main_event list" where
  "main_loop fuel rounds 0 s last_watchdog_pet tm = []"
| "main_loop fuel rounds (Suc n) s last_watchdog_pet tm =
     (case Kernel_Time.kernel_time_get_uptime_us fuel tm of
        None \<Rightarrow> []
      | Some (current_time, tm1, logs) \<Rightarrow>
          let due = 500000 \<le> current_time - last_watchdog_pet;
              pets = (if due then pet_all else []);
              last' = (if due then current_time else last_watchdog_pet)
          in map Clock_log logs @ pets @
             (case scheduler_start fuel rounds (Suc n) s tm1 of
                Inl _ \<Rightarrow> Scheduler_refused # main_loop fuel rounds n s last' tm1
              | Inr events \<Rightarrow> [Scheduler_runs events]))"

definition kernel_main :: "nat \<Rightarrow> nat \<Rightarrow> nat \<Rightarrow> scheduler_state \<Rightarrow> kernel_time \<Rightarrow> main_event list" where
  "kernel_main fuel rounds n s tm =
     (case Kernel_Time.kernel_time_get_uptime_us fuel tm of
        None \<Rightarrow> []
      | Some (last_watchdog_pet, tm1, logs) \<Rightarrow>
          map Clock_log logs @ main_loop fuel rounds n s last_watchdog_pet tm1)"

definition kernel_shutdown :: "kernel \<Rightarrow> kernel" where "kernel_shutdown k = k"

section \<open>Logging during the start\<close>

lemma send_log_fields [simp]:
  "k_phase (snd (send_log p c k)) = k_phase k" "k_time (snd (send_log p c k)) = k_time k"
  "k_interrupts (snd (send_log p c k)) = k_interrupts k" "k_ipc (snd (send_log p c k)) = k_ipc k"
  "k_monitor (snd (send_log p c k)) = k_monitor k" "k_syscalls (snd (send_log p c k)) = k_syscalls k"
  "k_scheduler (snd (send_log p c k)) = k_scheduler k" "k_watchdog (snd (send_log p c k)) = k_watchdog k"
  by (simp_all add: send_log_def case_prod_unfold)

lemma send_logs_fields [simp]:
  "k_phase (send_logs p cs k) = k_phase k" "k_time (send_logs p cs k) = k_time k"
  "k_interrupts (send_logs p cs k) = k_interrupts k" "k_ipc (send_logs p cs k) = k_ipc k"
  "k_monitor (send_logs p cs k) = k_monitor k" "k_syscalls (send_logs p cs k) = k_syscalls k"
  "k_scheduler (send_logs p cs k) = k_scheduler k" "k_watchdog (send_logs p cs k) = k_watchdog k"
  by (induction cs arbitrary: k) simp_all

lemma if_ok_simps [simp]:
  "if_ok None f = None"
  "if_ok (Some (e, k)) f = (if error_code e \<noteq> ERR_BASE_OK then Some (e, k) else f k)"
  by (simp_all add: if_ok_def)

lemma kernel_ok_code [simp]: "error_code kernel_ok = ERR_BASE_OK"
  by (simp add: kernel_ok_def)

section \<open>The start never succeeds\<close>

lemma alloc_loop_too_large:
  assumes "\<And>k. k \<in> set ks \<Longrightarrow> mp_block_size (g_memory_pools m ! k) < sz"
  shows "alloc_loop ks sz m = (None, m)"
  using assms
proof (induction ks)
  case (Cons k ks)
  then have "\<not> sz \<le> mp_block_size (g_memory_pools m ! k)" by (simp add: not_le)
  with Cons show ?case by simp
qed simp

lemma init_pools_sizes:
  assumes "error_code (fst (init_pools specs m)) = ERR_BASE_OK"
  shows "map mp_block_size (g_memory_pools (snd (init_pools specs m))) =
    foldl (\<lambda>bs (k, sz, n). bs[k := sz]) (map mp_block_size (g_memory_pools m)) specs"
  using assms
proof (induction specs arbitrary: m)
  case (Cons spec specs)
  obtain k sz n where spec: "spec = (k, sz, n)" by (cases spec)
  obtain err m' where pool: "memory_pool_init k sz n m = (err, m')" by (cases "memory_pool_init k sz n m")
  have err: "error_code err = ERR_BASE_OK" and
    rest: "error_code (fst (init_pools specs m')) = ERR_BASE_OK" and
    run: "init_pools (spec # specs) m = init_pools specs m'"
    using Cons.prems by (auto simp: spec pool split: if_splits)
  have "map mp_block_size (g_memory_pools m') = (map mp_block_size (g_memory_pools m))[k := sz]"
    using pool err by (auto simp: memory_pool_init_def Let_def map_update ERR_MOD_MEM_OUT_OF_MEMORY_def MODULE_ERR_CODE_def split: if_splits)
  then show ?case using Cons.IH [OF rest] by (simp add: run) (simp add: spec)
qed simp

lemma memory_init_sizes:
  assumes "error_code (fst (memory_init m)) = ERR_BASE_OK" and "length (g_memory_pools m) = 8"
  shows "map mp_block_size (g_memory_pools (snd (memory_init m))) = [32, 64, 128, 256, 512, 1024, 2048, 4096]"
proof -
  obtain a b c d e f g h where m: "map mp_block_size (g_memory_pools m) = [a, b, c, d, e, f, g, h]"
    using assms(2) by (auto simp: length_Suc_conv numeral_eq_Suc)
  show ?thesis
    using init_pools_sizes [OF assms(1) [unfolded memory_init_def]] unfolding memory_init_def m by simp
qed

text \<open>After a successful \<open>memory_init\<close>, the request for the shared buffer is refused.\<close>

lemma shared_buffer_refused:
  assumes "error_code (fst (memory_init m)) = ERR_BASE_OK" and "length (g_memory_pools m) = 8"
  shows "memory_alloc 65536 (snd (memory_init m)) = (None, snd (memory_init m))"
proof -
  let ?m = "snd (memory_init m)"
  have len: "length (g_memory_pools ?m) = 8"
    using arg_cong [OF memory_init_sizes [OF assms], of length] by simp
  have "mp_block_size (g_memory_pools ?m ! k) < 65536" if "k \<in> set [0..<8]" for k
  proof -
    have "mp_block_size (g_memory_pools ?m ! k) = map mp_block_size (g_memory_pools ?m) ! k"
      using that len by simp
    then show ?thesis using that less_8_cases [of k] by (auto simp: memory_init_sizes [OF assms])
  qed
  then have "alloc_loop [0..<8] 65536 ?m = (None, ?m)" by (rule alloc_loop_too_large)
  then show ?thesis by (simp add: memory_alloc_def)
qed

lemma ipc_init_error:
  assumes "memory_alloc 65536 (ki_memory i) = (None, ki_memory i)"
  shows "error_code (fst (ipc_kernel_init i)) \<noteq> ERR_BASE_OK"
  using assms by (simp add: ipc_kernel_init_def memory_alloc_shared_def IPC_SHARED_BUFFER_SIZE_def Let_def)

lemma core_services_fail:
  assumes "length (g_memory_pools (ki_memory (k_ipc k))) = 8"
  shows "\<exists>error k'. kernel_init_core_services p k = Some (error, k') \<and> error_code error \<noteq> ERR_BASE_OK \<and>
    k_phase k' = k_phase k"
proof -
  obtain error m where init: "memory_init (ki_memory (k_ipc k)) = (error, m)"
    by (cases "memory_init (ki_memory (k_ipc k))")
  show ?thesis
  proof (cases "error_code error = ERR_BASE_OK")
    case False
    then show ?thesis by (simp add: kernel_init_core_services_def init)
  next
    case True
    let ?i = "(k_ipc k)\<lparr>ki_memory := m\<rparr>"
    have "memory_alloc 65536 (ki_memory ?i) = (None, ki_memory ?i)"
      using shared_buffer_refused [of "ki_memory (k_ipc k)"] True assms init by simp
    then have "error_code (fst (ipc_kernel_init ?i)) \<noteq> ERR_BASE_OK" by (rule ipc_init_error)
    then show ?thesis by (simp add: kernel_init_core_services_def init True case_prod_unfold)
  qed
qed

lemma early_logging_outcome:
  "\<exists>error k'. kernel_init_early_logging p k = Some (error, k') \<and> k_ipc k' = k_ipc k \<and>
    k_phase k' \<in> {k_phase k, STARTUP_PHASE_HARDWARE} \<and>
    (error_code error = ERR_BASE_OK \<longrightarrow> k_phase k' = STARTUP_PHASE_HARDWARE)"
proof -
  obtain error l out where init: "log_client_init (bp_malloc_ok p) (k_log k) = (error, l, out)"
    by (cases "log_client_init (bp_malloc_ok p) (k_log k)")
  let ?k = "k\<lparr>k_log := l, k_published := k_published k @ out, k_phase := STARTUP_PHASE_HARDWARE\<rparr>"
  let ?c = "mk_log_call 2 1 17 1 1"
  show ?thesis
  proof (cases "error_code error = ERR_BASE_OK")
    case False
    then show ?thesis by (simp add: kernel_init_early_logging_def init)
  next
    case True
    then have "kernel_init_early_logging p k = Some (send_log p ?c ?k)"
      by (simp add: kernel_init_early_logging_def init enter_phase_def kernel_log_phase_transition_def)
    then show ?thesis using send_log_fields(1,4) [of p ?c ?k] by (cases "send_log p ?c ?k") simp
  qed
qed

lemma pure_hardware_outcome:
  assumes "kernel_init_pure_hardware fuel p k = Some (error, k')"
  shows "k_ipc k' = k_ipc k \<and> k_phase k' \<in> {k_phase k, STARTUP_PHASE_PURE_HARDWARE}"
  using assms
  by (auto simp: kernel_init_pure_hardware_def if_ok_def case_prod_unfold split: option.splits if_splits)

text \<open>The condition under which the hardware phase hangs: the sources are set up anew, and the
  clock is then read from an initialised source.\<close>

definition clock_hangs :: "boot_params \<Rightarrow> kernel \<Rightarrow> bool" where
  "clock_hangs p k \<longleftrightarrow>
     \<not> source_initialized (k_time k) TIME_SOURCE_PRIMARY \<and>
     (case init_sources (bp_self_test p) (k_time k) of (t, logs) \<Rightarrow> source_initialized t (active_source t))"

lemma pure_hardware_time:
  "if clock_hangs p k then \<forall>n. kernel_init_pure_hardware n p k = None
   else \<exists>r. \<forall>n. kernel_init_pure_hardware (Suc n) p k = Some r"
proof -
  obtain t logs where t: "init_sources (bp_self_test p) (k_time k) = (t, logs)"
    by (cases "init_sources (bp_self_test p) (k_time k)")
  show ?thesis
  proof (cases "clock_hangs p k")
    case True
    then have "kernel_time_init n (bp_self_test p) (k_time k) = None" for n
      using tick_count_open [of t n] by (simp add: clock_hangs_def kernel_time_init_def t)
    then show ?thesis using True by (simp add: kernel_init_pure_hardware_def)
  next
    case False
    then obtain r where "\<And>n. kernel_time_init (Suc n) (bp_self_test p) (k_time k) = Some r"
      by (cases "source_initialized (k_time k) TIME_SOURCE_PRIMARY")
         (auto simp: clock_hangs_def kernel_time_init_def t)
    then show ?thesis using False by (auto simp: kernel_init_pure_hardware_def if_ok_def split: prod.splits)
  qed
qed

text \<open>What follows the hardware phase always ends with an error, before the services are started.\<close>

lemma after_hardware_fails:
  assumes "length (g_memory_pools (ki_memory (k_ipc k1))) = 8"
  shows "\<exists>e k'. (\<forall>f. if_ok (kernel_init_early_logging p k1) (\<lambda>k2. if_ok (kernel_init_core_services p k2) f) =
      Some (e, k')) \<and> error_code e \<noteq> ERR_BASE_OK \<and> k_phase k' \<in> {k_phase k1, STARTUP_PHASE_HARDWARE}"
proof -
  obtain e2 k2 where log: "kernel_init_early_logging p k1 = Some (e2, k2)" "k_ipc k2 = k_ipc k1"
    "k_phase k2 \<in> {k_phase k1, STARTUP_PHASE_HARDWARE}"
    using early_logging_outcome [of p k1] by auto
  obtain e3 k3 where core: "kernel_init_core_services p k2 = Some (e3, k3)" "error_code e3 \<noteq> ERR_BASE_OK"
    "k_phase k3 = k_phase k2"
    using core_services_fail [of k2 p] assms log(2) by auto
  show ?thesis using log core by (cases "error_code e2 = ERR_BASE_OK") auto
qed

lemma kernel_init_outcome:
  assumes pools: "length (g_memory_pools (ki_memory (k_ipc k))) = 8"
  shows "if clock_hangs p k then \<forall>n. kernel_init n p k = None
    else \<exists>error k'. (\<forall>n. kernel_init (Suc n) p k = Some (error, k')) \<and> error_code error \<noteq> ERR_BASE_OK \<and>
      (k_phase k' = k_phase k \<or> k_phase k' \<le> STARTUP_PHASE_HARDWARE)"
proof (cases "clock_hangs p k")
  case True
  then show ?thesis using pure_hardware_time [of p k] by (simp add: kernel_init_def)
next
  case False
  then obtain e1 k1 where hw: "\<And>n. kernel_init_pure_hardware (Suc n) p k = Some (e1, k1)"
    using pure_hardware_time [of p k] by auto
  have k1: "k_ipc k1 = k_ipc k" "k_phase k1 \<in> {k_phase k, STARTUP_PHASE_PURE_HARDWARE}"
    using pure_hardware_outcome [OF hw] by auto
  show ?thesis
  proof (cases "error_code e1 = ERR_BASE_OK")
    case err: False
    then show ?thesis using False k1(2) by (auto simp: kernel_init_def hw phase_order)
  next
    case ok: True
    obtain e k' where "\<And>f. if_ok (kernel_init_early_logging p k1) (\<lambda>k2. if_ok (kernel_init_core_services p k2) f) =
        Some (e, k')" "error_code e \<noteq> ERR_BASE_OK" "k_phase k' \<in> {k_phase k1, STARTUP_PHASE_HARDWARE}"
      using after_hardware_fails [of k1 p] pools k1(1) by auto
    then show ?thesis using False ok k1(2) by (auto simp: kernel_init_def hw phase_order)
  qed
qed

text \<open>C1: The kernel never starts.  From any state with the eight pools of the heap and for all answers
  of the code outside, one of two things happens.  If the clock hangs (the primary source is not
  initialised when \<open>kernel_init\<close> is called, and setting up the sources initialises the active one)
  the call never returns, whatever the fuel.  Otherwise it returns, with any positive fuel and
  the same result, an error (at the latest that of the 64 KB buffer of IPC, which is never
  granted); the phase it leaves is that of the call or at most the second one.
\<close>

theorem kernel_init_never_succeeds:
  assumes "length (g_memory_pools (ki_memory (k_ipc k))) = 8"
  shows "if clock_hangs p k then \<forall>n. kernel_init n p k = None
    else \<exists>error k'. (\<forall>n. kernel_init (Suc n) p k = Some (error, k')) \<and> error_code error \<noteq> ERR_BASE_OK \<and>
      (k_phase k' = k_phase k \<or> k_phase k' \<le> STARTUP_PHASE_HARDWARE)"
  using assms by (rule kernel_init_outcome)

lemma power_on_clock: "clock_hangs p kernel_boot \<longleftrightarrow> error_code (bp_self_test p) = ERR_SYS_OK"
proof -
  obtain t logs where t: "init_sources (bp_self_test p) kernel_time_boot = (t, logs)"
    by (cases "init_sources (bp_self_test p) kernel_time_boot")
  have b: "k_time kernel_boot = kernel_time_boot" "\<not> source_initialized kernel_time_boot TIME_SOURCE_PRIMARY"
    by (simp_all add: kernel_boot_def kernel_time_boot_def)
  show ?thesis
  proof (cases "error_code (bp_self_test p) = ERR_SYS_OK")
    case True
    then show ?thesis using init_sources_active [OF True] by (simp add: clock_hangs_def b t)
  next
    case False
    then show ?thesis using init_sources_failed [OF False] by (simp add: clock_hangs_def b t)
  qed
qed

lemma boot_pools [simp]: "length (g_memory_pools (ki_memory (k_ipc kernel_boot))) = 8"
  by (simp add: kernel_boot_def ipc_boot_def memory_boot_def)

text \<open>From power-on the outcome depends on the self test of the timer alone: if the timer works,
  \<open>kernel_init\<close> never returns, and only if it fails does the start come as far as to report an
  error.
\<close>

theorem kernel_init_from_power_on:
  "if error_code (bp_self_test p) = ERR_SYS_OK then kernel_init fuel p kernel_boot = None
   else \<exists>error k. kernel_init (Suc fuel) p kernel_boot = Some (error, k) \<and> error_code error \<noteq> ERR_BASE_OK"
  using kernel_init_outcome [OF boot_pools, of p] power_on_clock [of p] by (auto split: if_splits)

section \<open>Phases and services\<close>

text \<open>The log entry of a phase transition names no transition: the new phase is stored before the
  entry is sent, so with a publisher and an integrity check that accepts correct entries each
  phase publishes one message, and both its data words are the new phase.
\<close>

theorem phase_entry_names_new_phase_twice:
  assumes "\<And>e. error_code (bp_verify p e) = ERR_BASE_OK \<longleftrightarrow>
      error_code (log_verify_entry_integrity_safe (Some e)) = ERR_BASE_OK"
    and "bp_env p = mock_env" and "g_log_publisher (k_log k) \<noteq> None"
  shows "\<exists>k'. enter_phase p phase k = Some (client_ok, k') \<and> k_phase k' = phase \<and>
    k_published k' = k_published k @
      [entry_bytes (new_entry 0 0 LOG_LEVEL_INFO LOG_TAG_KERNEL LOG_MSG_STARTUP_PHASE
         (word_of_nat (phase_number phase)) (word_of_nat (phase_number phase)))]"
proof -
  obtain pub where pub: "g_log_publisher (k_log k) = Some pub" using assms(3) by auto
  show ?thesis
    using send_entry_published [OF assms(1) pub, of 2 1 17 "word_of_nat (phase_number phase)"
        "word_of_nat (phase_number phase)"]
    by (simp add: enter_phase_def kernel_log_phase_transition_def send_log_def assms(2) mk_log_call_def)
qed

text \<open>The three components in the order of their registration.\<close>

definition boot_components :: "watchdog_component list" where
  "boot_components =
     [\<lparr>wc_level = KERNEL_WATCHDOG_LEVEL_SCHEDULER, wc_timeout_ms = 1000, wc_component_name = ''scheduler'',
       wc_last_pet_time = 0, wc_state = KERNEL_WATCHDOG_STATE_DISABLED\<rparr>,
      \<lparr>wc_level = KERNEL_WATCHDOG_LEVEL_MEMORY, wc_timeout_ms = 2000, wc_component_name = ''memory_manager'',
       wc_last_pet_time = 0, wc_state = KERNEL_WATCHDOG_STATE_DISABLED\<rparr>,
      \<lparr>wc_level = KERNEL_WATCHDOG_LEVEL_IPC, wc_timeout_ms = 1500, wc_component_name = ''ipc_subsystem'',
       wc_last_pet_time = 0, wc_state = KERNEL_WATCHDOG_STATE_DISABLED\<rparr>]"

lemma watch_watchdog [simp]:
  "k_watchdog (watch p level timeout name k) = fst (snd (kernel_watchdog_register level timeout name (k_watchdog k)))"
  "k_scheduler (watch p level timeout name k) = k_scheduler k" "k_syscalls (watch p level timeout name k) = k_syscalls k"
  "k_phase (watch p level timeout name k) = k_phase k"
  by (simp_all add: watch_def case_prod_unfold)

lemma boot_registrations:
  assumes "kernel_watchdog_init register w = (watchdog_error_success, w1)"
  shows "Kernel_Watchdog.registered (fst (snd (kernel_watchdog_register KERNEL_WATCHDOG_LEVEL_IPC 1500 ''ipc_subsystem''
      (fst (snd (kernel_watchdog_register KERNEL_WATCHDOG_LEVEL_MEMORY 2000 ''memory_manager''
        (fst (snd (kernel_watchdog_register KERNEL_WATCHDOG_LEVEL_SCHEDULER 1000 ''scheduler'' w1))))))))) =
    boot_components"
proof -
  have "w1 = kernel_watchdog_boot\<lparr>kw_initialized := True\<rparr>"
    using assms by (auto simp: kernel_watchdog_init_def Let_def watchdog_error_success_def
        watchdog_error_already_initialized_def system_error_create_def split: if_splits)
  moreover have "Kernel_Watchdog.registered (fst (snd (kernel_watchdog_register KERNEL_WATCHDOG_LEVEL_IPC 1500 ''ipc_subsystem''
      (fst (snd (kernel_watchdog_register KERNEL_WATCHDOG_LEVEL_MEMORY 2000 ''memory_manager''
        (fst (snd (kernel_watchdog_register KERNEL_WATCHDOG_LEVEL_SCHEDULER 1000 ''scheduler''
          (kernel_watchdog_boot\<lparr>kw_initialized := True\<rparr>)))))))))) = boot_components"
    by code_simp
  ultimately show ?thesis by simp
qed

text \<open>The system services depend on the clock in the wrong way: while the active source is
  initialised the phase never returns, because the scheduler reads the time first.  With a clock
  that answers 0, and a watchdog that is not yet initialised and whose topic is registered, the
  phase ends with the nine system calls in the table, a scheduler without processes and the three
  components under watch.
\<close>

theorem system_services_outcome:
  assumes "\<not> kw_initialized (k_watchdog k)" "error_code (bp_register_topic p) = ERR_BASE_OK"
  shows "if source_initialized (k_time k) (active_source (k_time k))
    then kernel_init_system_services fuel p k = None
    else \<exists>error k'. kernel_init_system_services (Suc fuel) p k = Some (error, k') \<and>
      k_phase k' = STARTUP_PHASE_SYSTEM_SERVICES \<and> k_syscalls k' = map Some numbered \<and>
      process_count (k_scheduler k') = 0 \<and> rt_initialized (k_scheduler k') \<and>
      Kernel_Watchdog.registered (k_watchdog k') = boot_components"
proof (cases "source_initialized (k_time k) (active_source (k_time k))")
  case True
  then show ?thesis
    using tick_count_open [OF True, of fuel]
    by (simp add: kernel_init_system_services_def syscall_init_def Kernel_Syscall.sys_ok_def Kernel_Time.kernel_time_get_uptime_us_def)
next
  case False
  obtain w1 where w1: "kernel_watchdog_init (bp_register_topic p) (k_watchdog k) = (watchdog_error_success, w1)"
    using assms by (simp add: kernel_watchdog_init_def Let_def)
  let ?k = "k\<lparr>k_syscalls := map Some numbered, k_scheduler := snd (scheduler_init 0), k_watchdog := w1\<rparr>"
  let ?w = "watch p KERNEL_WATCHDOG_LEVEL_IPC 1500 ''ipc_subsystem''
     (watch p KERNEL_WATCHDOG_LEVEL_MEMORY 2000 ''memory_manager''
       (watch p KERNEL_WATCHDOG_LEVEL_SCHEDULER 1000 ''scheduler'' ?k))"
  have "kernel_init_system_services (Suc fuel) p k = enter_phase p STARTUP_PHASE_SYSTEM_SERVICES ?w"
    using False w1 init_table [of "k_syscalls k"]
    by (simp add: kernel_init_system_services_def case_prod_unfold Kernel_Time.kernel_time_get_uptime_us_def
        tick_count_uninitialised syscall_init_def Kernel_Syscall.sys_ok_def scheduler_init_def sched_ok_def
        watchdog_error_success_def del: kernel_time_get_tick_count.simps)
  then show ?thesis
    using False boot_registrations [OF w1]
    by (auto simp: enter_phase_def kernel_log_phase_transition_def scheduler_init_def prod_eq_iff)
qed

text \<open>The main loop with a clock that stands: it is read as 0 and the half second never passes.\<close>

lemma stopped_main_loop:
  assumes "\<not> source_initialized tm (active_source tm)"
  shows "main_loop (Suc fuel) rounds n s 0 tm =
    (if n = 0 then []
     else if rt_initialized s then [Scheduler_runs (scheduler_loop (Suc fuel) rounds n s tm)]
     else replicate n Scheduler_refused)"
  using assms
  by (induction n)
     (simp_all add: Kernel_Time.kernel_time_get_uptime_us_def tick_count_uninitialised scheduler_start_def
      Let_def del: kernel_time_get_tick_count.simps scheduler_loop.simps)

text \<open>C27: The main loop never feeds a watchdog.  While the active source of the clock is initialised,
  the first reading of the clock does not come back and \<open>kernel_main\<close> does nothing at all.  Otherwise
  the clock stands at 0, no half second passes, and the loop does nothing but start the scheduler:
  once, when that is initialised, because the start does not come back; and again in every
  round, for ever refused, when it is not.
\<close>

theorem main_loop_never_feeds:
  "kernel_main fuel rounds n s tm =
     (if fuel = 0 \<or> n = 0 \<or> source_initialized tm (active_source tm) then []
      else if rt_initialized s then [Scheduler_runs (scheduler_loop fuel rounds n s tm)]
      else replicate n Scheduler_refused)"
proof (cases "source_initialized tm (active_source tm)")
  case True
  then show ?thesis
    using tick_count_open [OF True, of fuel]
    by (simp add: kernel_main_def Kernel_Time.kernel_time_get_uptime_us_def)
next
  case False
  then show ?thesis
    using stopped_main_loop [OF False]
    by (cases fuel)
       (simp_all add: kernel_main_def Kernel_Time.kernel_time_get_uptime_us_def tick_count_uninitialised
        del: scheduler_loop.simps)
qed

section \<open>Examples\<close>

definition example_params :: boot_params where
  "example_params = \<lparr>bp_self_test = kernel_ok\<lparr>error_code := 1\<rparr>, bp_malloc_ok = True,
     bp_verify = (\<lambda>e. log_verify_entry_integrity_safe (Some e)), bp_env = mock_env, bp_codes = example_codes,
     bp_ports = ((kernel_ok, 1), (kernel_ok, 2)), bp_monitor_start = (\<lambda>m. (kernel_ok, m)),
     bp_register_topic = kernel_ok\<rparr>"

lemma kernel_init_never_succeeds_witness:
  "(\<forall>n. kernel_init n (example_params\<lparr>bp_self_test := kernel_ok\<rparr>) kernel_boot = None) \<and>
   (\<exists>error k. (\<forall>n. kernel_init (Suc n) example_params kernel_boot = Some (error, k)) \<and>
      error_code error \<noteq> ERR_BASE_OK)"
proof -
  have "clock_hangs (example_params\<lparr>bp_self_test := kernel_ok\<rparr>) kernel_boot"
    "\<not> clock_hangs example_params kernel_boot"
    by (simp_all add: power_on_clock example_params_def kernel_ok_def)
  then show ?thesis
    using kernel_init_never_succeeds [OF boot_pools, of "example_params\<lparr>bp_self_test := kernel_ok\<rparr>"]
      kernel_init_never_succeeds [OF boot_pools, of example_params] by auto
qed

definition logging_kernel :: kernel where
  "logging_kernel = kernel_boot\<lparr>k_log := \<lparr>g_log_publisher =
     Some \<lparr>pub_topic = ''system/logging/info'', pub_message_count = 0, pub_error_count = 0\<rparr>,
     g_early_log_buffer = zero_early_buffer\<rparr>\<rparr>"

lemma phase_entry_names_new_phase_twice_witness:
  "\<exists>k'. enter_phase example_params STARTUP_PHASE_HARDWARE logging_kernel = Some (client_ok, k') \<and>
     k_published k' = [entry_bytes (new_entry 0 0 2 1 17 1 1)]"
  using phase_entry_names_new_phase_twice [of example_params logging_kernel STARTUP_PHASE_HARDWARE]
  by (auto simp: example_params_def logging_kernel_def kernel_boot_def)

lemma system_services_outcome_witness:
  "\<exists>error k'. kernel_init_system_services 1 example_params kernel_boot = Some (error, k') \<and>
     Kernel_Watchdog.registered (k_watchdog k') = boot_components"
  using system_services_outcome [of kernel_boot example_params 0]
  by (auto simp: example_params_def kernel_boot_def kernel_watchdog_boot_def kernel_time_boot_def)

end
