(* ===== verification/Scheduler_Feasibility.thy ===== *)
theory Scheduler_Feasibility
  imports Kernel_Scheduler
begin

text \<open>
  The real-time admission test of kernel/core/scheduler.c against the exact utilisation bound of
  rate-monotonic scheduling.  The code computes in single precision and keeps a margin of 0.05;
  the lemmas bound the rounding error of each step (a task's utilisation, the running sum, the
  bound from \<open>powf\<close>) and show that together they stay inside the margin, so that an accepted task
  set never exceeds the exact bound.
\<close>

section \<open>Exact quantities\<close>

definition exact_utilization :: "rt_scheduling_params_t \<Rightarrow> rat" where
  "exact_utilization p =
     of_nat (unat (rt_worst_case_execution_time_us p)) / (1000 * of_nat (unat (rt_period_ms p)))"

definition exact_load :: "process_control_block list \<Rightarrow> rat" where
  "exact_load ps =
     sum_list (map (\<lambda>q. exact_utilization (pcb_rt_params q)) (filter (\<lambda>q. 0 < rt_period_ms (pcb_rt_params q)) ps))"

definition exact_rms_bound :: "nat \<Rightarrow> real" where
  "exact_rms_bound n = real n * (2 powr (1 / real n) - 1)"

text \<open>What the code relies on of \<open>powf(2.0f, y)\<close>: an absolute error of at most 2^-16, where the
  mathematics libraries document one unit in the last place, here 2^-23.\<close>

definition powf_accurate :: "(rat \<Rightarrow> rat \<Rightarrow> rat) \<Rightarrow> bool" where
  "powf_accurate powf \<longleftrightarrow>
     (\<forall>y. 0 < y \<and> y \<le> 1 \<longrightarrow> \<bar>real_of_rat (powf 2 y) - 2 powr real_of_rat y\<bar> \<le> 1 / 2 ^ 16)"

section \<open>The utilisation of a task\<close>

lemma of_nat_ge_one: "0 < n \<Longrightarrow> (1 :: rat) \<le> of_nat n"
  using of_nat_le_iff [of 1 n, where 'a = rat] by simp

lemma float_of_uint_near: "near 1 (float_of_uint w) (of_nat (unat w))"
proof (cases "unat w = 0")
  case True
  then show ?thesis by (simp add: float_of_uint_def)
next
  case False
  then show ?thesis
    unfolding float_of_uint_def by (intro near_round normal0_ge_one of_nat_ge_one) simp
qed

lemma float_of_uint_ge_one:
  assumes "0 < unat w"
  shows "1 \<le> float_of_uint w"
  using float_round_ge [of 0 "of_nat (unat w)"] of_nat_ge_one [OF assms]
  by (simp add: float_of_uint_def del: of_nat_unat)

lemma float_of_uint_le:
  fixes w :: u32
  shows "float_of_uint w \<le> 2 ^ 32"
proof -
  have "is_float (2 ^ 32)" by (rule is_floatI [of _ 1 32]) simp_all
  then have r: "float_round (2 ^ 32) = 2 ^ 32" by (rule float_round_exact)
  have "(of_nat (unat w) :: rat) \<le> of_nat (2 ^ 32)"
    unfolding of_nat_le_iff using unat_lt_u32 [of w] by simp
  then have "float_round (of_nat (unat w)) \<le> float_round (2 ^ 32)"
    by (intro float_round_mono) simp
  then show ?thesis unfolding r float_of_uint_def .
qed

text \<open>The computed utilisation is zero or a normal number, four roundings from the exact one.\<close>

lemma params_utilization_near:
  assumes "0 < unat (rt_period_ms p)"
  shows "normal0 (params_utilization p) \<and> near 4 (params_utilization p) (exact_utilization p)"
proof -
  define t c where "t = float_of_uint (rt_period_ms p)"
    and "c = float_of_uint (rt_worst_case_execution_time_us p)"
  define m where "m = float_round (t * 1000)"
  have t: "near 1 t (of_nat (unat (rt_period_ms p)))" "1 \<le> t" "t \<le> 2 ^ 32"
    unfolding t_def using float_of_uint_near float_of_uint_ge_one [OF assms] float_of_uint_le by auto
  have c: "near 1 c (of_nat (unat (rt_worst_case_execution_time_us p)))"
    unfolding c_def by (rule float_of_uint_near)
  have nt: "normal0 (t * 1000)" using t(2) by (intro normal0_ge_one) simp
  have m: "near (1 + (1 + 0)) m (of_nat (unat (rt_period_ms p)) * 1000)"
    unfolding m_def by (rule near_trans [OF near_round [OF nt] near_mult [OF t(1) near_refl]]) simp
  have m_pos: "1 \<le> m" using float_round_ge [of 0 "t * 1000"] t(2) by (simp add: m_def)
  have m_max: "m \<le> 2 ^ 43"
  proof -
    have "t * 1000 \<le> 2 ^ 43" using t(3) by simp
    then have "m \<le> float_round (2 ^ 43)" unfolding m_def by (rule float_round_mono)
    also have "float_round (2 ^ 43) = 2 ^ 43" by (rule float_round_exact, rule is_floatI [of _ 1 43]) simp_all
    finally show ?thesis .
  qed
  have nc: "normal0 (c / m)"
  proof (cases "unat (rt_worst_case_execution_time_us p) = 0")
    case True
    then show ?thesis using c by (simp add: normal0_def)
  next
    case False
    then have "1 \<le> c" unfolding c_def by (intro float_of_uint_ge_one) simp
    then have "1 / 2 ^ 43 \<le> c / m" using m_pos m_max by (intro frac_le) auto
    moreover have "(2 :: rat) powi (- 126) \<le> 1 / 2 ^ 43" by (simp add: power_int_minus)
    ultimately show ?thesis unfolding normal0_def by linarith
  qed
  have q: "params_utilization p = float_round (c / m)"
    by (simp add: params_utilization_def c_def m_def t_def fdiv_def fmul_def)
  have "near (1 + (1 + (1 + (1 + 0)))) (float_round (c / m))
      (of_nat (unat (rt_worst_case_execution_time_us p)) / (of_nat (unat (rt_period_ms p)) * 1000))"
    using m_pos by (intro near_trans [OF near_round [OF nc] near_divide [OF c m]]) simp
  then show ?thesis
    by (simp add: q exact_utilization_def normal0_round [OF nc] mult.commute eval_nat_numeral)
qed

section \<open>The utilisation of the system\<close>

lemma exact_load_Cons:
  "exact_load (q # ps) =
     (if 0 < rt_period_ms (pcb_rt_params q) then exact_utilization (pcb_rt_params q) + exact_load ps
      else exact_load ps)"
  by (simp add: exact_load_def)

lemma exact_load_append: "exact_load (ps @ qs) = exact_load ps + exact_load qs"
  by (induction ps) (simp_all add: exact_load_Cons exact_load_def)

lemma add_near:
  assumes "normal0 u" "near k u E" "normal0 v" "near 4 v X" "4 \<le> k"
  shows "normal0 (fadd u v) \<and> near (1 + k) (fadd u v) (E + X)"
  using normal0_add [OF assms(1,3)] near_trans [OF near_round near_add [OF assms(2) near_mono [OF assms(4,5)]]]
  by (auto simp: fadd_def normal0_round)

lemma utilization_loop_near:
  assumes "normal0 u" "near k u E" "4 \<le> k"
  shows "normal0 (foldl add_utilization u ps) \<and>
         near (k + length ps) (foldl add_utilization u ps) (E + exact_load ps)"
  using assms
proof (induction ps arbitrary: u E k)
  case Nil
  then show ?case by (simp add: exact_load_def)
next
  case (Cons q ps)
  show ?case
  proof (cases "0 < rt_period_ms (pcb_rt_params q)")
    case True
    let ?v = "params_utilization (pcb_rt_params q)"
    have "normal0 ?v \<and> near 4 ?v (exact_utilization (pcb_rt_params q))"
      using True by (intro params_utilization_near) (simp add: unat_gt_0 word_gt_0)
    then have "normal0 (fadd u ?v) \<and> near (1 + k) (fadd u ?v) (E + exact_utilization (pcb_rt_params q))"
      using Cons.prems by (intro add_near) auto
    then have "normal0 (foldl add_utilization (fadd u ?v) ps) \<and>
        near (1 + k + length ps) (foldl add_utilization (fadd u ?v) ps)
          (E + exact_utilization (pcb_rt_params q) + exact_load ps)"
      using Cons.prems(3) by (intro Cons.IH) auto
    moreover have "add_utilization u q = fadd u ?v" using True by (simp add: add_utilization_def)
    ultimately show ?thesis using True by (simp only: foldl_Cons exact_load_Cons if_True add.assoc list.size) (simp add: add.commute)
  next
    case False
    then have "add_utilization u q = u" "exact_load (q # ps) = exact_load ps"
      by (simp_all add: add_utilization_def exact_load_Cons)
    with Cons.IH [OF Cons.prems] show ?thesis by (auto intro: near_mono)
  qed
qed

lemma system_utilization_near:
  "normal0 (system_utilization s) \<and>
   near (4 + length (active s)) (system_utilization s) (exact_load (active s))"
  using utilization_loop_near [of 0 4 0 "active s"] by (simp add: system_utilization_def normal0_def)

lemma total_utilization_near:
  assumes "table_ok s" "unat (process_count s) < 32" "0 < unat (rt_period_ms p)"
  shows "near 36 (fadd (system_utilization s) (params_utilization p))
           (exact_load (active s) + exact_utilization p)"
proof -
  note s = system_utilization_near [of s] and t = params_utilization_near [OF assms(3)]
  have "near (1 + (4 + length (active s))) (fadd (system_utilization s) (params_utilization p))
      (exact_load (active s) + exact_utilization p)"
    by (rule conjunct2 [OF add_near [OF conjunct1 [OF s] conjunct2 [OF s] conjunct1 [OF t] conjunct2 [OF t]]]) simp
  then show ?thesis by (rule near_mono) (use assms(1,2) in \<open>simp add: length_active\<close>)
qed

section \<open>The bound\<close>

lemma powr_two_step:
  assumes "0 \<le> a" "a \<le> b" "b \<le> 1"
  shows "0 \<le> 2 powr b - 2 powr a" "2 powr b - 2 powr a \<le> 4 * (b - a :: real)"
proof -
  define d where "d = (b - a) * ln 2"
  have l: "0 < ln (2 :: real)" "ln (2 :: real) \<le> 1" using ln_le_minus_one [of "2 :: real"] by auto
  have d: "0 \<le> d" "d \<le> b - a" using assms l by (auto simp: d_def intro: mult_left_le)
  then have d1: "d \<le> 1" using assms by linarith
  have "2 powr (b - a) = exp d" by (simp add: powr_def d_def)
  also have "\<dots> \<le> 1 + d + d\<^sup>2" using d(1) d1 by (rule exp_bound)
  also have "\<dots> \<le> 1 + 2 * d" using d(1) d1 by (simp add: power2_eq_square mult_left_le)
  also have "\<dots> \<le> 1 + 2 * (b - a)" using d(2) by simp
  finally have up: "2 powr (b - a) - 1 \<le> 2 * (b - a)" by simp
  have ge: "0 \<le> 2 powr (b - a) - (1 :: real)" using assms ge_one_powr_ge_zero [of "2 :: real" "b - a"] by simp
  have "2 powr a \<le> 2 powr (1 :: real)" using assms by (intro powr_mono) auto
  then have a2: "2 powr a \<le> (2 :: real)" by simp
  have e: "2 powr b - 2 powr a = 2 powr a * (2 powr (b - a) - 1)"
    by (simp add: right_diff_distrib flip: powr_add)
  show "0 \<le> 2 powr b - 2 powr a" unfolding e using ge by (intro mult_nonneg_nonneg) auto
  have "2 powr a * (2 powr (b - a) - 1) \<le> 2 * (2 * (b - a))"
    using a2 up ge by (intro mult_mono) auto
  then show "2 powr b - 2 powr a \<le> 4 * (b - a)" unfolding e by simp
qed

lemma powr_two_lipschitz:
  assumes "0 \<le> a" "a \<le> 1" "0 \<le> b" "b \<le> 1"
  shows "\<bar>2 powr a - 2 powr b\<bar> \<le> 4 * \<bar>a - b :: real\<bar>"
proof (cases "a \<le> b")
  case True
  then show ?thesis using powr_two_step [OF assms(1) True assms(4)] by (auto simp: abs_if)
next
  case False
  then have "b \<le> a" by simp
  then show ?thesis using powr_two_step [OF assms(3) _ assms(2)] by (auto simp: abs_if)
qed

lemma of_rat_abs_real: "\<bar>real_of_rat x\<bar> = real_of_rat \<bar>x\<bar>"
  by (simp add: abs_if of_rat_minus)

lemma abs_chain:
  fixes x y z :: "'a :: linordered_idom"
  assumes "\<bar>x - y\<bar> \<le> a" "\<bar>y - z\<bar> \<le> b"
  shows "\<bar>x - z\<bar> \<le> a + b"
  using abs_triangle_ineq [of "x - y" "y - z"] assms by simp

lemmas abs_D = abs_le_D1 abs_le_D2

lemmas abs_size = abs_chain [where z = 0, unfolded diff_0_right]

text \<open>The three roundings after the call of \<open>powf\<close>.\<close>

lemma rms_roundings:
  fixes n p :: rat
  assumes "0 \<le> n" "n \<le> 32" "\<bar>p - 1\<bar> \<le> 2"
  shows "\<bar>float_round (float_round (n * float_round (p - 1)) - safety_margin) - (n * (p - 1) - 1 / 20)\<bar>
         \<le> 1 / 10 ^ 4"
proof -
  define d where "d = float_round (p - 1)"
  define b where "b = float_round (n * d)"
  have d: "\<bar>d - (p - 1)\<bar> \<le> 3 / 2 ^ 24"
    using float_round_abs_error [of "p - 1"] assms(3) by (simp add: d_def)
  then have d3: "\<bar>d\<bar> \<le> 3" using abs_size [OF _ assms(3), of d] by fastforce
  have nd: "\<bar>n * d - n * (p - 1)\<bar> \<le> 32 * (3 / 2 ^ 24)"
    unfolding right_diff_distrib [symmetric] abs_mult using assms d by (intro mult_mono) auto
  have nd96: "\<bar>n * d\<bar> \<le> 32 * 3" unfolding abs_mult using assms d3 by (intro mult_mono) auto
  have b: "\<bar>b - n * d\<bar> \<le> 97 / 2 ^ 24"
    using float_round_abs_error [of "n * d"] nd96 by (simp add: b_def)
  have m: "\<bar>safety_margin - 1 / 20\<bar> \<le> 1 / 2 ^ 24"
    by (simp add: safety_margin_def float_twentieth)
  have "\<bar>b - safety_margin\<bar> \<le> 98" using abs_D [OF b] abs_D [OF nd96] abs_D [OF m] by - (intro abs_leI; simp)
  then have "\<bar>float_round (b - safety_margin) - (b - safety_margin)\<bar> \<le> 99 / 2 ^ 24"
    using float_round_abs_error [of "b - safety_margin"] by simp
  note abs_D [OF this] abs_D [OF b] abs_D [OF nd] abs_D [OF m]
  then show ?thesis unfolding d_def [symmetric] b_def [symmetric] by - (intro abs_leI; simp)
qed

lemma reciprocal_round:
  assumes "1 \<le> n" "n \<le> 32"
  shows "0 < float_round (1 / of_nat n)" "float_round (1 / of_nat n) \<le> 1"
    "\<bar>float_round (1 / of_nat n) - 1 / of_nat n\<bar> \<le> 1 / of_nat n / 2 ^ 24"
proof -
  have n: "(1 :: rat) \<le> of_nat n" "(of_nat n :: rat) \<le> 32"
    using assms of_nat_ge_one [of n] of_nat_le_iff [of n 32, where 'a = rat] by auto
  have lo: "2 powi (- 5) \<le> (1 :: rat) / of_nat n"
    using n by (simp add: power_int_minus field_simps)
  then show "0 < float_round (1 / of_nat n)"
    using powi_pos [of "- 5"] float_round_ge [OF lo] by simp
  have "float_round (1 / of_nat n) \<le> float_round (of_nat 1)"
    using n by (intro float_round_mono) simp
  also have "float_round (of_nat 1) = 1" by (subst float_round_of_nat) simp_all
  finally show "float_round (1 / of_nat n) \<le> 1" .
  have "(2 :: rat) powi (- 126) \<le> 2 powi (- 5)" by (intro power_int_increasing) auto
  then show "\<bar>float_round (1 / of_nat n) - 1 / of_nat n\<bar> \<le> 1 / of_nat n / 2 ^ 24"
    using lo by (intro float_round_normal) linarith
qed

lemma rms_bound_error:
  assumes "powf_accurate powf" "1 \<le> unat w" "unat w \<le> 32"
  shows "\<bar>real_of_rat (fsub (rms_bound powf w) safety_margin) - (exact_rms_bound (unat w) - 1 / 20)\<bar> \<le> 7 / 10 ^ 4"
proof -
  define n where "n = unat w"
  define y where "y = float_round (1 / of_nat n)"
  define p where "p = powf 2 y"
  note n = assms(2,3) [folded n_def]
  note y = reciprocal_round [OF n, folded y_def]
  have rn: "1 \<le> real n" "real n \<le> 32" using n by auto
  have fl: "float_of_uint w = of_nat n" using n by (simp add: n_def float_of_uint_exact)
  have yr: "0 < real_of_rat y" "real_of_rat y \<le> 1" using y by simp_all
  have "\<bar>real_of_rat (y - 1 / of_nat n)\<bar> \<le> real_of_rat (1 / of_nat n / 2 ^ 24)"
    using y(3) by (simp only: of_rat_abs_real of_rat_less_eq)
  then have yn: "\<bar>real_of_rat y - 1 / real n\<bar> \<le> 1 / real n / 2 ^ 24"
    by (simp add: of_rat_diff of_rat_divide of_rat_mult)
  have pa: "\<bar>real_of_rat p - 2 powr real_of_rat y\<bar> \<le> 1 / 2 ^ 16"
    using assms(1) y by (auto simp: powf_accurate_def p_def)
  have "\<bar>2 powr real_of_rat y - 2 powr (1 / real n)\<bar> \<le> 4 * \<bar>real_of_rat y - 1 / real n\<bar>"
    using yr rn by (intro powr_two_lipschitz) auto
  also have "\<dots> \<le> 4 * (1 / real n / 2 ^ 24)" using yn by (rule mult_left_mono) simp
  finally have pe: "\<bar>real_of_rat p - 2 powr (1 / real n)\<bar> \<le> 1 / 2 ^ 16 + 4 * (1 / real n / 2 ^ 24)"
    by (rule abs_chain [OF pa])
  have two: "1 \<le> 2 powr (1 / real n)" "2 powr (1 / real n) \<le> 2"
    using rn ge_one_powr_ge_zero [of 2 "1 / real n"] powr_mono [of "1 / real n" 1 2] by auto
  have "4 * (1 / real n / 2 ^ 24) \<le> 4 / 2 ^ 24" using rn by (simp add: field_simps)
  then have "\<bar>real_of_rat p - 1\<bar> \<le> 2" using pe two by simp
  then have "\<bar>real_of_rat (p - 1)\<bar> \<le> real_of_rat 2" by (simp add: of_rat_diff)
  then have p2: "\<bar>p - 1\<bar> \<le> 2" by (simp only: of_rat_abs_real of_rat_less_eq)
  have nr: "0 \<le> (of_nat n :: rat)" "(of_nat n :: rat) \<le> 32"
    using n of_nat_le_iff [of n 32, where 'a = rat] by auto
  have R: "fsub (rms_bound powf w) safety_margin =
      float_round (float_round (of_nat n * float_round (p - 1)) - safety_margin)"
    by (simp add: rms_bound_def fl fmul_def fsub_def fdiv_def p_def y_def)
  have "\<bar>real_of_rat (fsub (rms_bound powf w) safety_margin - (of_nat n * (p - 1) - 1 / 20))\<bar>
      \<le> real_of_rat (1 / 10 ^ 4)"
    unfolding R of_rat_abs_real of_rat_less_eq by (rule rms_roundings [OF nr p2])
  then have e1: "\<bar>real_of_rat (fsub (rms_bound powf w) safety_margin) - (real n * (real_of_rat p - 1) - 1 / 20)\<bar>
      \<le> 1 / 10 ^ 4"
    by (simp add: of_rat_diff of_rat_mult of_rat_divide)
  have "\<bar>real n * (real_of_rat p - 1) - exact_rms_bound n\<bar> = real n * \<bar>real_of_rat p - 2 powr (1 / real n)\<bar>"
    unfolding exact_rms_bound_def right_diff_distrib [symmetric] abs_mult using rn by simp
  also have "\<dots> \<le> real n * (1 / 2 ^ 16 + 4 * (1 / real n / 2 ^ 24))"
    using pe rn by (intro mult_left_mono) auto
  also have "\<dots> = real n / 2 ^ 16 + 4 / 2 ^ 24" using rn by (simp add: field_simps)
  also have "\<dots> \<le> 6 / 10 ^ 4" using rn by simp
  finally have e2: "\<bar>real n * (real_of_rat p - 1) - exact_rms_bound n\<bar> \<le> 6 / 10 ^ 4" .
  show ?thesis unfolding n_def [symmetric] using abs_D [OF e1] abs_D [OF e2] by - (intro abs_leI; simp)
qed

section \<open>Admission\<close>

lemma unat_ucast_u16_u32: "unat (ucast (w :: u16) :: u32) = unat w"
proof -
  have "unat w < 2 ^ 32" using unat_lt_u16 [of w] by simp
  then show ?thesis by (simp add: unsigned_ucast_eq take_bit_nat_eq_self)
qed

text \<open>The utilisation that the new task would bring the system to.\<close>

definition load_with :: "scheduler_state \<Rightarrow> rt_scheduling_params_t \<Rightarrow> real" where
  "load_with s p = real_of_rat (exact_load (active s) + exact_utilization p)"

lemma near_36_abs:
  assumes "near 36 u U" "U \<le> 33 \<or> u \<le> 33"
  shows "\<bar>u - U\<bar> \<le> 1 / 10 ^ 4"
proof -
  have b: "1 - 36 * eps \<le> (1 - eps) ^ 36" using Bernoulli_inequality [of "- eps" 36] by simp
  have p: "0 \<le> u" "0 \<le> U" "U * (1 - eps) ^ 36 \<le> u" "u * (1 - eps) ^ 36 \<le> U"
    using assms(1) by (simp_all only: near_def)
  have "U * (1 - 36 * eps) \<le> u" "u * (1 - 36 * eps) \<le> U"
    using mult_left_mono [OF b p(1)] mult_left_mono [OF b p(2)] p(3,4) by linarith+
  then show ?thesis using assms(2) by - (intro abs_leI; elim disjE; simp)
qed

lemma exact_rms_bound_le: "1 \<le> n \<Longrightarrow> exact_rms_bound n \<le> real n"
  using powr_mono [of "1 / real n" 1 2] by (simp add: exact_rms_bound_def)

lemma rms_test_decides:
  assumes "powf_accurate powf" "table_ok s" "unat (process_count s) < 32" "0 < unat (rt_period_ms p)"
  shows "rms_test powf p s \<Longrightarrow> load_with s p + 49 / 1000 \<le> exact_rms_bound (unat (process_count s) + 1)"
    and "load_with s p + 51 / 1000 \<le> exact_rms_bound (unat (process_count s) + 1) \<Longrightarrow> rms_test powf p s"
proof -
  let ?n = "unat (process_count s) + 1"
  define u where "u = fadd (system_utilization s) (params_utilization p)"
  define U where "U = exact_load (active s) + exact_utilization p"
  define R where "R = fsub (rms_bound powf (ucast (process_count s) + 1)) safety_margin"
  have w: "unat (ucast (process_count s) + 1 :: u32) = ?n"
    using assms(3) by (simp add: unat_inc unat_ucast_u16_u32)
  have R: "\<bar>real_of_rat R - (exact_rms_bound ?n - 1 / 20)\<bar> \<le> 7 / 10 ^ 4"
    using rms_bound_error [OF assms(1), of "ucast (process_count s) + 1"] assms(3) by (simp add: R_def w)
  have B: "exact_rms_bound ?n \<le> 32"
    using exact_rms_bound_le [of ?n] of_nat_le_iff [of ?n 32, where 'a = real] assms(3) by linarith
  have near: "near 36 u U" unfolding u_def U_def by (rule total_utilization_near [OF assms(2-4)])
  have close: "\<bar>real_of_rat u - real_of_rat U\<bar> \<le> 1 / 10 ^ 4" if "U \<le> 33 \<or> u \<le> 33"
  proof -
    have "real_of_rat \<bar>u - U\<bar> \<le> real_of_rat (1 / 10 ^ 4)"
      unfolding of_rat_less_eq by (rule near_36_abs [OF near that])
    then show ?thesis by (simp add: of_rat_diff of_rat_divide flip: of_rat_abs_real)
  qed
  have iff: "rms_test powf p s \<longleftrightarrow> real_of_rat u \<le> real_of_rat R"
    by (simp add: rms_test_def u_def R_def of_rat_less_eq)
  have load: "load_with s p = real_of_rat U" by (simp add: load_with_def U_def)
  show "load_with s p + 49 / 1000 \<le> exact_rms_bound ?n" if "rms_test powf p s"
  proof -
    have uR: "real_of_rat u \<le> real_of_rat R" using that iff by simp
    then have "real_of_rat u \<le> real_of_rat 33" using abs_D [OF R] B by simp
    then have "u \<le> 33" unfolding of_rat_less_eq .
    with abs_D [OF close] uR abs_D [OF R] show ?thesis unfolding load by simp
  qed
  show "rms_test powf p s" if "load_with s p + 51 / 1000 \<le> exact_rms_bound ?n"
  proof -
    have "real_of_rat U \<le> real_of_rat 33" using that B by (simp add: load)
    then have "U \<le> 33" unfolding of_rat_less_eq .
    with abs_D [OF close] that abs_D [OF R] show ?thesis unfolding iff load by simp
  qed
qed

lemma exact_load_singleton:
  "0 < unat (rt_period_ms (pcb_rt_params q)) \<Longrightarrow> exact_load [q] = exact_utilization (pcb_rt_params q)"
  by (simp add: exact_load_def unat_gt_0 word_gt_0)

lemma admitted_parameters:
  "scheduler_rt_feasibility_check powf (Some p) s \<Longrightarrow> 0 < unat (rt_period_ms p) \<and> rms_test powf p s"
  by (auto simp: scheduler_rt_feasibility_check_def unat_gt_0 split: if_splits)

lemma create_accepted:
  assumes "process_create powf True priority rt_params s = (e, pid, s')" "error_code e = ERR_SYS_OK"
    and "table_ok s"
  shows "unat (process_count s) < 32" "scheduler_rt_feasibility_check powf rt_params s"
    "active s' = active s @ [created_pcb priority rt_params s]"
  using assms by (auto simp: process_create_cases Let_def active_extend sched_high_def system_error_create_def
      split: if_splits)

text \<open>C6: When \<open>process_create\<close> accepts a real-time task, the tasks then in the table meet the
  rate-monotonic bound in exact arithmetic: the sum of their C/T is at most n(2^(1/n) - 1), with
  at least 0.049 of the 0.05 margin to spare.  No rounding of the single-precision sum, of the
  quotients or of \<open>powf\<close> admits an infeasible task set.
\<close>

theorem admitted_tasks_meet_rms_bound:
  assumes "powf_accurate powf" "table_ok s"
    and "process_create powf True priority (Some p) s = (e, pid, s')" "error_code e = ERR_SYS_OK"
  shows "real_of_rat (exact_load (active s')) + 49 / 1000 \<le> exact_rms_bound (length (active s'))"
proof -
  note acc = create_accepted [OF assms(3,4,2)]
  note par = admitted_parameters [OF acc(2)]
  have "pcb_rt_params (created_pcb priority (Some p) s) = p" by (simp add: created_pcb_def Let_def)
  then have "exact_load (active s') = exact_load (active s) + exact_utilization p"
    using par by (simp add: acc(3) exact_load_append exact_load_singleton)
  moreover have "length (active s') = unat (process_count s) + 1"
    using assms(2) by (simp add: acc(3) length_active)
  ultimately show ?thesis
    using rms_test_decides(1) [OF assms(1,2) acc(1)] par by (simp only: load_with_def)
qed

text \<open>C18: The test is not needlessly strict either: a task with a period of at most 4294967 ms,
  a deadline within the period and an execution time below it is accepted whenever the exact
  utilisation stays 0.051 below the bound and the table has room.
\<close>

theorem feasible_tasks_are_admitted:
  assumes "powf_accurate powf" "table_ok s" "unat (process_count s) < 32"
    and "unat (rt_period_ms p) \<le> 4294967"
    and "0 < unat (rt_deadline_ms p)" "unat (rt_deadline_ms p) \<le> unat (rt_period_ms p)"
    and "0 < unat (rt_worst_case_execution_time_us p)"
    and "unat (rt_worst_case_execution_time_us p) < 1000 * unat (rt_period_ms p)"
    and "load_with s p + 51 / 1000 \<le> exact_rms_bound (unat (process_count s) + 1)"
  shows "fst (process_create powf True priority (Some p) s) = sched_ok"
proof -
  have T: "0 < unat (rt_period_ms p)" using assms(5,6) by linarith
  have m: "unat (rt_period_ms p * 1000) = 1000 * unat (rt_period_ms p)"
    using assms(4) by (simp add: unat_word_ariths)
  have "rms_test powf p s" by (rule rms_test_decides(2) [OF assms(1-3) T assms(9)])
  then have "scheduler_rt_feasibility_check powf (Some p) s"
    using assms(5-8) T
    by (auto simp: scheduler_rt_feasibility_check_def word_less_nat_alt word_le_nat_alt m)
  then show ?thesis using assms(3) by (simp add: process_create_cases Let_def)
qed

text \<open>The bound of the test holds for deadlines equal to periods, but the test never looks at the
  deadline again after \<open>deadline_ms <= period_ms\<close>: an accepted task is accepted with any shorter
  deadline, also one below its own execution time.
\<close>

theorem shorter_deadline_accepted:
  assumes "scheduler_rt_feasibility_check powf (Some p) s" "d \<noteq> 0" "d \<le> rt_deadline_ms p"
  shows "scheduler_rt_feasibility_check powf (Some (p\<lparr>rt_deadline_ms := d\<rparr>)) s"
  using assms by (auto simp: scheduler_rt_feasibility_check_def rms_test_def params_utilization_def
      split: if_splits dest: order_trans)

section \<open>The reported utilisation\<close>

lemma float_of_uint_mono: "v \<le> w \<Longrightarrow> float_of_uint v \<le> float_of_uint w"
  unfolding float_of_uint_def by (intro float_round_mono) (simp only: of_nat_le_iff word_le_nat_alt)

lemma float_ratio_range:
  assumes "v \<le> w" "w \<noteq> 0"
  shows "0 \<le> fdiv (float_of_uint v) (float_of_uint w)" "fdiv (float_of_uint v) (float_of_uint w) \<le> 1"
proof -
  have w: "1 \<le> float_of_uint w" using assms(2) by (intro float_of_uint_ge_one) (simp add: unat_gt_0)
  have v: "0 \<le> float_of_uint v" unfolding float_of_uint_def by (intro float_round_nonneg) (rule of_nat_0_le_iff)
  show "0 \<le> fdiv (float_of_uint v) (float_of_uint w)"
    unfolding fdiv_def using v w by (intro float_round_nonneg) simp
  have "float_of_uint v / float_of_uint w \<le> 1" using float_of_uint_mono [OF assms(1)] w by simp
  then have "fdiv (float_of_uint v) (float_of_uint w) \<le> float_round (of_nat 1)"
    unfolding fdiv_def by (intro float_round_mono) simp
  also have "\<dots> = 1" by (subst float_round_of_nat) simp_all
  finally show "fdiv (float_of_uint v) (float_of_uint w) \<le> 1" .
qed

lemma float_ratio_self: "w \<noteq> 0 \<Longrightarrow> fdiv (float_of_uint w) (float_of_uint w) = 1"
  using float_of_uint_ge_one [of w] float_round_of_nat [of 1] by (simp add: fdiv_def unat_gt_0)

text \<open>The reported utilisation is a fraction as long as no more idle time than total time was
  counted.\<close>

theorem system_utilization_range:
  assumes "idle_time_accumulated s \<le> scheduler_ticks s * SCHEDULER_TIME_SLICE_US"
  shows "0 \<le> scheduler_get_system_utilization s \<and> scheduler_get_system_utilization s \<le> 1"
proof -
  have "scheduler_ticks s * SCHEDULER_TIME_SLICE_US - idle_time_accumulated s
      \<le> scheduler_ticks s * SCHEDULER_TIME_SLICE_US"
    using assms by (simp add: word_sub_le)
  then show ?thesis
    using float_ratio_range by (auto simp: scheduler_get_system_utilization_def Let_def)
qed

lemma round_counters:
  "scheduler_ticks (fst (round_body t c s)) = scheduler_ticks s + 1 \<and>
   idle_time_accumulated (fst (round_body t c s)) = idle_time_accumulated s"
proof -
  obtain s1 where s1: "s1 = s \<or> s1 = s\<lparr>last_deadline_check := t\<rparr>"
    and r: "fst (round_body t c s) =
       (let s2 = account_time t (context_switch t (select_next s1) s1)
        in s2\<lparr>last_tick_time := t, scheduler_ticks := scheduler_ticks s2 + 1\<rparr>)"
    by (rule round_pieces)
  show ?thesis using s1
    by (auto simp: r Let_def account_time_def context_switch_def update_pid_def)
qed

lemma ticks_time:
  assumes "0 < n" "n < 2 ^ 54"
  shows "word_of_nat n * SCHEDULER_TIME_SLICE_US \<noteq> 0"
proof -
  have "unat (word_of_nat n * SCHEDULER_TIME_SLICE_US) = n * 1000"
    using assms by (simp add: SCHEDULER_TIME_SLICE_US_def unat_word_ariths unat_of_nat)
  then show ?thesis using assms by auto
qed

text \<open>The scheduling loop never counts idle time.  A system whose processes are all in the state in
  which \<open>process_create\<close> leaves them is idle after its round, but reports a utilisation of
  100 percent.
\<close>

theorem idle_system_reports_full_load:
  assumes "all_created s" "idle_time_accumulated s = 0" "unat (scheduler_ticks s) + 1 < 2 ^ 54"
    and "rt_initialized s" "\<not> source_initialized tm (active_source tm)"
  shows "\<exists>logs s'. scheduler_start (Suc fuel) rounds (Suc n) s tm = Inr (map Sched_log logs @ [Dispatched s']) \<and>
    current_pid s' = SCHEDULER_IDLE_PID \<and> list_all (\<lambda>p. pcb_state p = PROCESS_STATE_CREATED) (active s') \<and>
    scheduler_get_system_utilization s' = 1"
proof -
  obtain s' logs where b: "round_body 0 0 s = (s', logs)" by (cases "round_body 0 0 s")
  have "word_of_nat (unat (scheduler_ticks s) + 1) = scheduler_ticks s + 1" by simp
  then have "(scheduler_ticks s + 1) * SCHEDULER_TIME_SLICE_US \<noteq> 0"
    using ticks_time [of "unat (scheduler_ticks s) + 1"] assms(3) by (simp add: add.commute)
  then have "scheduler_get_system_utilization s' = 1"
    using round_counters [of 0 0 s] assms(2)
    by (simp add: b scheduler_get_system_utilization_def float_ratio_self)
  moreover have "scheduler_start (Suc fuel) rounds (Suc n) s tm = Inr (map Sched_log logs @ [Dispatched s'])"
    using assms(4,5) by (simp add: b scheduler_start_def loop_outcome)
  ultimately show ?thesis
    using round_keeps_created [OF assms(1), of 0 0]
    by (auto simp: b all_created_def SCHEDULER_IDLE_PID_def)
qed

section \<open>Witnesses\<close>

lemma example_powf_accurate: "powf_accurate example_powf"
proof -
  have "\<bar>real_of_int \<lfloor>2 ^ 23 * x\<rfloor> / 2 ^ 23 - x\<bar> \<le> 1 / 2 ^ 16" for x :: real
  proof -
    have "real_of_int \<lfloor>2 ^ 23 * x\<rfloor> \<le> 2 ^ 23 * x" "2 ^ 23 * x < real_of_int \<lfloor>2 ^ 23 * x\<rfloor> + 1"
      by linarith+
    then show ?thesis by (simp add: abs_le_iff field_simps)
  qed
  then show ?thesis
    by (simp add: powf_accurate_def example_powf_def of_rat_divide of_rat_power)
qed

abbreviation half_load_params :: rt_scheduling_params_t where
  "half_load_params \<equiv> \<lparr>rt_period_ms = 10, rt_deadline_ms = 10, rt_worst_case_execution_time_us = 5000,
     rt_jitter_tolerance_us = 0\<rparr>"

lemma half_load_check: "scheduler_rt_feasibility_check example_powf (Some half_load_params) (snd (scheduler_init 0))"
  by (simp add: scheduler_rt_feasibility_check_def half_load_passes)

lemma init_table_ok: "table_ok (snd (scheduler_init t))" "process_count (snd (scheduler_init t)) = 0"
  by (simp_all add: table_ok_def scheduler_init_def)

lemma half_load_created:
  "process_create example_powf True PROCESS_PRIORITY_REALTIME (Some half_load_params) (snd (scheduler_init 0)) =
   (sched_ok, Some 1, snd (snd (process_create example_powf True PROCESS_PRIORITY_REALTIME
      (Some half_load_params) (snd (scheduler_init 0)))))"
  using half_load_check by (simp add: process_create_cases Let_def init_table_ok)

lemma admitted_tasks_meet_rms_bound_witness:
  "let s' = snd (snd (process_create example_powf True PROCESS_PRIORITY_REALTIME (Some half_load_params)
       (snd (scheduler_init 0))))
   in real_of_rat (exact_load (active s')) + 49 / 1000 \<le> exact_rms_bound (length (active s'))"
  unfolding Let_def
  by (rule admitted_tasks_meet_rms_bound [OF example_powf_accurate init_table_ok(1) half_load_created])
     (simp add: sched_ok_def system_error_create_def)

lemma feasible_tasks_are_admitted_witness:
  "fst (process_create example_powf True PROCESS_PRIORITY_REALTIME (Some half_load_params)
     (snd (scheduler_init 0))) = sched_ok"
proof (rule feasible_tasks_are_admitted [OF example_powf_accurate init_table_ok(1)])
  have "exact_rms_bound 1 = 1" by (simp add: exact_rms_bound_def)
  moreover have "load_with (snd (scheduler_init 0)) half_load_params = 1 / 2"
    by (simp add: load_with_def exact_load_def active_def scheduler_init_def exact_utilization_def of_rat_divide)
  ultimately show "load_with (snd (scheduler_init 0)) half_load_params + 51 / 1000
      \<le> exact_rms_bound (unat (process_count (snd (scheduler_init 0))) + 1)"
    by (simp add: init_table_ok)
qed (simp_all add: init_table_ok)

text \<open>A task that needs 5 ms of processor time within 1 ms is accepted.\<close>

lemma shorter_deadline_accepted_witness:
  "scheduler_rt_feasibility_check example_powf (Some (half_load_params\<lparr>rt_deadline_ms := 1\<rparr>)) (snd (scheduler_init 0))"
  by (rule shorter_deadline_accepted [OF half_load_check]) simp_all

lemma system_utilization_range_witness:
  "0 \<le> scheduler_get_system_utilization ((snd (scheduler_init 0))\<lparr>scheduler_ticks := 4, idle_time_accumulated := 1000\<rparr>) \<and>
   scheduler_get_system_utilization ((snd (scheduler_init 0))\<lparr>scheduler_ticks := 4, idle_time_accumulated := 1000\<rparr>) \<le> 1"
  by (rule system_utilization_range) (simp add: SCHEDULER_TIME_SLICE_US_def)

lemma idle_system_reports_full_load_witness:
  "\<exists>logs s'. scheduler_start 2 10 10 (snd (scheduler_init 0)) kernel_time_boot =
      Inr (map Sched_log logs @ [Dispatched s']) \<and>
    current_pid s' = SCHEDULER_IDLE_PID \<and> list_all (\<lambda>p. pcb_state p = PROCESS_STATE_CREATED) (active s') \<and>
    scheduler_get_system_utilization s' = 1"
proof -
  have "all_created (snd (scheduler_init 0))" by (rule reachable_all_created [OF reach_init])
  moreover have "idle_time_accumulated (snd (scheduler_init 0)) = 0"
    "unat (scheduler_ticks (snd (scheduler_init 0))) + 1 < 2 ^ 54" "rt_initialized (snd (scheduler_init 0))"
    "\<not> source_initialized kernel_time_boot (active_source kernel_time_boot)"
    by (simp_all add: scheduler_init_def kernel_time_boot_def)
  ultimately show ?thesis
    using idle_system_reports_full_load [of "snd (scheduler_init 0)" kernel_time_boot 1 10 9]
    by (simp add: numeral_2_eq_2)
qed

end
