(* ===== verification/Kernel_Preemption.thy ===== *)
theory Kernel_Preemption
  imports Log_Client Log_Parser Kernel_Interrupt
begin

text \<open>
  Interrupts in the middle of an operation.  An operation is a list of steps on its registers and
  the shared state, each with at most one access to a shared variable, in the order of the C
  statements; \<open>memcpy\<close> is one step for each byte, in an order that is a parameter.  An interrupt
  raised before step \<open>k\<close> runs a whole handler at the first position from there on at which
  interrupts are not masked; the handler can call the same operations (\<open>record_interrupt_latency\<close>
  logs through the log client).  \<open>interrupt_enter_critical_section\<close> and its counterparts are the
  empty functions of kernel/core/interrupt.c, and the log client has no critical sections at all.
  Nested interrupts are left out.
\<close>

section \<open>Steps and preemption\<close>

definition run_steps :: "('l \<times> 's \<Rightarrow> 'l \<times> 's) list \<Rightarrow> 'l \<times> 's \<Rightarrow> 'l \<times> 's" where
  "run_steps fs x = foldl (\<lambda>y f. f y) x fs"

definition preempted :: "('s \<Rightarrow> 's) \<Rightarrow> nat \<Rightarrow> ('l \<times> 's \<Rightarrow> 'l \<times> 's) list \<Rightarrow> 'l \<times> 's \<Rightarrow> 'l \<times> 's" where
  "preempted isr k fs x = run_steps (drop k fs) (apsnd isr (run_steps (take k fs) x))"

lemma run_steps_simps [simp]:
  "run_steps [] x = x" "run_steps (f # fs) x = run_steps fs (f x)"
  by (simp_all add: run_steps_def)

lemma run_steps_append: "run_steps (fs @ gs) x = run_steps gs (run_steps fs x)"
  by (simp add: run_steps_def)

text \<open>The general form: while interrupts are masked, the interrupt stays pending.\<close>

fun interruptible ::
  "('s \<Rightarrow> bool) \<Rightarrow> ('s \<Rightarrow> 's) \<Rightarrow> nat \<Rightarrow> ('l \<times> 's \<Rightarrow> 'l \<times> 's) list \<Rightarrow> 'l \<times> 's \<Rightarrow> 'l \<times> 's" where
  "interruptible masked isr 0 [] x = (if masked (snd x) then x else apsnd isr x)"
| "interruptible masked isr 0 (f # fs) x =
     (if masked (snd x) then interruptible masked isr 0 fs (f x) else run_steps (f # fs) (apsnd isr x))"
| "interruptible masked isr (Suc k) [] x = interruptible masked isr 0 [] x"
| "interruptible masked isr (Suc k) (f # fs) x = interruptible masked isr k fs (f x)"

lemma interruptible_unmasked:
  assumes "\<not> masked (snd (run_steps (take k fs) x))"
  shows "interruptible masked isr k fs x = preempted isr k fs x"
  using assms
proof (induction k arbitrary: fs x)
  case 0
  then show ?case by (cases fs) (simp_all add: preempted_def)
next
  case (Suc k)
  then show ?case by (cases fs) (simp_all add: preempted_def)
qed

text \<open>The contract of a step list: on the states of interest it does what the operation does.  Then
  an interrupt at either end is one call after the other.\<close>

locale stepwise_operation =
  fixes steps :: "('l \<times> 's \<Rightarrow> 'l \<times> 's) list"
    and operation :: "'s \<Rightarrow> 's"
    and valid :: "'s \<Rightarrow> bool"
  assumes refines: "valid s \<Longrightarrow> snd (run_steps steps (l, s)) = operation s"
begin

lemma interrupted_before: "valid (isr s) \<Longrightarrow> snd (preempted isr 0 steps (l, s)) = operation (isr s)"
  by (simp add: preempted_def refines)

lemma interrupted_after: "valid s \<Longrightarrow> length steps \<le> k \<Longrightarrow> snd (preempted isr k steps (l, s)) = isr (operation s)"
  by (simp add: preempted_def refines)

end

section \<open>The critical sections\<close>

text \<open>The state of the processor and the controller: whether interrupts are masked, and the
  controller's variables.  The three functions have empty bodies; nothing masks interrupts.\<close>

type_synonym irq_machine = "bool \<times> interrupt_controller"

definition interrupt_global_enable :: "irq_machine \<Rightarrow> irq_machine" where
  "interrupt_global_enable m = m"

definition interrupt_enter_critical_section :: "irq_machine \<Rightarrow> irq_machine" where
  "interrupt_enter_critical_section m = m"

definition interrupt_exit_critical_section :: "irq_machine \<Rightarrow> irq_machine" where
  "interrupt_exit_critical_section m = m"

section \<open>Storing into the early log buffer\<close>

text \<open>The registers of \<open>early_log_buffer_store\<close>: the outcome of the capacity test, and the value
  loaded last.\<close>

record early_regs =
  er_full :: bool
  er_reg :: u16

type_synonym early_step = "early_regs \<times> early_log_buffer_t \<Rightarrow> early_regs \<times> early_log_buffer_t"

definition test_capacity :: early_step where
  "test_capacity = (\<lambda>(r, b). (r\<lparr>er_full := EARLY_LOG_BUFFER_CAPACITY \<le> eb_count b\<rparr>, b))"

definition load_read_index :: early_step where
  "load_read_index = (\<lambda>(r, b). (if er_full r then r\<lparr>er_reg := eb_read_index b\<rparr> else r, b))"

definition store_read_index :: early_step where
  "store_read_index = (\<lambda>(r, b).
     (r, if er_full r then b\<lparr>eb_read_index := idx_next (er_reg r) EARLY_LOG_BUFFER_CAPACITY\<rparr> else b))"

definition load_count_if_full :: early_step where
  "load_count_if_full = (\<lambda>(r, b). (if er_full r then r\<lparr>er_reg := eb_count b\<rparr> else r, b))"

definition store_count_less :: early_step where
  "store_count_less = (\<lambda>(r, b). (r, if er_full r then b\<lparr>eb_count := er_reg r - 1\<rparr> else b))"

definition load_write_index :: early_step where
  "load_write_index = (\<lambda>(r, b). (r\<lparr>er_reg := eb_write_index b\<rparr>, b))"

text \<open>One byte of the \<open>memcpy\<close>.\<close>

definition set_byte :: "nat \<Rightarrow> u8 \<Rightarrow> log_entry_binary_t \<Rightarrow> log_entry_binary_t" where
  "set_byte i v x = entry_of_bytes ((entry_bytes x)[i := v])"

definition copy_byte :: "log_entry_binary_t \<Rightarrow> nat \<Rightarrow> early_step" where
  "copy_byte e i = (\<lambda>(r, b).
     (r, b\<lparr>eb_entries := (eb_entries b)
            [unat (er_reg r) := set_byte i (entry_bytes e ! i) (eb_entries b ! unat (er_reg r))]\<rparr>))"

text \<open>What the program relies on: \<open>memcpy\<close> copies each of the 20 bytes, in some order.\<close>

definition memcpy_order :: "nat list \<Rightarrow> bool" where
  "memcpy_order order \<longleftrightarrow> distinct order \<and> set order = {..<20}"

definition store_write_index :: early_step where
  "store_write_index = (\<lambda>(r, b). (r, b\<lparr>eb_write_index := idx_next (er_reg r) EARLY_LOG_BUFFER_CAPACITY\<rparr>))"

definition load_count :: early_step where
  "load_count = (\<lambda>(r, b). (r\<lparr>er_reg := eb_count b\<rparr>, b))"

definition store_count_more :: early_step where
  "store_count_more = (\<lambda>(r, b). (r, b\<lparr>eb_count := er_reg r + 1\<rparr>))"

definition before_copy :: "early_step list" where
  "before_copy = [test_capacity, load_read_index, store_read_index, load_count_if_full, store_count_less,
      load_write_index]"

definition after_copy :: "early_step list" where
  "after_copy = [load_write_index, store_write_index, load_count, store_count_more]"

lemma length_before_copy [simp]: "length before_copy = 6"
  by (simp add: before_copy_def)

definition store_steps :: "nat list \<Rightarrow> log_entry_binary_t \<Rightarrow> early_step list" where
  "store_steps order e = before_copy @ map (copy_byte e) order @ after_copy"

lemmas store_step_defs = test_capacity_def load_read_index_def store_read_index_def
  load_count_if_full_def store_count_less_def load_write_index_def
  store_write_index_def load_count_def store_count_more_def before_copy_def after_copy_def

lemma memcpy_order_length: "memcpy_order order \<Longrightarrow> length order = 20"
  using distinct_card [of order] by (simp add: memcpy_order_def)

lemma length_store_steps: "memcpy_order order \<Longrightarrow> length (store_steps order e) = 30"
  by (simp add: store_steps_def before_copy_def after_copy_def memcpy_order_length)

text \<open>The entry with some of its bytes from one entry and the others from another one.\<close>

definition splice_bytes :: "nat set \<Rightarrow> log_entry_binary_t \<Rightarrow> log_entry_binary_t \<Rightarrow> log_entry_binary_t" where
  "splice_bytes S e x = entry_of_bytes (map (\<lambda>i. if i \<in> S then entry_bytes e ! i else entry_bytes x ! i) [0..<20])"

lemma entry_bytes_splice_bytes:
  "entry_bytes (splice_bytes S e x) = map (\<lambda>i. if i \<in> S then entry_bytes e ! i else entry_bytes x ! i) [0..<20]"
  by (simp add: splice_bytes_def entry_bytes_of)

lemma bytes_entry: "map ((!) (entry_bytes e)) [0..<20] = entry_bytes e"
  using map_nth [of "entry_bytes e"] by simp

lemma splice_all: "{..<20} \<subseteq> S \<Longrightarrow> splice_bytes S e x = e"
proof -
  assume "{..<20} \<subseteq> S"
  then have "map (\<lambda>i. if i \<in> S then entry_bytes e ! i else entry_bytes x ! i) [0..<20] =
      map ((!) (entry_bytes e)) [0..<20]"
    by (intro map_cong) auto
  then show ?thesis by (simp only: splice_bytes_def bytes_entry entry_of_bytes_entry)
qed

lemma splice_none: "splice_bytes {} e x = x"
  by (simp add: splice_bytes_def bytes_entry entry_of_bytes_entry)

lemma splice_insert: "splice_bytes (insert i S) e x = splice_bytes S e (set_byte i (entry_bytes e ! i) x)"
proof -
  have "entry_bytes (set_byte i (entry_bytes e ! i) x) ! j = (if j = i then entry_bytes e ! j else entry_bytes x ! j)"
    if "j < 20" for j
    using that by (simp add: set_byte_def entry_bytes_of nth_list_update)
  then show ?thesis
    unfolding splice_bytes_def by (intro arg_cong [where f = entry_of_bytes] map_cong) auto
qed

text \<open>The bytes copied so far.\<close>

lemma run_copies:
  "run_steps (map (copy_byte e) is) (r, b) =
     (r, b\<lparr>eb_entries := (eb_entries b)
            [unat (er_reg r) := splice_bytes (set is) e (eb_entries b ! unat (er_reg r))]\<rparr>)"
proof (induction "is" arbitrary: b)
  case Nil
  then show ?case by (simp add: splice_none)
next
  case (Cons i "is")
  then show ?case
    by (cases "unat (er_reg r) < length (eb_entries b)")
       (simp_all add: copy_byte_def splice_insert list_update_beyond not_less)
qed

lemma run_copy_all:
  assumes "memcpy_order order"
  shows "run_steps (map (copy_byte e) order) (r, b) =
    (r, b\<lparr>eb_entries := (eb_entries b)[unat (er_reg r) := e]\<rparr>)"
  using assms by (simp add: run_copies memcpy_order_def splice_all)

text \<open>Uninterrupted, the steps are the operation.\<close>

lemma store_steps_refine:
  assumes "memcpy_order order"
  shows "snd (run_steps (store_steps order e) (r, b)) = early_store e b"
  by (simp add: store_steps_def run_steps_append run_copy_all [OF assms] store_step_defs early_store_def Let_def)

interpretation early_op: stepwise_operation "store_steps order e" "early_store e" "\<lambda>_. memcpy_order order"
    for order e
  by unfold_locales (rule store_steps_refine)

section \<open>An interrupt that logs while an entry is being stored\<close>

definition interrupted_store ::
  "nat list \<Rightarrow> nat \<Rightarrow> log_entry_binary_t \<Rightarrow> log_entry_binary_t \<Rightarrow> early_log_buffer_t \<Rightarrow> early_log_buffer_t" where
  "interrupted_store order k e2 e b =
     snd (preempted (early_store e2) k (store_steps order e) (\<lparr>er_full = False, er_reg = 0\<rparr>, b))"

text \<open>The slot after the next free one, whose old content a lost store exposes.\<close>

definition stale :: "early_log_buffer_t \<Rightarrow> log_entry_binary_t" where
  "stale b = eb_entries b ! ((unat (eb_write_index b) + 1) mod 32)"

text \<open>What the positions leave in the buffer when there is room for both entries.\<close>

lemma room_test:
  assumes "unat (eb_count b) < 31"
  shows "\<not> EARLY_LOG_BUFFER_CAPACITY \<le> eb_count b" "\<not> EARLY_LOG_BUFFER_CAPACITY \<le> eb_count b + 1"
  using assms unat_inc [of "eb_count b"] by (simp_all add: EARLY_LOG_BUFFER_CAPACITY_def word_le_nat_alt)

text \<open>An interrupt among the steps before, in and after the copy.\<close>

lemma preempted_before_copy:
  assumes "k \<le> 5"
  shows "preempted isr k (before_copy @ cs @ ds) x =
    run_steps ds (run_steps cs (preempted isr k before_copy x))"
  using assms by (simp add: preempted_def run_steps_append)

lemma preempted_in_copy:
  assumes "n \<le> length cs"
  shows "preempted isr (6 + n) (before_copy @ cs @ ds) x =
    run_steps ds (run_steps (drop n cs) (apsnd isr (run_steps (take n cs) (run_steps before_copy x))))"
  using assms by (simp add: preempted_def run_steps_append)

lemma preempted_after_copy:
  shows "preempted isr (6 + length cs + n) (before_copy @ cs @ ds) x =
    preempted isr n ds (run_steps cs (run_steps before_copy x))"
  by (simp add: preempted_def run_steps_append)

lemma interrupted_store_state:
  fixes b :: early_log_buffer_t
  assumes "unat (eb_count b) < 31" and order: "memcpy_order order" and len: "length (eb_entries b) = 32"
    and w32: "unat (eb_write_index b) < 32"
  defines "w \<equiv> eb_write_index b" and "w1 \<equiv> idx_next (eb_write_index b) EARLY_LOG_BUFFER_CAPACITY"
  defines "w2 \<equiv> idx_next w1 EARLY_LOG_BUFFER_CAPACITY"
  shows "k \<le> 5 \<Longrightarrow> interrupted_store order k e2 e b = early_store e (early_store e2 b)"
    and "n \<le> 20 \<Longrightarrow> interrupted_store order (6 + n) e2 e b =
      b\<lparr>eb_entries := (eb_entries b)[unat w := splice_bytes (set (drop n order)) e e2], eb_write_index := w2,
        eb_count := eb_count b + 2\<rparr>"
    and "interrupted_store order 27 e2 e b =
      b\<lparr>eb_entries := (eb_entries b)[unat w := e2], eb_write_index := w1, eb_count := eb_count b + 2\<rparr>"
    and "interrupted_store order 28 e2 e b = early_store e2 (early_store e b)"
    and "interrupted_store order 29 e2 e b =
      b\<lparr>eb_entries := (eb_entries b)[unat w := e, unat w1 := e2], eb_write_index := w2, eb_count := eb_count b + 1\<rparr>"
    and "30 \<le> k \<Longrightarrow> interrupted_store order k e2 e b = early_store e2 (early_store e b)"
proof -
  let ?r = "\<lparr>er_full = False, er_reg = 0\<rparr>"
  note room = room_test [OF assms(1)]
  note all = run_copy_all [OF order]
  have olen: "length order = 20" by (rule memcpy_order_length [OF order])
  show "interrupted_store order k e2 e b = early_store e (early_store e2 b)" if "k \<le> 5"
  proof -
    from that have "k \<in> {0, 1, 2, 3, 4, 5}" by auto
    then show ?thesis
      unfolding interrupted_store_def store_steps_def preempted_before_copy [OF that]
      by (elim insertE emptyE)
         (simp_all add: preempted_def store_step_defs all early_store_def Let_def room)
  qed
  show "interrupted_store order (6 + n) e2 e b =
      b\<lparr>eb_entries := (eb_entries b)[unat w := splice_bytes (set (drop n order)) e e2], eb_write_index := w2,
        eb_count := eb_count b + 2\<rparr>" if "n \<le> 20"
  proof -
    have "n \<le> length (map (copy_byte e) order)" using that olen by simp
    note p = preempted_in_copy [OF this, of "early_store e2" after_copy "(?r, b)"]
    show ?thesis
      unfolding interrupted_store_def store_steps_def p take_map drop_map
      using len w32 by (simp add: store_step_defs run_copies early_store_def Let_def room w_def w1_def w2_def)
  qed
  note p = preempted_after_copy [where cs = "map (copy_byte e) order" and ds = after_copy and x = "(?r, b)"
      and isr = "early_store e2", unfolded length_map olen]
  show "interrupted_store order 27 e2 e b =
      b\<lparr>eb_entries := (eb_entries b)[unat w := e2], eb_write_index := w1, eb_count := eb_count b + 2\<rparr>"
    unfolding interrupted_store_def store_steps_def p [of 1, simplified]
    by (simp add: preempted_def store_step_defs all early_store_def Let_def room w_def w1_def w2_def)
  show "interrupted_store order 28 e2 e b = early_store e2 (early_store e b)"
    unfolding interrupted_store_def store_steps_def p [of 2, simplified]
    by (simp add: preempted_def store_step_defs all early_store_def Let_def room w_def w1_def w2_def)
  show "interrupted_store order 29 e2 e b =
      b\<lparr>eb_entries := (eb_entries b)[unat w := e, unat w1 := e2], eb_write_index := w2, eb_count := eb_count b + 1\<rparr>"
    unfolding interrupted_store_def store_steps_def p [of 3, simplified]
    by (simp add: preempted_def store_step_defs all early_store_def Let_def room w_def w1_def w2_def)
  show "interrupted_store order k e2 e b = early_store e2 (early_store e b)" if "30 \<le> k"
    using that order by (simp add: interrupted_store_def early_op.interrupted_after length_store_steps)
qed

lemma mod_shift_neq:
  fixes m d n :: nat
  assumes "0 < d" "d < n"
  shows "(m + d) mod n \<noteq> m mod n"
proof
  assume "(m + d) mod n = m mod n"
  then have "n dvd d" using mod_eq_dvd_iff_nat [of m "m + d" n] by simp
  then show False using assms dvd_imp_le [of n d] by simp
qed

lemma ring_two_more:
  assumes "length xs = 32" "n < 31"
  shows "ring_view (xs[(r + n) mod 32 := x]) r (n + 2) = ring_view xs r n @ [x, xs ! ((r + n + 1) mod 32)]"
proof -
  have "(r + n + 1) mod 32 \<noteq> (r + n) mod 32" by (rule mod_shift_neq) simp_all
  then have "xs[(r + n) mod 32 := x] ! ((r + n + 1) mod 32) = xs ! ((r + n + 1) mod 32)" by simp
  moreover have "ring_view (xs[(r + n) mod 32 := x]) r (Suc n) = ring_view xs r n @ [x]"
    using ring_view_put [of n xs r x] assms by simp
  ultimately show ?thesis
    using assms ring_view_Suc [of "xs[(r + n) mod 32 := x]" r "Suc n"] by simp
qed

lemma ring_beyond:
  assumes "length xs = 32" "n < 31"
  shows "ring_view (xs[(r + n) mod 32 := x, (r + n + 1) mod 32 := y]) r (n + 1) = ring_view xs r n @ [x]"
proof -
  have ne: "(r + n + 1) mod 32 \<noteq> (r + i) mod 32" if "i < Suc n" for i
    using mod_shift_neq [of "n + 1 - i" 32 "r + i"] that assms(2) by simp
  have "ring_view (xs[(r + n) mod 32 := x, (r + n + 1) mod 32 := y]) r (Suc n) =
      ring_view (xs[(r + n) mod 32 := x]) r (Suc n)"
    unfolding ring_view_def using ne assms by (intro map_cong) auto
  also have "\<dots> = ring_view xs r n @ [x]" using ring_view_put [of n xs r x] assms by simp
  finally show ?thesis by simp
qed

text \<open>C8: An interrupt that logs while the interrupted code stores an entry into the early buffer
  (with room for both) loses entries at 23 of the 31 positions, whatever the order in which the
  bytes are copied.  Before the load of the write index for the copy, or between the update of the
  write index and the load of the count, both entries are recorded.  From the load to the end of the
  copy the two share a slot: it keeps the interrupt's bytes where the copy had already been and gets
  the interrupted entry's bytes elsewhere, so at either end of the copy one of the two is lost, and
  within it a mixture of both is recorded; an old entry of the buffer is recorded behind it.  After
  the second load of the write index the interrupted entry is lost, and after the load of the count
  the interrupt's entry is not counted; at these two positions the indices no longer agree with the
  count.
\<close>

theorem interrupted_store_outcome:
  assumes "memcpy_order order" "eb_invar b" "unat (eb_count b) < 31"
  shows "eb_view (interrupted_store order k e2 e b) = eb_view b @
      (if k \<le> 5 then [e2, e]
       else if k \<le> 26 then [splice_bytes (set (drop (k - 6) order)) e e2, stale b]
       else if k = 27 then [e2, stale b]
       else if k = 29 then [e]
       else [e, e2]) \<and>
    (eb_invar (interrupted_store order k e2 e b) \<longleftrightarrow> k \<noteq> 27 \<and> k \<noteq> 29)"
proof -
  let ?n = "unat (eb_count b)" and ?r = "unat (eb_read_index b)" and ?w = "unat (eb_write_index b)"
  have len: "length (eb_entries b) = 32" and r: "?r < 32" and w: "?w = (?r + ?n) mod 32" and init: "eb_initialized b"
    using assms(2) by (auto simp: eb_invar_def)
  have w32: "?w < 32" by (simp add: w)
  note st = interrupted_store_state [OF assms(3,1) len w32]
  have c1: "unat (eb_count b + 1) = ?n + 1" using assms(3) by (simp add: unat_inc)
  have c2: "unat (eb_count b + 2) = ?n + 2" using assms(3) by (simp add: unat_word_ariths)
  have two: "eb_invar (early_store y (early_store x b)) \<and>
      eb_view (early_store y (early_store x b)) = eb_view b @ [x, y]" for x y
  proof -
    have n1: "unat (eb_count (early_store x b)) < 32"
      using arg_cong [OF early_store_room(2) [OF assms(2), of x], of length] assms(3) by simp
    show ?thesis
      using early_store_room [OF assms(2), of x] early_store_room [OF _ n1, of y] assms(3) by simp
  qed
  have w1: "(?w + 1) mod 32 = (?r + ?n + 1) mod 32" "((?w + 1) mod 32 + 1) mod 32 = (?r + ?n + 2) mod 32"
    by (simp_all add: w mod_simps)
  have ne: "(?r + ?n + 1) mod 32 \<noteq> (?r + ?n + 2) mod 32"
    using mod_shift_neq [of 1 32 "?r + ?n + 1"] by simp
  note ring = ring_two_more [OF len assms(3), of ?r] ring_beyond [OF len assms(3), of ?r]
  consider "k \<le> 5" | "6 \<le> k" "k \<le> 26" | "k = 27" | "k = 28" | "k = 29" | "30 \<le> k" by linarith
  then show ?thesis
  proof cases
    case 1
    then show ?thesis using two by (simp add: st(1))
  next
    case 2
    note m = st(2) [of "k - 6" e2 e]
    show ?thesis
      using m 2 len r w init c2 w1 ring assms(3)
      by (simp add: eb_view_def eb_invar_def stale_def idx_next_32)
  next
    case 4
    then show ?thesis using two by (simp add: st(4))
  next
    case 6
    then show ?thesis using two by (simp add: st(6))
  qed (use len r w init c1 c2 w1 ne assms(3) ring in
    \<open>simp_all add: st eb_view_def eb_invar_def stale_def idx_next_32\<close>)
qed

definition empty_early_buffer :: early_log_buffer_t where
  "empty_early_buffer = zero_early_buffer\<lparr>eb_initialized := True\<rparr>"

definition example_entry :: "u32 \<Rightarrow> log_entry_binary_t" where
  "example_entry n = zero_entry\<lparr>le_data1 := n\<rparr>"

text \<open>Copying forwards and interrupted after 14 bytes, the recorded entry has the first data word of
  the interrupt's entry and the second one of the interrupted entry; its checksum is wrong.\<close>

abbreviation torn_entry :: log_entry_binary_t where
  "torn_entry \<equiv> (new_entry 0 0 2 1 17 1 1)\<lparr>le_data0 := 2\<rparr>"

lemma torn_entry_splice:
  "splice_bytes (set (drop 14 [0..<20])) (new_entry 0 0 2 1 17 1 1) (new_entry 0 0 2 1 17 2 2) = torn_entry"
  "error_code (log_verify_entry_integrity_safe (Some torn_entry)) \<noteq> ERR_BASE_OK"
  by code_simp+

lemma interrupted_store_outcome_witness:
  "eb_view (interrupted_store [0..<20] 20 (new_entry 0 0 2 1 17 2 2) (new_entry 0 0 2 1 17 1 1) empty_early_buffer) =
     [torn_entry, zero_entry] \<and>
   eb_view (interrupted_store [0..<20] 29 (example_entry 2) (example_entry 1) empty_early_buffer) = [example_entry 1]"
proof -
  have b: "memcpy_order [0..<20]" "eb_invar empty_early_buffer" "unat (eb_count empty_early_buffer) < 31"
    "eb_view empty_early_buffer = []" "stale empty_early_buffer = zero_entry"
    by (simp_all add: memcpy_order_def atLeast0LessThan empty_early_buffer_def zero_early_buffer_def
        eb_invar_def eb_view_def stale_def)
  have "eb_view (interrupted_store [0..<20] 20 (new_entry 0 0 2 1 17 2 2) (new_entry 0 0 2 1 17 1 1)
      empty_early_buffer) =
    [splice_bytes (set (drop 14 [0..<20])) (new_entry 0 0 2 1 17 1 1) (new_entry 0 0 2 1 17 2 2), zero_entry]"
    using interrupted_store_outcome [OF b(1-3), of 20 "new_entry 0 0 2 1 17 2 2" "new_entry 0 0 2 1 17 1 1"] b(4,5)
    by (simp del: drop_upt)
  moreover have "eb_view (interrupted_store [0..<20] 29 (example_entry 2) (example_entry 1) empty_early_buffer) =
      [example_entry 1]"
    using interrupted_store_outcome [OF b(1-3), of 29 "example_entry 2" "example_entry 1"] b(4) by simp
  ultimately show ?thesis by (simp only: torn_entry_splice simp_thms)
qed

section \<open>Registering a handler\<close>

text \<open>The steps of \<open>interrupt_register_handler\<close> after its checks; the registers hold the result and
  the log entries.\<close>

type_synonym irq_step =
  "(system_error \<times> log_call list) \<times> irq_machine \<Rightarrow> (system_error \<times> log_call list) \<times> irq_machine"

definition on_machine :: "(irq_machine \<Rightarrow> irq_machine) \<Rightarrow> irq_step" where
  "on_machine f = (\<lambda>(r, m). (r, f m))"

definition store_handler :: "u32 \<Rightarrow> nat option \<Rightarrow> irq_step" where
  "store_handler irq_number handler =
     on_machine (apsnd (\<lambda>ic. ic\<lparr>ic_handlers := (ic_handlers ic)[unat irq_number := handler]\<rparr>))"

definition store_context :: "u32 \<Rightarrow> nat \<Rightarrow> irq_step" where
  "store_context irq_number ctxt =
     on_machine (apsnd (\<lambda>ic. ic\<lparr>handler_contexts := (handler_contexts ic)[unat irq_number := ctxt]\<rparr>))"

definition set_priority_step :: "u32 \<Rightarrow> u32 \<Rightarrow> irq_step" where
  "set_priority_step irq_number priority = (\<lambda>(_, masked, ic).
     case interrupt_hw_set_priority irq_number priority ic of (error, ic1, logs) \<Rightarrow>
       ((if error_code error \<noteq> ERR_SYS_OK then error else irq_ok, logs), masked, ic1))"

definition register_steps :: "u32 \<Rightarrow> u32 \<Rightarrow> nat option \<Rightarrow> nat \<Rightarrow> irq_step list" where
  "register_steps irq_number priority handler ctxt =
     [on_machine interrupt_enter_critical_section, store_handler irq_number handler,
      store_context irq_number ctxt, set_priority_step irq_number priority,
      on_machine interrupt_exit_critical_section]"

lemmas register_step_defs = register_steps_def on_machine_def store_handler_def store_context_def
  set_priority_step_def interrupt_enter_critical_section_def interrupt_exit_critical_section_def

lemma register_steps_refine:
  assumes "ic_initialized ic" "unat irq_number < 32" "handler = Some h"
  shows "run_steps (register_steps irq_number priority handler ctxt) (r, masked, ic) =
    (case interrupt_register_handler irq_number priority handler ctxt ic of
       (error, ic1, logs) \<Rightarrow> ((error, logs), masked, ic1))"
  using assms
  by (cases "interrupt_hw_set_priority irq_number priority
        (ic\<lparr>ic_handlers := (ic_handlers ic)[unat irq_number := handler],
             handler_contexts := (handler_contexts ic)[unat irq_number := ctxt]\<rparr>)")
     (simp add: register_step_defs interrupt_register_handler_def INTERRUPT_MAX_HANDLERS_def Let_def)

interpretation register_op: stepwise_operation "register_steps irq_number priority (Some h) ctxt"
    "\<lambda>(masked, ic). (masked, fst (snd (interrupt_register_handler irq_number priority (Some h) ctxt ic)))"
    "\<lambda>(masked, ic). ic_initialized ic \<and> unat irq_number < 32"
    for irq_number priority h ctxt
  by unfold_locales (auto simp: register_steps_refine split: prod.splits)

text \<open>The call that an interrupt of the line makes: the handler and its context.\<close>

definition handler_call :: "u32 \<Rightarrow> interrupt_controller \<Rightarrow> (nat \<times> nat) option" where
  "handler_call irq_number ic =
     map_option (\<lambda>h. (h, handler_contexts ic ! unat irq_number)) (ic_handlers ic ! unat irq_number)"

lemma interrupt_runs_handler_call:
  assumes "ic_ok ic" "unat irq_number < 32"
  shows "interrupt_handler run irq_number (ic, tm) =
    (let ic1 = ic\<lparr>interrupt_counters := (interrupt_counters ic)[unat irq_number := interrupt_counters ic ! unat irq_number + 1]\<rparr>;
         (ic2, tm2) = (case handler_call irq_number ic of None \<Rightarrow> (ic1, tm)
                       | Some (h, c) \<Rightarrow> run h irq_number c (ic1, tm));
         (ic3, logs) = record_interrupt_latency irq_number (interrupt_get_hardware_timer_value tm) tm2 ic2
     in ((ic3, tm2), logs))"
  using assms
  by (simp add: interrupt_handler_def INTERRUPT_MAX_HANDLERS_def handler_call_def Let_def
      split: option.split)

text \<open>While a line gets a new handler, an interrupt of the line between the two stores runs the
  new handler with the context of the old one: the critical section around them does not keep
  interrupts out.  Before, the old pair runs; afterwards, the new one.
\<close>

theorem interrupt_sees_mixed_handler:
  assumes "ic_ok ic" "unat irq_number < 32" "handler = Some h"
    and "ic_initialized ic" "priority < INTERRUPT_PRIORITY_LEVELS"
  shows "case snd (run_steps (take k (register_steps irq_number priority handler ctxt)) (r, False, ic)) of
    (masked, ic') \<Rightarrow> \<not> masked \<and> handler_call irq_number ic' =
      (if k \<le> 1 then handler_call irq_number ic
       else if k = 2 then Some (h, handler_contexts ic ! unat irq_number)
       else Some (h, ctxt))"
proof -
  have len: "length (ic_handlers ic) = 32" "length (handler_contexts ic) = 32"
    using assms(1) by (auto simp: ic_ok_def)
  have p: "interrupt_hw_set_priority irq_number priority ic1 =
      (irq_ok, ic1\<lparr>interrupt_priorities := (interrupt_priorities ic1)[unat irq_number := priority]\<rparr>,
       [irq_log LOG_LEVEL_DEBUG LOG_MSG_INTERRUPT_PRIORITY_SET irq_number priority])" if "ic_initialized ic1" for ic1
    using that assms(2,5) by (simp add: interrupt_hw_set_priority_def INTERRUPT_MAX_HANDLERS_def not_le)
  consider "k = 0" | "k = 1" | "k = 2" | "k = 3" | "k = 4" | "5 \<le> k" by linarith
  then show ?thesis
    by cases (use assms(2-4) len p in \<open>simp_all add: register_step_defs handler_call_def\<close>)
qed

section \<open>Enabling a line\<close>

text \<open>The steps of \<open>interrupt_enable\<close> after its checks: \<open>enabled_irqs |= (1UL << irq_number)\<close> loads
  the mask, and stores it after the change.  The registers hold the error that is returned, the
  loaded mask and the log entries; the shared state has, beside the machine, what the handler's
  own call returned.\<close>

record enable_regs =
  en_error :: system_error
  en_mask :: u32
  en_logs :: "log_call list"

type_synonym enable_state = "irq_machine \<times> system_error option"

type_synonym enable_step = "enable_regs \<times> enable_state \<Rightarrow> enable_regs \<times> enable_state"

definition enter_section :: enable_step where
  "enter_section = (\<lambda>(r, m, q). (r, interrupt_enter_critical_section m, q))"

definition hw_enable_step :: "u32 \<Rightarrow> enable_step" where
  "hw_enable_step irq_number = (\<lambda>(r, s).
     case interrupt_hw_enable irq_number of (error, logs) \<Rightarrow> (r\<lparr>en_error := error, en_logs := logs\<rparr>, s))"

definition load_enabled :: enable_step where
  "load_enabled = (\<lambda>(r, (masked, ic), q).
     (if error_code (en_error r) = ERR_SYS_OK then r\<lparr>en_mask := enabled_irqs ic\<rparr> else r, (masked, ic), q))"

definition store_enabled :: "u32 \<Rightarrow> enable_step" where
  "store_enabled irq_number = (\<lambda>(r, (masked, ic), q).
     (r, (masked, if error_code (en_error r) = ERR_SYS_OK
                  then ic\<lparr>enabled_irqs := or (en_mask r) (push_bit (unat irq_number) 1)\<rparr> else ic), q))"

definition exit_section :: enable_step where
  "exit_section = (\<lambda>(r, m, q). (r, interrupt_exit_critical_section m, q))"

definition enable_steps :: "u32 \<Rightarrow> enable_step list" where
  "enable_steps irq_number =
     [enter_section, hw_enable_step irq_number, load_enabled, store_enabled irq_number, exit_section]"

lemmas enable_step_defs = enable_steps_def enter_section_def hw_enable_step_def load_enabled_def
  store_enabled_def exit_section_def interrupt_enter_critical_section_def interrupt_exit_critical_section_def

text \<open>The call in the handler.\<close>

definition enable_in_handler :: "u32 \<Rightarrow> enable_state \<Rightarrow> enable_state" where
  "enable_in_handler irq_number = (\<lambda>((masked, ic), q).
     case interrupt_enable irq_number ic of (error, ic1, logs) \<Rightarrow> ((masked, ic1), Some error))"

definition irq_masked :: "enable_state \<Rightarrow> bool" where
  "irq_masked s = fst (fst s)"

lemma bit_single: "bit (push_bit n 1 :: u32) m \<longleftrightarrow> m = n \<and> n < 32"
  by (auto simp: bit_push_bit_iff bit_1_iff simp del: push_bit_of_1)

lemma hw_enable_ok:
  assumes "unat irq_number < 32"
  shows "interrupt_hw_enable irq_number = (irq_ok, [irq_log LOG_LEVEL_DEBUG LOG_MSG_INTERRUPT_ENABLED irq_number 0])"
    "error_code irq_ok = ERR_SYS_OK"
  using assms by (simp_all add: interrupt_hw_enable_def INTERRUPT_MAX_HANDLERS_def irq_ok_def system_error_create_def)

lemma enable_call:
  assumes "ic_initialized ic" "unat irq_number < 32"
  shows "interrupt_enable irq_number ic =
    (irq_ok, ic\<lparr>enabled_irqs := or (enabled_irqs ic) (push_bit (unat irq_number) 1)\<rparr>,
     [irq_log LOG_LEVEL_DEBUG LOG_MSG_INTERRUPT_ENABLED irq_number 0])"
  using assms hw_enable_ok [OF assms(2)]
  by (simp add: interrupt_enable_def INTERRUPT_MAX_HANDLERS_def)

text \<open>Uninterrupted, the steps return and leave what \<open>interrupt_enable\<close> does.\<close>

lemma enable_steps_refine:
  assumes "ic_initialized ic" "unat irq_number < 32"
  shows "case run_steps (enable_steps irq_number) (r, (masked, ic), q) of (r', (masked', ic'), q') \<Rightarrow>
    (en_error r', ic', en_logs r') = interrupt_enable irq_number ic \<and> masked' = masked \<and> q' = q"
  using hw_enable_ok [OF assms(2)] by (simp add: enable_call [OF assms] enable_step_defs)

lemma enable_steps_state:
  assumes "ic_initialized ic" "unat irq_number < 32"
  shows "snd (run_steps (enable_steps irq_number) (r, (masked, ic), q)) =
    ((masked, fst (snd (interrupt_enable irq_number ic))), q)"
  using enable_steps_refine [OF assms, where r = r and masked = masked and q = q] by (auto simp: enable_call [OF assms])

interpretation enable_op: stepwise_operation "enable_steps irq_number"
    "\<lambda>((masked, ic), q). ((masked, fst (snd (interrupt_enable irq_number ic))), q)"
    "\<lambda>((masked, ic), q). ic_initialized ic \<and> unat irq_number < 32"
    for irq_number
  by unfold_locales (auto simp: enable_steps_state)

text \<open>C20: A line that an interrupt handler enables while the interrupted code enables another line
  is lost when the interrupt comes between the load and the store of the mask, and only then: both
  calls of \<open>interrupt_enable\<close> return success, but the bit of the handler's line is not in the mask.
  The critical section that surrounds the load and the store does not delay the interrupt.
\<close>

theorem interrupted_enable_loses_line:
  assumes "ic_initialized ic" "unat i < 32" "unat j < 32" "i \<noteq> j" "\<not> bit (enabled_irqs ic) (unat j)"
  shows "case interruptible irq_masked (enable_in_handler j) k (enable_steps i) (r, (False, ic), None) of
    (r', (masked, ic'), q) \<Rightarrow>
      error_code (en_error r') = ERR_SYS_OK \<and> q = Some irq_ok \<and> error_code irq_ok = ERR_SYS_OK \<and> \<not> masked \<and>
      bit (enabled_irqs ic') (unat i) \<and> (bit (enabled_irqs ic') (unat j) \<longleftrightarrow> k \<noteq> 3)"
proof -
  have ij: "unat i \<noteq> unat j" using assms(4) by (simp add: word_unat_eq_iff)
  note ok = hw_enable_ok [OF assms(2)] enable_call [OF _ assms(3)]
  have unmasked: "\<not> irq_masked (snd (run_steps (take k (enable_steps i)) (r, (False, ic), None)))"
    by (cases "k < 5")
       (use ok in \<open>auto simp: less_Suc_eq numeral_eq_Suc enable_step_defs irq_masked_def\<close>)
  note run = interruptible_unmasked [where masked = irq_masked, OF unmasked]
  consider "k = 0" | "k = 1" | "k = 2" | "k = 3" | "k = 4" | "5 \<le> k" by linarith
  then show ?thesis
    unfolding run
    by cases
      (use assms(1-3,5) ij ok in \<open>simp_all add: preempted_def enable_step_defs enable_in_handler_def
         bit_or_iff bit_single del: push_bit_of_1\<close>)
qed

section \<open>Witnesses\<close>

definition example_controller :: interrupt_controller where
  "example_controller = zero_controller\<lparr>ic_initialized := True,
     ic_handlers := (replicate 32 None)[5 := Some 100], handler_contexts := (replicate 32 0)[5 := 7]\<rparr>"

lemma example_controller_ok:
  "ic_ok example_controller" "ic_initialized example_controller" "enabled_irqs example_controller = 0"
  "handler_contexts example_controller ! 5 = 7"
  by (simp_all add: example_controller_def zero_controller_def ic_ok_def)

text \<open>Handler 200 with context 9 replaces handler 100 with context 7; the interrupt runs 200 with 7.\<close>

lemma interrupt_sees_mixed_handler_witness:
  "handler_call 5 (snd (snd (run_steps (take 2 (register_steps 5 1 (Some 200) 9))
     ((irq_ok, []), False, example_controller)))) = Some (200, 7)"
  using interrupt_sees_mixed_handler [OF example_controller_ok(1), of 5 "Some 200" 200 1 2 9 "(irq_ok, [])"]
    example_controller_ok
  by (simp add: INTERRUPT_PRIORITY_LEVELS_def split: prod.splits)

lemma interrupted_enable_loses_line_witness:
  "case interruptible irq_masked (enable_in_handler 4) 3 (enable_steps 3)
      (\<lparr>en_error = irq_ok, en_mask = 0, en_logs = []\<rparr>, (False, example_controller), None) of
    (r', (masked, ic'), q) \<Rightarrow>
      error_code (en_error r') = ERR_SYS_OK \<and> q = Some irq_ok \<and> error_code irq_ok = ERR_SYS_OK \<and> \<not> masked \<and>
      bit (enabled_irqs ic') (unat (3 :: u32)) \<and> (bit (enabled_irqs ic') (unat (4 :: u32)) \<longleftrightarrow> 3 \<noteq> (3 :: nat))"
  by (rule interrupted_enable_loses_line) (simp_all add: example_controller_ok)

end
