(* ===== verification/Alloc_Preemption.thy ===== *)
theory Alloc_Preemption
  imports Kernel_Preemption Kernel_Ipc
begin

text \<open>
  Interrupts in the middle of an allocation: the pool allocator of kernel/core/memory.c and the
  shared buffer of kernel/core/ipc.c, whose handlers allocate as well (a handler that publishes
  a large message does).  Neither file takes a lock or disables interrupts.  The shared state is
  extended by what the interrupt received.
\<close>

section \<open>The steps of memory_pool_alloc\<close>

record alloc_regs =
  ar_active :: bool
  ar_index :: nat
  ar_byte :: u8
  ar_count :: u16
  ar_result :: "nat option"

type_synonym alloc_state = "memory_state \<times> nat option"
type_synonym alloc_step = "alloc_regs \<times> alloc_state \<Rightarrow> alloc_regs \<times> alloc_state"

text \<open>A step of the code after the tests have succeeded; \<open>f\<close> gets the registers, the pool and the
  heap.\<close>

definition when_active ::
  "nat \<Rightarrow> (alloc_regs \<Rightarrow> memory_pool_t \<Rightarrow> (nat \<Rightarrow> u8) \<Rightarrow> alloc_regs \<times> memory_pool_t \<times> (nat \<Rightarrow> u8)) \<Rightarrow> alloc_step" where
  "when_active k f = (\<lambda>(r, s, q).
     if ar_active r then
       (case f r (g_memory_pools s ! k) (g_kernel_heap s) of
          (r', p', h') \<Rightarrow>
            (r', s\<lparr>g_memory_pools := (g_memory_pools s)[k := p'], g_kernel_heap := h'\<rparr>, q))
     else (r, s, q))"

definition test_free_count :: "nat \<Rightarrow> alloc_step" where
  "test_free_count k = (\<lambda>(r, s, q). (r\<lparr>ar_active := mp_free_count (g_memory_pools s ! k) \<noteq> 0\<rparr>, s, q))"

text \<open>The search is one step: an interrupt that allocates takes the first free block, which the
  search, wherever it is, finds taken or has not reached, as if the interrupt had come before it.\<close>

definition search_block :: "nat \<Rightarrow> alloc_step" where
  "search_block k = when_active k (\<lambda>r p h.
     case find (block_free p h) [0..<unat (mp_block_count p)] of
       None \<Rightarrow> (r\<lparr>ar_active := False\<rparr>, p, h)
     | Some i \<Rightarrow> (r\<lparr>ar_index := i\<rparr>, p, h))"

definition load_bitmap :: "nat \<Rightarrow> alloc_step" where
  "load_bitmap k = when_active k (\<lambda>r p h. (r\<lparr>ar_byte := h (bitmap_byte p (ar_index r))\<rparr>, p, h))"

definition store_bitmap :: "nat \<Rightarrow> alloc_step" where
  "store_bitmap k = when_active k (\<lambda>r p h.
     (r, p, h(bitmap_byte p (ar_index r) := and (ar_byte r) (not (push_bit (ar_index r mod 8) 1)))))"

definition load_free_count :: "nat \<Rightarrow> alloc_step" where
  "load_free_count k = when_active k (\<lambda>r p h. (r\<lparr>ar_count := mp_free_count p\<rparr>, p, h))"

definition store_free_count :: "nat \<Rightarrow> alloc_step" where
  "store_free_count k = when_active k (\<lambda>r p h. (r, p\<lparr>mp_free_count := ar_count r - 1\<rparr>, h))"

definition load_allocation_count :: "nat \<Rightarrow> alloc_step" where
  "load_allocation_count k = when_active k (\<lambda>r p h. (r\<lparr>ar_count := mp_allocation_count p\<rparr>, p, h))"

definition store_allocation_count :: "nat \<Rightarrow> alloc_step" where
  "store_allocation_count k = when_active k (\<lambda>r p h. (r, p\<lparr>mp_allocation_count := ar_count r + 1\<rparr>, h))"

definition return_block :: "nat \<Rightarrow> alloc_step" where
  "return_block k = when_active k (\<lambda>r p h.
     (r\<lparr>ar_result := Some (mp_base_address p + ar_index r * unat (mp_block_size p))\<rparr>, p, h))"

definition alloc_steps :: "nat \<Rightarrow> alloc_step list" where
  "alloc_steps k =
     [test_free_count k, search_block k, load_bitmap k, store_bitmap k, load_free_count k,
      store_free_count k, load_allocation_count k, store_allocation_count k, return_block k]"

lemmas alloc_step_defs = test_free_count_def search_block_def load_bitmap_def store_bitmap_def
  load_free_count_def store_free_count_def load_allocation_count_def store_allocation_count_def
  return_block_def when_active_def

lemma bitmap_byte_counts [simp]:
  "bitmap_byte (p\<lparr>mp_free_count := c\<rparr>) i = bitmap_byte p i"
  "bitmap_byte (p\<lparr>mp_allocation_count := c\<rparr>) i = bitmap_byte p i"
  by (simp_all add: bitmap_byte_def)

definition alloc_regs_start :: alloc_regs where
  "alloc_regs_start = \<lparr>ar_active = False, ar_index = 0, ar_byte = 0, ar_count = 0, ar_result = None\<rparr>"

lemma alloc_steps_refine:
  assumes "k < length (g_memory_pools s)" "ar_result r = None"
  shows "case run_steps (alloc_steps k) (r, s, q) of (r', s', q') \<Rightarrow>
    (ar_result r', s') = memory_pool_alloc k s \<and> q' = q"
proof (cases "mp_free_count (g_memory_pools s ! k) = 0")
  case True
  then show ?thesis using assms
    by (simp add: alloc_steps_def alloc_step_defs memory_pool_alloc_def Let_def)
next
  case False
  show ?thesis
  proof (cases "find (block_free (g_memory_pools s ! k) (g_kernel_heap s))
      [0..<unat (mp_block_count (g_memory_pools s ! k))]")
    case None
    with False show ?thesis using assms
      by (simp add: alloc_steps_def alloc_step_defs memory_pool_alloc_def Let_def)
  next
    case (Some i)
    with False show ?thesis using assms
      by (simp add: alloc_steps_def alloc_step_defs memory_pool_alloc_def Let_def)
  qed
qed

lemma alloc_steps_state:
  assumes "k < length (g_memory_pools s)"
  shows "snd (run_steps (alloc_steps k) (r, s, q)) = (snd (memory_pool_alloc k s), q)"
proof (cases "mp_free_count (g_memory_pools s ! k) = 0")
  case False
  then show ?thesis using assms
    by (cases "find (block_free (g_memory_pools s ! k) (g_kernel_heap s))
          [0..<unat (mp_block_count (g_memory_pools s ! k))]")
       (simp_all add: alloc_steps_def alloc_step_defs memory_pool_alloc_def Let_def)
qed (simp add: alloc_steps_def alloc_step_defs memory_pool_alloc_def Let_def)

interpretation alloc_op: stepwise_operation "alloc_steps k" "\<lambda>(s, q). (snd (memory_pool_alloc k s), q)"
    "\<lambda>(s, q). k < length (g_memory_pools s)"
    for k
  by unfold_locales (auto simp: alloc_steps_state)

section \<open>An interrupt that allocates from the same pool\<close>

definition interrupt_alloc :: "nat \<Rightarrow> alloc_state \<Rightarrow> alloc_state" where
  "interrupt_alloc k = (\<lambda>(s, q). case memory_pool_alloc k s of (ptr, s') \<Rightarrow> (s', ptr))"

definition interrupted_alloc :: "nat \<Rightarrow> nat \<Rightarrow> memory_state \<Rightarrow> nat option \<times> nat option" where
  "interrupted_alloc k pos s =
     (case preempted (interrupt_alloc k) pos (alloc_steps k) (alloc_regs_start, s, None) of
        (r, _, q) \<Rightarrow> (ar_result r, q))"

text \<open>The part of a pool that an allocation leaves alone.\<close>

definition pool_frame :: "nat \<Rightarrow> memory_state \<Rightarrow> nat \<times> u64 \<times> u16 \<times> nat" where
  "pool_frame k s = (let p = g_memory_pools s ! k in
     (mp_base_address p, mp_block_size p, mp_block_count p, mp_free_list p))"

lemma pool_frame_eq:
  assumes "pool_frame k s' = pool_frame k s"
  shows "mp_base_address (g_memory_pools s' ! k) = mp_base_address (g_memory_pools s ! k)"
    "mp_block_size (g_memory_pools s' ! k) = mp_block_size (g_memory_pools s ! k)"
  using assms by (simp_all add: pool_frame_def Let_def)

lemma free_blocks_frame:
  "pool_frame k s' = pool_frame k s \<Longrightarrow> g_kernel_heap s' = g_kernel_heap s \<Longrightarrow> free_blocks s' k = free_blocks s k"
  by (simp add: pool_frame_def Let_def free_blocks_def block_free_def bitmap_byte_def)

lemma pool_alloc_frame:
  "k < length (g_memory_pools s) \<Longrightarrow> pool_frame k (snd (memory_pool_alloc k s)) = pool_frame k s"
  "length (g_memory_pools (snd (memory_pool_alloc k s))) = length (g_memory_pools s)"
  by (simp_all add: memory_pool_alloc_def pool_frame_def Let_def split: option.split)

lemma pool_alloc_result:
  assumes "mp_free_count (g_memory_pools s ! k) \<noteq> 0" "free_blocks s k \<noteq> {}"
  shows "fst (memory_pool_alloc k s) =
    Some (mp_base_address (g_memory_pools s ! k) + (LEAST i. i \<in> free_blocks s k) * unat (mp_block_size (g_memory_pools s ! k)))"
  using assms find_free_block [of s k] by (simp add: memory_pool_alloc_def Let_def)

text \<open>The rest of the operation after the search returns the block that the search found.\<close>

lemma suffix_result:
  assumes "ar_active r" "k < length (g_memory_pools s)" "2 \<le> pos" "pos \<le> 8"
  shows "case run_steps (drop pos (alloc_steps k)) (r, s, q) of (r', s', q') \<Rightarrow>
    ar_result r' = Some (mp_base_address (g_memory_pools s ! k) +
                         ar_index r * unat (mp_block_size (g_memory_pools s ! k))) \<and> q' = q"
proof -
  from assms(3,4) have "pos \<in> {2, 3, 4, 5, 6, 7, 8}" by auto
  then show ?thesis
    by (elim insertE emptyE) (use assms(1,2) in \<open>simp_all add: alloc_steps_def alloc_step_defs\<close>)
qed

lemma prefix_state:
  assumes "find (block_free (g_memory_pools s ! k) (g_kernel_heap s))
      [0..<unat (mp_block_count (g_memory_pools s ! k))] = Some i"
    and "mp_free_count (g_memory_pools s ! k) \<noteq> 0" "k < length (g_memory_pools s)" "2 \<le> pos" "pos \<le> 8"
  shows "case run_steps (take pos (alloc_steps k)) (alloc_regs_start, s, None) of (r, s', q) \<Rightarrow>
    ar_active r \<and> ar_index r = i \<and> pool_frame k s' = pool_frame k s \<and>
    length (g_memory_pools s') = length (g_memory_pools s) \<and>
    g_kernel_heap s' = g_kernel_heap (if pos \<le> 3 then s else taken k i s) \<and>
    mp_free_count (g_memory_pools s' ! k) = mp_free_count (g_memory_pools s ! k) - (if pos \<le> 5 then 0 else 1)"
proof -
  from assms(4,5) have "pos \<in> {2, 3, 4, 5, 6, 7, 8}" by auto
  then show ?thesis
    by (elim insertE emptyE)
       (use assms(1-3) in \<open>simp_all add: alloc_steps_def alloc_step_defs pool_frame_def Let_def taken_def\<close>)
qed

text \<open>An interrupt between the search and the store of the bitmap is given the same block.\<close>

lemma inner_interrupt:
  assumes inv: "mem_invar s" and k: "k < 8" and two: "2 \<le> card (free_blocks s k)"
    and pos: "2 \<le> pos" "pos \<le> 8"
  defines "i \<equiv> LEAST i. i \<in> free_blocks s k"
  shows "interrupted_alloc k pos s =
    (Some (block_start k i),
     Some (block_start k (if pos \<le> 3 then i else LEAST j. j \<in> free_blocks s k - {i})))"
proof -
  have ne: "free_blocks s k \<noteq> {}" using two by auto
  then have i: "i \<in> free_blocks s k" unfolding i_def by (rule LeastI_ex [OF iffD2 [OF ex_in_conv]])
  have f: "find (block_free (g_memory_pools s ! k) (g_kernel_heap s))
      [0..<unat (mp_block_count (g_memory_pools s ! k))] = Some i"
    using find_free_block [of s k] ne by (simp add: i_def)
  have c: "2 \<le> unat (mp_free_count (g_memory_pools s ! k))" using invar_pool(5) [OF inv k] two by simp
  then have c0: "mp_free_count (g_memory_pools s ! k) \<noteq> 0" by auto
  have len: "k < length (g_memory_pools s)" using invar_pool(7) [OF inv k] k by simp
  have ne2: "free_blocks s k - {i} \<noteq> {}"
  proof
    assume "free_blocks s k - {i} = {}"
    then have "card (free_blocks s k) \<le> card {i}" by (intro card_mono) auto
    with two show False by simp
  qed
  obtain r s' q where run: "run_steps (take pos (alloc_steps k)) (alloc_regs_start, s, None) = (r, s', q)"
    by (metis prod_cases3)
  have st: "ar_active r" "ar_index r = i" "pool_frame k s' = pool_frame k s"
    "length (g_memory_pools s') = length (g_memory_pools s)"
    "g_kernel_heap s' = g_kernel_heap (if pos \<le> 3 then s else taken k i s)"
    "mp_free_count (g_memory_pools s' ! k) = mp_free_count (g_memory_pools s ! k) - (if pos \<le> 5 then 0 else 1)"
    using prefix_state [OF f c0 len pos] run by auto
  have "pool_frame k (taken k i s) = pool_frame k s"
    using len by (simp add: pool_frame_def taken_def Let_def)
  then have fb: "free_blocks s' k = (if pos \<le> 3 then free_blocks s k else free_blocks s k - {i})"
    using free_blocks_frame [of k s' s] free_blocks_frame [of k s' "taken k i s"] st(3,5)
      taken_free_blocks [OF inv k i k] by simp
  have c1: "mp_free_count (g_memory_pools s' ! k) \<noteq> 0"
  proof
    assume "mp_free_count (g_memory_pools s' ! k) = 0"
    then have "mp_free_count (g_memory_pools s ! k) = (if pos \<le> 5 then 0 else 1)" using st(6) by (simp split: if_splits)
    with c show False by (simp split: if_splits)
  qed
  have base: "mp_base_address (g_memory_pools s' ! k) + n * unat (mp_block_size (g_memory_pools s' ! k)) = block_start k n" for n
    using pool_frame_eq [OF st(3)] invar_pool(1,2) [OF inv k] by (simp add: block_start_def block_len_def)
  have q: "fst (memory_pool_alloc k s') = Some (block_start k (if pos \<le> 3 then i else LEAST j. j \<in> free_blocks s k - {i}))"
    using pool_alloc_result [OF c1] fb ne ne2 base by (simp add: i_def)
  have f2: "pool_frame k (snd (memory_pool_alloc k s')) = pool_frame k s'"
    "k < length (g_memory_pools (snd (memory_pool_alloc k s')))"
    using pool_alloc_frame st(4) len by auto
  obtain r' s'' q' where run2: "run_steps (drop pos (alloc_steps k))
      (r, snd (memory_pool_alloc k s'), fst (memory_pool_alloc k s')) = (r', s'', q')"
    by (metis prod_cases3)
  have "ar_result r' = Some (block_start k i) \<and> q' = fst (memory_pool_alloc k s')"
    using suffix_result [OF st(1) f2(2) pos, of "fst (memory_pool_alloc k s')"] run2 pool_frame_eq [OF f2(1)] base st(2)
    by simp
  then show ?thesis
    using run run2 q by (simp add: interrupted_alloc_def preempted_def interrupt_alloc_def split_def)
qed

lemma two_allocations:
  assumes inv: "mem_invar s" and k: "k < 8" and two: "2 \<le> card (free_blocks s k)"
  defines "i \<equiv> LEAST i. i \<in> free_blocks s k"
  defines "j \<equiv> LEAST j. j \<in> free_blocks s k - {i}"
  shows "memory_pool_alloc k s = (Some (block_start k i), taken k i s)"
    and "fst (memory_pool_alloc k (taken k i s)) = Some (block_start k j)"
    and "i \<in> free_blocks s k" "j \<in> free_blocks s k" "i \<noteq> j"
    and "mp_free_count (g_memory_pools s ! k) \<noteq> 0" "mp_free_count (g_memory_pools (taken k i s) ! k) \<noteq> 0"
    and "k < length (g_memory_pools s)" "k < length (g_memory_pools (taken k i s))"
proof -
  have ne: "free_blocks s k \<noteq> {}" using two by auto
  then show i: "i \<in> free_blocks s k" unfolding i_def by (rule LeastI_ex [OF iffD2 [OF ex_in_conv]])
  have fb: "free_blocks (taken k i s) k = free_blocks s k - {i}" using taken_free_blocks [OF inv k i k] by simp
  have card: "card (free_blocks s k - {i}) = card (free_blocks s k) - 1" using i by simp
  then have ne2: "free_blocks s k - {i} \<noteq> {}" using two by (metis Suc_1 card.empty diff_is_0_eq not_less_eq_eq)
  then have j: "j \<in> free_blocks s k - {i}" unfolding j_def by (rule LeastI_ex [OF iffD2 [OF ex_in_conv]])
  then show "j \<in> free_blocks s k" "i \<noteq> j" by auto
  note inv1 = taken_invar [OF inv k i]
  show "memory_pool_alloc k s = (Some (block_start k i), taken k i s)"
    using pool_alloc_eq [OF inv k] ne by (simp add: i_def Let_def)
  show "fst (memory_pool_alloc k (taken k i s)) = Some (block_start k j)"
    using pool_alloc_eq [OF inv1 k] ne2 by (simp add: fb j_def Let_def)
  show "mp_free_count (g_memory_pools s ! k) \<noteq> 0" using invar_pool(5) [OF inv k] two by auto
  show "mp_free_count (g_memory_pools (taken k i s) ! k) \<noteq> 0"
    using invar_pool(5) [OF inv1 k] two by (auto simp: fb card)
  show "k < length (g_memory_pools s)" "k < length (g_memory_pools (taken k i s))"
    using invar_pool(7) [OF inv k] invar_pool(7) [OF inv1 k] k by simp_all
qed

lemma outer_interrupt:
  assumes inv: "mem_invar s" and k: "k < 8" and two: "2 \<le> card (free_blocks s k)"
    and pos: "pos \<le> 1 \<or> 9 \<le> pos"
  defines "i \<equiv> LEAST i. i \<in> free_blocks s k"
  defines "j \<equiv> LEAST j. j \<in> free_blocks s k - {i}"
  shows "interrupted_alloc k pos s =
    (if pos \<le> 1 then (Some (block_start k j), Some (block_start k i))
     else (Some (block_start k i), Some (block_start k j)))"
proof -
  note t = two_allocations [OF inv k two, folded i_def, folded j_def]
  have start: "ar_result alloc_regs_start = None" by (simp add: alloc_regs_start_def)
  show ?thesis
  proof (cases "9 \<le> pos")
    case True
    obtain r s' q where run: "run_steps (alloc_steps k) (alloc_regs_start, s, None) = (r, s', q)"
      by (metis prod_cases3)
    then have "ar_result r = Some (block_start k i)" "s' = taken k i s"
      using alloc_steps_refine [OF t(8) start, of None] t(1) by auto
    moreover have "length (alloc_steps k) = 9" by (simp add: alloc_steps_def)
    ultimately show ?thesis using True run t(2)
      by (simp add: interrupted_alloc_def preempted_def interrupt_alloc_def split_def)
  next
    case False
    with pos have "pos = 0 \<or> pos = 1" by auto
    let ?r = "if pos = 0 then alloc_regs_start else alloc_regs_start\<lparr>ar_active := True\<rparr>"
    obtain r s' q where run: "run_steps (alloc_steps k) (alloc_regs_start, taken k i s, Some (block_start k i)) = (r, s', q)"
      by (metis prod_cases3)
    then have eq: "(ar_result r, s') = memory_pool_alloc k (taken k i s)" "q = Some (block_start k i)"
      using alloc_steps_refine [OF t(9) start, of "Some (block_start k i)"] by auto
    then have res: "ar_result r = Some (block_start k j)" "q = Some (block_start k i)"
      using t(2) unfolding eq(1) [symmetric] by simp_all
    have "preempted (interrupt_alloc k) pos (alloc_steps k) (alloc_regs_start, s, None) =
        run_steps (alloc_steps k) (alloc_regs_start, taken k i s, Some (block_start k i))"
      using \<open>pos = 0 \<or> pos = 1\<close> t(1,6,7)
      by (elim disjE) (simp_all add: preempted_def alloc_steps_def test_free_count_def interrupt_alloc_def)
    moreover have "pos \<le> 1" using \<open>pos = 0 \<or> pos = 1\<close> by auto
    ultimately show ?thesis using run res by (simp add: interrupted_alloc_def)
  qed
qed

text \<open>C9: An interrupt that allocates from the pool from which the interrupted code is allocating is
  given the very same block when it arrives between the search and the store of the bitmap: two
  owners of one block.  At every other position the two blocks differ.
\<close>

theorem interrupted_alloc_shares_block:
  assumes "mem_invar s" "k < 8" "2 \<le> card (free_blocks s k)"
  shows "\<exists>i \<in> free_blocks s k. \<exists>j \<in> free_blocks s k.
    interrupted_alloc k pos s = (Some (block_start k i), Some (block_start k j)) \<and>
    (i = j \<longleftrightarrow> pos = 2 \<or> pos = 3)"
proof -
  let ?i = "LEAST i. i \<in> free_blocks s k"
  let ?j = "LEAST j. j \<in> free_blocks s k - {?i}"
  note t = two_allocations [OF assms]
  consider "pos \<le> 1" | "pos = 2 \<or> pos = 3" | "4 \<le> pos" "pos \<le> 8" | "9 \<le> pos" by linarith
  then show ?thesis
  proof cases
    case 1
    then show ?thesis using outer_interrupt [OF assms, of pos] t(3-5)
      by (intro bexI [of _ ?j] bexI [of _ ?i]) auto
  next
    case 2
    then show ?thesis using inner_interrupt [OF assms, of pos] t(3)
      by (intro bexI [of _ ?i]) auto
  next
    case 3
    then show ?thesis using inner_interrupt [OF assms, of pos] t(3-5)
      by (intro bexI [of _ ?i] bexI [of _ ?j]) auto
  next
    case 4
    then show ?thesis using outer_interrupt [OF assms, of pos] t(3-5)
      by (intro bexI [of _ ?i] bexI [of _ ?j]) auto
  qed
qed

lemma interrupted_alloc_shares_block_witness:
  "\<exists>i \<in> free_blocks memory_ready 0. \<exists>j \<in> free_blocks memory_ready 0.
    interrupted_alloc 0 3 memory_ready = (Some (block_start 0 i), Some (block_start 0 j)) \<and>
    (i = j \<longleftrightarrow> 3 = (2 :: nat) \<or> 3 = (3 :: nat))"
  by (rule interrupted_alloc_shares_block) (simp_all add: ready_invar ready_free_blocks pool_blocks_def pool_layout_def)

section \<open>The shared buffer\<close>

text \<open>\<open>ipc_alloc_shared_buffer\<close> after its checks of the arguments: the capacity test, the address, the
  identifier, the new use mark and the watermark.  The register \<open>sr_fits\<close> is the outcome of the
  test.\<close>

record share_regs =
  sr_fits :: bool
  sr_word :: u32
  sr_offset :: u32
  sr_id :: u32

type_synonym share_state = "ipc_shared_buffer \<times> (u32 \<times> u32) option"
type_synonym share_step = "share_regs \<times> share_state \<Rightarrow> share_regs \<times> share_state"

definition when_fits ::
  "(share_regs \<Rightarrow> ipc_shared_buffer \<Rightarrow> share_regs \<times> ipc_shared_buffer) \<Rightarrow> share_step" where
  "when_fits f = (\<lambda>(r, b, q). if sr_fits r then (case f r b of (r', b') \<Rightarrow> (r', b', q)) else (r, b, q))"

definition test_space :: "u32 \<Rightarrow> share_step" where
  "test_space sz = (\<lambda>(r, b, q). (r\<lparr>sr_fits := \<not> sh_size b < sh_used b + sz\<rparr>, b, q))"

definition take_address :: share_step where
  "take_address = when_fits (\<lambda>r b. (r\<lparr>sr_offset := sh_used b\<rparr>, b))"

definition load_id :: share_step where
  "load_id = when_fits (\<lambda>r b. (r\<lparr>sr_id := sh_allocation_count b\<rparr>, b))"

definition store_next_id :: share_step where
  "store_next_id = when_fits (\<lambda>r b. (r, b\<lparr>sh_allocation_count := sr_id r + 1\<rparr>))"

definition load_used :: share_step where
  "load_used = when_fits (\<lambda>r b. (r\<lparr>sr_word := sh_used b\<rparr>, b))"

definition store_used :: "u32 \<Rightarrow> share_step" where
  "store_used sz = when_fits (\<lambda>r b. (r, b\<lparr>sh_used := sr_word r + sz\<rparr>))"

definition update_watermark :: share_step where
  "update_watermark = when_fits (\<lambda>r b.
     (r, b\<lparr>sh_watermark := (if sh_watermark b < sh_used b then sh_used b else sh_watermark b)\<rparr>))"

definition share_steps :: "u32 \<Rightarrow> share_step list" where
  "share_steps sz =
     [test_space sz, take_address, load_id, store_next_id, load_used, store_used sz, update_watermark]"

lemmas share_step_defs = when_fits_def test_space_def take_address_def load_id_def store_next_id_def
  load_used_def store_used_def update_watermark_def

definition share_regs_start :: share_regs where
  "share_regs_start = \<lparr>sr_fits = False, sr_word = 0, sr_offset = 0, sr_id = 0\<rparr>"

lemma share_steps_refine:
  assumes "ki_initialized s"
  shows "case run_steps (share_steps sz) (share_regs_start, ki_shared_buffer s, q) of (r, b, q') \<Rightarrow>
    q' = q \<and> ipc_alloc_shared_buffer sz True True s =
      (if sr_fits r then (ipc_ok, Some (sr_offset r, sr_id r), s\<lparr>ki_shared_buffer := b\<rparr>)
       else (ipc_high ERR_SYS_RESOURCE_UNAVAIL, None, s))"
  using assms by (simp add: share_steps_def share_step_defs share_regs_start_def ipc_alloc_shared_buffer_def Let_def)

text \<open>The buffer after the operation.\<close>

definition shared_after :: "u32 \<Rightarrow> ipc_shared_buffer \<Rightarrow> ipc_shared_buffer" where
  "shared_after sz b =
     ki_shared_buffer (snd (snd (ipc_alloc_shared_buffer sz True True
       ((ipc_boot memory_boot)\<lparr>ki_initialized := True, ki_shared_buffer := b\<rparr>))))"

interpretation share_op: stepwise_operation "share_steps sz" "\<lambda>(b, q). (shared_after sz b, q)" "\<lambda>_. True" for sz
  by unfold_locales (auto simp: share_steps_def share_step_defs shared_after_def ipc_alloc_shared_buffer_def Let_def)

text \<open>The interrupt allocates \<open>sz2\<close> bytes and keeps what it is given.\<close>

definition interrupt_share :: "u32 \<Rightarrow> share_state \<Rightarrow> share_state" where
  "interrupt_share sz2 = (\<lambda>(b, q).
     case run_steps (share_steps sz2) (share_regs_start, b, q) of
       (r, b', q') \<Rightarrow> (b', if sr_fits r then Some (sr_offset r, sr_id r) else None))"

definition interrupted_share ::
  "u32 \<Rightarrow> u32 \<Rightarrow> nat \<Rightarrow> ipc_shared_buffer \<Rightarrow> (u32 \<times> u32) \<times> (u32 \<times> u32) option \<times> u32" where
  "interrupted_share sz sz2 pos b =
     (case preempted (interrupt_share sz2) pos (share_steps sz) (share_regs_start, b, None) of
        (r, b', q) \<Rightarrow> ((sr_offset r, sr_id r), q, sh_used b'))"

lemma room_for_both:
  fixes u size sz sz2 :: u32
  assumes "unat u + unat sz + unat sz2 \<le> unat size"
  shows "\<not> size < u + sz" "\<not> size < u + sz2" "\<not> size < u + sz + sz2" "\<not> size < u + sz2 + sz"
proof -
  have lt: "unat u + unat sz + unat sz2 < 2 ^ 32" using assms unat_lt_u32 [of size] by simp
  then have "unat (u + sz) = unat u + unat sz" "unat (u + sz2) = unat u + unat sz2"
    "unat (u + sz + sz2) = unat u + unat sz + unat sz2" "unat (u + sz2 + sz) = unat u + unat sz + unat sz2"
    by (simp_all add: unat_word_ariths)
  with assms show "\<not> size < u + sz" "\<not> size < u + sz2" "\<not> size < u + sz + sz2" "\<not> size < u + sz2 + sz"
    by (simp_all add: word_less_nat_alt)
qed

text \<open>C24: Two messages in the shared buffer, with room for both.  When the interrupt comes between
  the reading of the address and the store of the use mark, both messages get the same address;
  when it comes after the load of the use mark, its bytes are not counted as used either; the
  identifiers are equal when it comes between the load and the store of the counter.
\<close>

theorem interrupted_share_outcome:
  assumes "unat (sh_used b) + unat sz + unat sz2 \<le> unat (sh_size b)" "sz \<noteq> 0" "sz2 \<noteq> 0"
  shows "\<exists>a i a2 i2 used. interrupted_share sz sz2 pos b = ((a, i), Some (a2, i2), used) \<and>
    (a = a2 \<longleftrightarrow> 2 \<le> pos \<and> pos \<le> 5) \<and>
    (i = i2 \<longleftrightarrow> pos = 3) \<and>
    (used = sh_used b + sz + sz2 \<longleftrightarrow> pos \<noteq> 5)"
proof -
  note room = room_for_both [OF assms(1)]
  have "pos \<in> {0, 1, 2, 3, 4, 5, 6} \<or> 7 \<le> pos" by auto
  then show ?thesis
    by (elim disjE insertE emptyE)
       (use room assms(2,3) in \<open>simp_all add: interrupted_share_def preempted_def interrupt_share_def share_steps_def
          share_step_defs share_regs_start_def\<close>)
qed

lemma interrupted_share_outcome_witness:
  "\<exists>a i a2 i2 used. interrupted_share 2048 4096 3 (zero_shared_buffer\<lparr>sh_size := 65536\<rparr>) = ((a, i), Some (a2, i2), used) \<and>
    (a = a2 \<longleftrightarrow> (2 :: nat) \<le> 3 \<and> 3 \<le> (5 :: nat)) \<and> (i = i2 \<longleftrightarrow> 3 = (3 :: nat)) \<and>
    (used = sh_used (zero_shared_buffer\<lparr>sh_size := 65536\<rparr>) + 2048 + 4096 \<longleftrightarrow> 3 \<noteq> (5 :: nat))"
  by (rule interrupted_share_outcome) (simp_all add: zero_shared_buffer_def)

text \<open>With room for either message but not for both, an interrupt just after the capacity test makes
  the interrupted code allocate beyond the end of the buffer.
\<close>

theorem interrupted_share_overflows:
  assumes "unat (sh_used b) + unat sz \<le> unat (sh_size b)" "unat (sh_used b) + unat sz2 \<le> unat (sh_size b)"
    and "unat (sh_size b) < unat (sh_used b) + unat sz + unat sz2"
    and "unat (sh_used b) + unat sz + unat sz2 < 2 ^ 32"
  shows "case interrupted_share sz sz2 1 b of ((a, _), q, used) \<Rightarrow>
    q = Some (sh_used b, sh_allocation_count b) \<and> unat (sh_size b) < unat a + unat sz \<and> sh_size b < used"
proof -
  have u: "unat (sh_used b + sz) = unat (sh_used b) + unat sz" "unat (sh_used b + sz2) = unat (sh_used b) + unat sz2"
    "unat (sh_used b + sz2 + sz) = unat (sh_used b) + unat sz + unat sz2"
    using assms by (simp_all add: unat_word_ariths)
  then have "\<not> sh_size b < sh_used b + sz" "\<not> sh_size b < sh_used b + sz2" "sh_size b < sh_used b + sz2 + sz"
    using assms by (simp_all add: word_less_nat_alt)
  then show ?thesis
    using u assms(3)
    by (simp add: interrupted_share_def preempted_def interrupt_share_def share_steps_def
        share_step_defs share_regs_start_def)
qed

lemma interrupted_share_overflows_witness:
  "case interrupted_share 40000 40000 1 (zero_shared_buffer\<lparr>sh_size := 65536\<rparr>) of ((a, _), q, used) \<Rightarrow>
    q = Some (sh_used (zero_shared_buffer\<lparr>sh_size := 65536\<rparr>), sh_allocation_count (zero_shared_buffer\<lparr>sh_size := 65536\<rparr>)) \<and>
    unat (sh_size (zero_shared_buffer\<lparr>sh_size := 65536\<rparr>)) < unat a + unat (40000 :: u32) \<and>
    sh_size (zero_shared_buffer\<lparr>sh_size := 65536\<rparr>) < used"
  by (rule interrupted_share_overflows) (simp_all add: zero_shared_buffer_def)

end
