(* ===== verification/Log_Protocol.thy ===== *)
theory Log_Protocol
  imports Log_Parser Logger_Service
begin

text \<open>
  The messages of the logger protocol as packed structures: those of lib/logging/log_common.h
  ("shared between client and service") and those that services/logger/logger_service.h declares
  for the same message numbers, with their images in memory (little-endian, no padding).  No code
  encodes or decodes them; what is compared here are the two declarations.
\<close>

section \<open>The messages of log_common.h\<close>

abbreviation LOG_SERVICE_MSG_ENTRY :: u32 where "LOG_SERVICE_MSG_ENTRY \<equiv> 1"
abbreviation LOG_SERVICE_MSG_STATUS_QUERY :: u32 where "LOG_SERVICE_MSG_STATUS_QUERY \<equiv> 2"
abbreviation LOG_SERVICE_MSG_RETRIEVE_LOGS :: u32 where "LOG_SERVICE_MSG_RETRIEVE_LOGS \<equiv> 3"
abbreviation LOG_SERVICE_MSG_CLEAR_BUFFER :: u32 where "LOG_SERVICE_MSG_CLEAR_BUFFER \<equiv> 4"
abbreviation LOG_SERVICE_MSG_SET_LEVEL :: u32 where "LOG_SERVICE_MSG_SET_LEVEL \<equiv> 5"

record log_service_msg_entry_t =
  lse_type :: u32
  lse_entry :: log_entry_binary_t
  lse_source_pid :: u16
  lse_reserved :: u8
  lse_padding :: u8

record log_service_msg_status_t =
  lsq_type :: u32
  lsq_requester_pid :: u16
  lsq_reserved :: u16

record log_service_response_status_t =
  lsr_entry_count :: u16
  lsr_buffer_capacity :: u16
  lsr_dropped_count :: u32
  lsr_storage_usage :: u32

record log_service_msg_retrieve_t =
  lsg_type :: u32
  lsg_requester_pid :: u16
  lsg_level_filter :: u8
  lsg_max_entries :: u8
  lsg_start_timestamp :: u32

record log_service_response_retrieve_t =
  lsx_entry_count :: u16
  lsx_total_entries :: u16
  lsx_entries :: "log_entry_binary_t list"

section \<open>Their images\<close>

definition msg_entry_bytes :: "log_service_msg_entry_t \<Rightarrow> u8 list" where
  "msg_entry_bytes m =
     le32 (lse_type m) @ entry_bytes (lse_entry m) @ le16 (lse_source_pid m) @ [lse_reserved m, lse_padding m]"

definition msg_status_bytes :: "log_service_msg_status_t \<Rightarrow> u8 list" where
  "msg_status_bytes m = le32 (lsq_type m) @ le16 (lsq_requester_pid m) @ le16 (lsq_reserved m)"

definition response_status_bytes :: "log_service_response_status_t \<Rightarrow> u8 list" where
  "response_status_bytes m =
     le16 (lsr_entry_count m) @ le16 (lsr_buffer_capacity m) @ le32 (lsr_dropped_count m) @
     le32 (lsr_storage_usage m)"

definition msg_retrieve_bytes :: "log_service_msg_retrieve_t \<Rightarrow> u8 list" where
  "msg_retrieve_bytes m =
     le32 (lsg_type m) @ le16 (lsg_requester_pid m) @ [lsg_level_filter m, lsg_max_entries m] @
     le32 (lsg_start_timestamp m)"

text \<open>The structure holds sixteen entries.\<close>

definition response_retrieve_bytes :: "log_service_response_retrieve_t \<Rightarrow> u8 list" where
  "response_retrieve_bytes m =
     le16 (lsx_entry_count m) @ le16 (lsx_total_entries m) @ concat (map entry_bytes (lsx_entries m))"

text \<open>The sizes are those that the comments and static assertions state.\<close>

lemma length_entries: "length (concat (map entry_bytes es)) = 20 * length es"
  by (induction es) auto

lemma message_sizes:
  "length (msg_entry_bytes m1) = 28" "length (msg_status_bytes m2) = 8"
  "length (response_status_bytes m3) = 12" "length (msg_retrieve_bytes m4) = 12"
  "length (lsx_entries m5) = 16 \<Longrightarrow> length (response_retrieve_bytes m5) = 324"
  by (simp_all add: msg_entry_bytes_def msg_status_bytes_def response_status_bytes_def msg_retrieve_bytes_def
      response_retrieve_bytes_def length_entries)

section \<open>The messages of logger_service.h\<close>

definition service_entry_bytes :: "logger_service_entry_t \<Rightarrow> u8 list" where
  "service_entry_bytes e = se_body_bytes e @ le16 (se_checksum e)"

definition logger_msg_entry_bytes :: "logger_msg_entry_t \<Rightarrow> u8 list" where
  "logger_msg_entry_bytes m = [me_type m] @ le16 (me_source_pid m) @ service_entry_bytes (me_entry m)"

definition logger_msg_status_bytes :: "logger_msg_status_t \<Rightarrow> u8 list" where
  "logger_msg_status_bytes m = [ms_type m] @ le16 (ms_requester_pid m)"

definition logger_status_response_bytes :: "logger_status_response_t \<Rightarrow> u8 list" where
  "logger_status_response_bytes m =
     le16 (sr_entry_count m) @ le16 (sr_buffer_capacity m) @ le16 (sr_dropped_count m) @ le32 (sr_storage_usage m)"

lemma service_lengths:
  "length (service_entry_bytes e) = 20" "length (logger_msg_entry_bytes m) = 23"
  "length (logger_msg_status_bytes q) = 3" "length (logger_status_response_bytes r) = 10"
  by (simp_all add: service_entry_bytes_def se_body_bytes_def logger_msg_entry_bytes_def
      logger_msg_status_bytes_def logger_status_response_bytes_def)

text \<open>The library and the service declare different layouts for the messages 1 and 2 and for the
  status response, although log_common.h says that its layouts are shared: whatever their contents,
  a structure of the service and the structure of the library for the same message have
  different images.  The entry inside has the same image in both.
\<close>

theorem protocol_layouts_disagree:
  "logger_msg_entry_bytes m \<noteq> msg_entry_bytes m' \<and>
   logger_msg_status_bytes q \<noteq> msg_status_bytes q' \<and>
   logger_status_response_bytes r \<noteq> response_status_bytes r' \<and>
   service_entry_bytes (service_entry_of e) = entry_body_bytes e @ le16 (log_calculate_checksum (Some e))"
proof -
  have "xs \<noteq> ys" if "length xs \<noteq> length ys" for xs ys :: "u8 list" using that by auto
  then show ?thesis
    by (simp add: service_lengths message_sizes service_entry_bytes_def service_entry_body service_checksum_eq)
qed

end
