(* ===== verification/Log_Tests.thy ===== *)
theory Log_Tests
  imports Log_Core
begin

text \<open>
  The two test programs of the log core: tests/log_test.c and tests/comprehensive_log_test.c.
  They are linked with the log library alone, so its mocks answer for the time and the process
  identifier.  What is printed is not modelled; the counters of the assertions, the exit codes
  and the file that the second program writes are.
\<close>

section \<open>Assertions\<close>

text \<open>The static counters of a test program, and the statics of the log library.\<close>

record test_state =
  ts_sys :: log_system
  tests_run :: int
  tests_passed :: int

definition test_boot :: test_state where
  "test_boot = \<lparr>ts_sys = log_system_boot, tests_run = 0, tests_passed = 0\<rparr>"

definition TEST_ASSERT :: "bool \<Rightarrow> test_state \<Rightarrow> test_state" where
  "TEST_ASSERT condition t =
     t\<lparr>tests_run := tests_run t + 1,
       tests_passed := (if condition then tests_passed t + 1 else tests_passed t)\<rparr>"

definition TEST_ASSERT_NO_ERROR :: "system_error \<Rightarrow> test_state \<Rightarrow> test_state" where
  "TEST_ASSERT_NO_ERROR error t = TEST_ASSERT (\<not> system_error_is_critical (Some error)) t"

text \<open>A call of the log library.\<close>

definition lib_call :: "(log_system \<Rightarrow> system_error \<times> log_system) \<Rightarrow> test_state \<Rightarrow> system_error \<times> test_state" where
  "lib_call f t = (case f (ts_sys t) of (error, s) \<Rightarrow> (error, t\<lparr>ts_sys := s\<rparr>))"

text \<open>\<open>log_buffer_get_safe(get_global_log_buffer(), &entry)\<close>: the error, the variable \<open>entry\<close>
  after the call, and the state.\<close>

definition get_global_entry ::
  "log_entry_binary_t \<Rightarrow> test_state \<Rightarrow> system_error \<times> log_entry_binary_t \<times> test_state" where
  "get_global_entry entry t =
     (case log_buffer_get_safe (get_global_log_buffer (ts_sys t)) True of
        (error, e, b) \<Rightarrow>
          (error, (case e of None \<Rightarrow> entry | Some e' \<Rightarrow> e'),
           (case b of None \<Rightarrow> t | Some b' \<Rightarrow> t\<lparr>ts_sys := (ts_sys t)\<lparr>g_log_buffer := b'\<rparr>\<rparr>)))"

text \<open>Recording an entry and asserting that the call did not fail.\<close>

definition record_assert :: "record_request \<Rightarrow> test_state \<Rightarrow> test_state" where
  "record_assert r t = (case lib_call (record_call r) t of (error, t1) \<Rightarrow> TEST_ASSERT_NO_ERROR error t1)"

text \<open>Recording an entry and asserting that the call failed.\<close>

definition record_assert_critical :: "record_request \<Rightarrow> test_state \<Rightarrow> test_state" where
  "record_assert_critical r t =
     (case lib_call (record_call r) t of
        (error, t1) \<Rightarrow> TEST_ASSERT (system_error_is_critical (Some error)) t1)"

definition init_assert :: "test_state \<Rightarrow> test_state" where
  "init_assert t = (case lib_call log_system_init_safe t of (error, t1) \<Rightarrow> TEST_ASSERT_NO_ERROR error t1)"

definition get_assert :: "log_entry_binary_t \<Rightarrow> test_state \<Rightarrow> log_entry_binary_t \<times> test_state" where
  "get_assert entry t =
     (case get_global_entry entry t of (error, entry', t1) \<Rightarrow> (entry', TEST_ASSERT_NO_ERROR error t1))"

section \<open>log_test.c\<close>

text \<open>A test that follows a NULL pointer has no result.  A local variable that is not initialised
  is an argument.\<close>

definition test_buffer_init :: "test_state \<Rightarrow> test_state option" where
  "test_buffer_init t =
     (let t1 = init_assert t;
          buffer = get_global_log_buffer (ts_sys t1);
          t2 = TEST_ASSERT (buffer \<noteq> None) t1
      in case buffer of
           None \<Rightarrow> None
         | Some b \<Rightarrow>
             Some (TEST_ASSERT (lb_read_index b = 0) (TEST_ASSERT (lb_write_index b = 0)
               (TEST_ASSERT (lb_entry_count b = 0)
                 (TEST_ASSERT (unat (lb_buffer_size b) = LOG_BUFFER_CAPACITY) t2)))))"

definition test_log_entry_creation :: "log_entry_binary_t \<Rightarrow> test_state \<Rightarrow> test_state" where
  "test_log_entry_creation local_entry t =
     (let t1 = record_assert (LOG_LEVEL_ERROR, LOG_TAG_SYSTEM, LOG_MSG_SYSTEM_START, 0x12345678, 0xABCDEF00) (init_assert t);
          (entry, t2) = get_assert local_entry t1
      in TEST_ASSERT (le_data1 entry = 0xABCDEF00) (TEST_ASSERT (le_data0 entry = 0x12345678)
           (TEST_ASSERT (le_message_id entry = LOG_MSG_SYSTEM_START) (TEST_ASSERT (le_tag_id entry = LOG_TAG_SYSTEM)
             (TEST_ASSERT (le_level entry = LOG_LEVEL_ERROR) t2)))))"

definition overflow_request :: "nat \<Rightarrow> record_request" where
  "overflow_request i = (LOG_LEVEL_INFO, LOG_TAG_SYSTEM, LOG_MSG_HEARTBEAT, word_of_nat i, word_of_nat (i + 1))"

definition test_buffer_overflow :: "log_entry_binary_t \<Rightarrow> test_state \<Rightarrow> test_state option" where
  "test_buffer_overflow local_entry t =
     (let t1 = fold (\<lambda>i. record_assert (overflow_request i)) [0..<LOG_BUFFER_CAPACITY + 10] (init_assert t)
      in case get_global_log_buffer (ts_sys t1) of
           None \<Rightarrow> None
         | Some b \<Rightarrow>
             Some (snd (get_assert local_entry (TEST_ASSERT (unat (lb_entry_count b) \<le> LOG_BUFFER_CAPACITY) t1))))"

definition test_checksum_verification :: "log_entry_binary_t \<Rightarrow> test_state \<Rightarrow> test_state" where
  "test_checksum_verification local_entry t =
     (let t1 = record_assert (LOG_LEVEL_DEBUG, LOG_TAG_DRIVER_CAMERA, LOG_MSG_DRIVER_INIT, 0xA5A5A5A5, 0x5A5A5A5A) (init_assert t);
          (entry, t2) = get_assert local_entry t1;
          t3 = TEST_ASSERT (log_calculate_checksum (Some entry) = le_checksum entry) t2;
          entry' = entry\<lparr>le_data0 := xor (le_data0 entry) 0xFFFFFFFF\<rparr>
      in TEST_ASSERT (log_calculate_checksum (Some entry') \<noteq> le_checksum entry') t3)"

definition level_requests :: "record_request list" where
  "level_requests =
     [(LOG_LEVEL_EMERGENCY, LOG_TAG_SERVICE_AI, LOG_MSG_AI_INFERENCE_START, 1, 2),
      (LOG_LEVEL_ERROR, LOG_TAG_SERVICE_DIAG, LOG_MSG_DIAG_MESSAGE, 3, 4),
      (LOG_LEVEL_INFO, LOG_TAG_APPLICATION, LOG_MSG_SERVICE_READY, 5, 6),
      (LOG_LEVEL_DEBUG, LOG_TAG_KERNEL, LOG_MSG_SYSTEM_START, 7, 8)]"

text \<open>Reading an entry back and asserting its level.\<close>

definition get_assert_level ::
  "u8 \<Rightarrow> log_entry_binary_t \<times> test_state \<Rightarrow> log_entry_binary_t \<times> test_state" where
  "get_assert_level level p =
     (case p of (entry, t) \<Rightarrow>
        case get_assert entry t of (entry', t1) \<Rightarrow> (entry', TEST_ASSERT (le_level entry' = level) t1))"

definition test_log_levels :: "log_entry_binary_t \<Rightarrow> test_state \<Rightarrow> test_state" where
  "test_log_levels local_entry t =
     snd (fold get_assert_level [LOG_LEVEL_EMERGENCY, LOG_LEVEL_ERROR, LOG_LEVEL_INFO, LOG_LEVEL_DEBUG]
       (local_entry, fold record_assert level_requests (init_assert t)))"

definition test_safety_error_handling :: "log_buffer_t \<Rightarrow> test_state \<Rightarrow> test_state" where
  "test_safety_error_handling local_buffer t =
     (let t1 = TEST_ASSERT (system_error_is_critical (Some (fst (log_buffer_get_safe None False)))) t
      in TEST_ASSERT (system_error_is_critical (Some (fst (log_buffer_get_safe (Some local_buffer) True)))) t1)"

definition test_error_boundary_conditions :: "test_state \<Rightarrow> test_state" where
  "test_error_boundary_conditions t =
     record_assert_critical (LOG_LEVEL_INFO, word_of_nat LOG_TAG_COUNT, LOG_MSG_SYSTEM_START, 0, 0)
       (record_assert_critical (word_of_nat LOG_LEVEL_COUNT, LOG_TAG_SYSTEM, LOG_MSG_SYSTEM_START, 0, 0) (init_assert t))"

text \<open>The exit code and the state at the end.\<close>

definition log_test_main :: "log_entry_binary_t \<Rightarrow> log_buffer_t \<Rightarrow> test_state \<Rightarrow> (int \<times> test_state) option" where
  "log_test_main local_entry local_buffer t =
     Option.bind (test_buffer_init t) (\<lambda>t1.
     let t2 = test_log_entry_creation local_entry t1 in
     Option.bind (test_buffer_overflow local_entry t2) (\<lambda>t3.
     let t4 = test_checksum_verification local_entry t3;
         t5 = test_log_levels local_entry t4;
         t6 = test_safety_error_handling local_buffer t5;
         t7 = test_error_boundary_conditions t6
     in Some (if tests_passed t7 = tests_run t7 then 0 else 1, t7)))"

section \<open>comprehensive_log_test.c\<close>

definition log_level_requests :: "record_request list" where
  "log_level_requests =
     [(LOG_LEVEL_EMERGENCY, LOG_TAG_SYSTEM, LOG_MSG_SYSTEM_START, 0x11111111, 0xAAAAAAAA),
      (LOG_LEVEL_ERROR, LOG_TAG_KERNEL, LOG_MSG_SYSTEM_SHUTDOWN, 0x22222222, 0xBBBBBBBB),
      (LOG_LEVEL_INFO, LOG_TAG_APPLICATION, LOG_MSG_SERVICE_READY, 0x33333333, 0xCCCCCCCC),
      (LOG_LEVEL_DEBUG, LOG_TAG_SERVICE_LOGGER, LOG_MSG_HEARTBEAT, 0x44444444, 0xDDDDDDDD)]"

definition test_all_log_levels :: "test_state \<Rightarrow> test_state" where
  "test_all_log_levels t = fold record_assert log_level_requests t"

definition tag_type_requests :: "record_request list" where
  "tag_type_requests =
     [(LOG_LEVEL_INFO, LOG_TAG_SYSTEM, LOG_MSG_SYSTEM_START, 0x10000001, 0x20000001),
      (LOG_LEVEL_INFO, LOG_TAG_KERNEL, LOG_MSG_SYSTEM_SHUTDOWN, 0x10000002, 0x20000002),
      (LOG_LEVEL_INFO, LOG_TAG_DRIVER_CAMERA, LOG_MSG_DRIVER_INIT, 0x10000003, 0x20000003),
      (LOG_LEVEL_ERROR, LOG_TAG_DRIVER_CAN, LOG_MSG_DRIVER_TIMEOUT, 0x10000004, 0x20000004),
      (LOG_LEVEL_DEBUG, LOG_TAG_SERVICE_AI, LOG_MSG_AI_INFERENCE_START, 0x10000005, 0x20000005),
      (LOG_LEVEL_INFO, LOG_TAG_SERVICE_DIAG, LOG_MSG_DIAG_MESSAGE, 0x10000006, 0x20000006),
      (LOG_LEVEL_DEBUG, LOG_TAG_SERVICE_LOGGER, LOG_MSG_HEARTBEAT, 0x10000007, 0x20000007),
      (LOG_LEVEL_INFO, LOG_TAG_APPLICATION, LOG_MSG_SERVICE_READY, 0x10000008, 0x20000008)]"

definition test_all_tag_types :: "test_state \<Rightarrow> test_state" where
  "test_all_tag_types t = fold record_assert tag_type_requests t"

definition message_type_requests :: "record_request list" where
  "message_type_requests =
     [(LOG_LEVEL_EMERGENCY, LOG_TAG_SYSTEM, LOG_MSG_SYSTEM_START, 0x55555555, 0x66666666),
      (LOG_LEVEL_ERROR, LOG_TAG_SYSTEM, LOG_MSG_SYSTEM_SHUTDOWN, 0x77777777, 0x88888888),
      (LOG_LEVEL_INFO, LOG_TAG_SERVICE_AI, LOG_MSG_SERVICE_READY, 0x99999999, 0xAAAAAAAA),
      (LOG_LEVEL_ERROR, LOG_TAG_SERVICE_DIAG, LOG_MSG_SERVICE_ERROR, 0xBBBBBBBB, 0xCCCCCCCC),
      (LOG_LEVEL_INFO, LOG_TAG_DRIVER_CAMERA, LOG_MSG_DRIVER_INIT, 0xDDDDDDDD, 0xEEEEEEEE),
      (LOG_LEVEL_ERROR, LOG_TAG_DRIVER_CAN, LOG_MSG_DRIVER_TIMEOUT, 0xFFFFFFFF, 0x11111111),
      (LOG_LEVEL_DEBUG, LOG_TAG_SERVICE_AI, LOG_MSG_AI_INFERENCE_START, 0x22222222, 0x33333333),
      (LOG_LEVEL_INFO, LOG_TAG_SERVICE_AI, LOG_MSG_AI_INFERENCE_RESULT, 0x44444444, 0x55555555),
      (LOG_LEVEL_INFO, LOG_TAG_SERVICE_DIAG, LOG_MSG_DIAG_MESSAGE, 0x66666666, 0x77777777),
      (LOG_LEVEL_DEBUG, LOG_TAG_SYSTEM, LOG_MSG_HEARTBEAT, 0x88888888, 0x99999999)]"

definition test_all_message_types :: "test_state \<Rightarrow> test_state" where
  "test_all_message_types t = fold record_assert message_type_requests t"

definition scenario_requests :: "record_request list" where
  "scenario_requests =
     [(LOG_LEVEL_EMERGENCY, LOG_TAG_SYSTEM, LOG_MSG_SYSTEM_START, 0x00000001, 0x00000000),
      (LOG_LEVEL_INFO, LOG_TAG_KERNEL, LOG_MSG_SYSTEM_START, 0x00000002, 0x00000000),
      (LOG_LEVEL_INFO, LOG_TAG_DRIVER_CAMERA, LOG_MSG_DRIVER_INIT, 0x00010001, 0x00020002),
      (LOG_LEVEL_INFO, LOG_TAG_DRIVER_CAN, LOG_MSG_DRIVER_INIT, 0x00010002, 0x00020003),
      (LOG_LEVEL_DEBUG, LOG_TAG_SERVICE_AI, LOG_MSG_AI_INFERENCE_START, 0x00100001, 0x00200001),
      (LOG_LEVEL_INFO, LOG_TAG_SERVICE_AI, LOG_MSG_AI_INFERENCE_RESULT, 0x00100002, 0x00200002),
      (LOG_LEVEL_INFO, LOG_TAG_SERVICE_DIAG, LOG_MSG_DIAG_MESSAGE, 0x01000001, 0x02000001),
      (LOG_LEVEL_DEBUG, LOG_TAG_SYSTEM, LOG_MSG_HEARTBEAT, 0x03000001, 0x04000001),
      (LOG_LEVEL_INFO, LOG_TAG_APPLICATION, LOG_MSG_SERVICE_READY, 0x05000001, 0x06000001),
      (LOG_LEVEL_ERROR, LOG_TAG_DRIVER_CAN, LOG_MSG_DRIVER_TIMEOUT, 0x07000001, 0x08000001),
      (LOG_LEVEL_ERROR, LOG_TAG_SERVICE_DIAG, LOG_MSG_SERVICE_ERROR, 0x09000001, 0x0A000001),
      (LOG_LEVEL_ERROR, LOG_TAG_SYSTEM, LOG_MSG_SYSTEM_SHUTDOWN, 0x0B000001, 0x0C000001)]"

definition test_comprehensive_scenarios :: "test_state \<Rightarrow> test_state" where
  "test_comprehensive_scenarios t = fold record_assert scenario_requests t"

definition boundary_requests :: "record_request list" where
  "boundary_requests =
     [(LOG_LEVEL_EMERGENCY, LOG_TAG_SYSTEM, LOG_MSG_SYSTEM_START, 0, 0),
      (LOG_LEVEL_DEBUG, LOG_TAG_APPLICATION, LOG_MSG_HEARTBEAT, 0xFFFFFFFF, 0xFFFFFFFF)]"

definition test_boundary_conditions :: "test_state \<Rightarrow> test_state" where
  "test_boundary_conditions t =
     fold record_assert boundary_requests
       (fold record_assert_critical
          [(word_of_nat LOG_LEVEL_COUNT, LOG_TAG_SYSTEM, LOG_MSG_SYSTEM_START, 0, 0),
           (LOG_LEVEL_INFO, word_of_nat LOG_TAG_COUNT, LOG_MSG_SYSTEM_START, 0, 0),
           (LOG_LEVEL_INFO, LOG_TAG_SYSTEM, word_of_nat LOG_MSG_COUNT, 0, 0)] t)"

text \<open>The arguments of round \<open>i\<close>; the generator of binary_log_generator.c uses the same.\<close>

definition diverse_request :: "nat \<Rightarrow> record_request" where
  "diverse_request i =
     (word_of_nat (i mod 4), word_of_nat (i mod 8), word_of_nat (i mod 10),
      word_of_nat (0x10000000 + i), word_of_nat (0x20000000 + i * 2))"

definition generate_diverse_logs_for_parser :: "test_state \<Rightarrow> test_state" where
  "generate_diverse_logs_for_parser t = fold (\<lambda>i. record_assert (diverse_request i)) [0..<32] t"

text \<open>The function \<open>fwrite\<close> of the C library for one item, of whose bytes \<open>n\<close> can still be written: what
  reaches the file, and the number of complete items, which it returns.\<close>

definition fwrite_item :: "nat \<Rightarrow> u8 list \<Rightarrow> u8 list \<times> nat" where
  "fwrite_item n item = (take n item, if length item \<le> n then 1 else 0)"

text \<open>The loop that saves the entries: how many bytes \<open>fwrite\<close> can write in a round, the index of the
  round, the bytes in the file so far.\<close>

definition save_round ::
  "(nat \<Rightarrow> nat) \<Rightarrow> log_entry_binary_t \<Rightarrow> nat \<Rightarrow> u8 list \<times> test_state \<Rightarrow> u8 list \<times> test_state" where
  "save_round room local_entry i p =
     (case p of (bytes, t) \<Rightarrow>
        case get_global_entry local_entry t of (error, entry, t1) \<Rightarrow>
          (if error_code error = ERR_BASE_OK
           then bytes @ fst (fwrite_item (room i) (entry_bytes entry)) else bytes, t1))"

text \<open>The contents of the file, None when it cannot be created.\<close>

definition save_binary_logs_to_file ::
  "bool \<Rightarrow> (nat \<Rightarrow> nat) \<Rightarrow> log_entry_binary_t \<Rightarrow> test_state \<Rightarrow> u8 list option \<times> test_state" where
  "save_binary_logs_to_file fopen_ok room local_entry t =
     (if \<not> fopen_ok then (None, t)
      else
        case get_global_log_buffer (ts_sys t) of
          None \<Rightarrow> (Some [], t)
        | Some b \<Rightarrow>
            if lb_entry_count b = 0 then (Some [], t)
            else
              (case fold (save_round room local_entry) [0..<unat (lb_entry_count b)] ([], t) of
                 (bytes, t1) \<Rightarrow> (Some bytes, t1)))"

definition comprehensive_main ::
  "bool \<Rightarrow> (nat \<Rightarrow> nat) \<Rightarrow> log_entry_binary_t \<Rightarrow> test_state \<Rightarrow> int \<times> u8 list option \<times> test_state" where
  "comprehensive_main fopen_ok room local_entry t =
     (case lib_call log_system_init_safe t of
        (init_error, t0) \<Rightarrow>
          if error_code init_error \<noteq> ERR_BASE_OK then (1, None, t0)
          else
            let t1 = test_all_log_levels t0;
                t2 = test_all_tag_types t1;
                t3 = test_all_message_types t2;
                t4 = test_comprehensive_scenarios t3;
                t5 = test_boundary_conditions t4;
                t6 = generate_diverse_logs_for_parser t5;
                (file, t7) = save_binary_logs_to_file fopen_ok room local_entry t6
            in (if tests_passed t7 = tests_run t7 then 0 else 1, file, t7))"

section \<open>What the steps of a test do\<close>

text \<open>A test state with its counters, whose log system is initialised and has the given contents:
  while it is filled, and while it is read.\<close>

definition filling :: "int \<Rightarrow> int \<Rightarrow> log_entry_binary_t list \<Rightarrow> test_state \<Rightarrow> bool" where
  "filling n m es t \<longleftrightarrow> tests_run t = n \<and> tests_passed t = m \<and>
     g_log_system_initialized (ts_sys t) \<and> lb_filled (g_log_buffer (ts_sys t)) \<and>
     lb_view (g_log_buffer (ts_sys t)) = es"

definition reading :: "int \<Rightarrow> int \<Rightarrow> log_entry_binary_t list \<Rightarrow> test_state \<Rightarrow> bool" where
  "reading n m es t \<longleftrightarrow> tests_run t = n \<and> tests_passed t = m \<and>
     g_log_system_initialized (ts_sys t) \<and> lb_ring (g_log_buffer (ts_sys t)) \<and>
     lb_view (g_log_buffer (ts_sys t)) = es"

lemma filling_reading: "filling n m es t \<Longrightarrow> reading n m es t"
  by (simp add: filling_def reading_def lb_filled_def)

lemma filling_length: "filling n m es t \<Longrightarrow> length es \<le> 64"
  using lb_view_length [of "g_log_buffer (ts_sys t)"] by (auto simp: filling_def lb_filled_def lb_ring_def)

fun in_range :: "record_request \<Rightarrow> bool" where
  "in_range (l, t, m, a, b) \<longleftrightarrow> unat l < 4 \<and> unat t < 9 \<and> unat m < 18"

lemma assert_filling:
  "filling n m es t \<Longrightarrow> c \<Longrightarrow> filling (n + 1) (m + 1) es (TEST_ASSERT c t)"
  by (simp add: filling_def TEST_ASSERT_def)

lemma assert_reading:
  "reading n m es t \<Longrightarrow> c \<Longrightarrow> reading (n + 1) (m + 1) es (TEST_ASSERT c t)"
  by (simp add: reading_def TEST_ASSERT_def)

lemma init_filling:
  assumes "tests_run t = n" "tests_passed t = m"
  shows "filling (n + 1) (m + 1) [] (init_assert t)"
proof -
  have "log_system_init_safe (ts_sys t) = (log_ok, snd (log_system_init_safe (ts_sys t)))"
    "g_log_system_initialized (snd (log_system_init_safe (ts_sys t)))"
    by (simp_all add: log_system_init_safe_def)
  moreover have "fst (log_system_init_safe (ts_sys t)) = log_ok" by (simp add: log_system_init_safe_def)
  ultimately show ?thesis using assms lb_filled_init [of "ts_sys t"] lb_view_init [of "ts_sys t"]
    by (simp add: filling_def init_assert_def lib_call_def TEST_ASSERT_NO_ERROR_def TEST_ASSERT_def
        case_prod_unfold)
qed

lemma weight_last_n: "weight (last_n n es) \<le> weight es"
proof -
  have "weight es = weight (take (length es - n) es) + weight (drop (length es - n) es)"
    by (metis append_take_drop_id weight_simps(3))
  then show ?thesis by (simp add: last_n_def)
qed

lemma record_call_put:
  assumes "in_range r" "g_log_system_initialized s"
    and "buffer_put (request_entry r) (g_log_buffer s) = (log_ok, b)"
  shows "record_call r s = (log_ok, s\<lparr>g_log_buffer := b\<rparr>)"
  using assms
  by (cases r)
     (simp add: log_record_binary_safe_def record_after_init_def log_safety_checks_def
        LOG_LEVEL_COUNT_def LOG_TAG_COUNT_def LOG_MSG_COUNT_def mock_env_def mock_sys_getpid_def
        mock_time_get_us_def)

lemma record_call_out_of_range:
  "\<not> in_range r \<Longrightarrow> g_log_system_initialized s \<Longrightarrow> record_call r s = (log_invalid ERROR_SEVERITY_HIGH, s)"
  by (cases r)
     (auto simp: log_record_binary_safe_def record_after_init_def log_safety_checks_def
        LOG_LEVEL_COUNT_def LOG_TAG_COUNT_def LOG_MSG_COUNT_def)

lemma record_filling:
  assumes "filling n m es t" "in_range r" "weight (es @ [request_entry r]) \<le> 65280"
  shows "filling (n + 1) (m + 1) (last_n 64 (es @ [request_entry r])) (record_assert r t)"
proof -
  have t: "g_log_system_initialized (ts_sys t)" "lb_filled (g_log_buffer (ts_sys t))"
    "lb_view (g_log_buffer (ts_sys t)) = es"
    using assms(1) by (simp_all add: filling_def)
  have w: "weight (last_n 64 (lb_view (g_log_buffer (ts_sys t)) @ [request_entry r])) \<le> 65280"
    using assms(3) weight_last_n [of 64 "es @ [request_entry r]"] t(3) by simp
  note put = buffer_put_filled [OF t(2) w]
  from record_call_put [OF assms(2) t(1)] put assms(1) t(3) show ?thesis
    by (simp add: filling_def record_assert_def lib_call_def TEST_ASSERT_NO_ERROR_def TEST_ASSERT_def)
qed

lemma record_run_filling:
  assumes "filling n m es t" "list_all in_range rs" "weight (es @ map request_entry rs) \<le> 65280"
  shows "filling (n + int (length rs)) (m + int (length rs)) (last_n 64 (es @ map request_entry rs))
    (fold record_assert rs t)"
  using assms
proof (induction rs arbitrary: n m es t)
  case Nil
  then show ?case using filling_length by (force simp: last_n_def)
next
  case (Cons r rs)
  let ?es = "last_n 64 (es @ [request_entry r])"
  have "filling (n + 1) (m + 1) ?es (record_assert r t)"
    using Cons.prems by (intro record_filling) simp_all
  moreover have "weight (?es @ map request_entry rs) \<le> 65280"
    using Cons.prems(3) weight_last_n [of 64 "es @ [request_entry r]"] by simp
  ultimately have "filling (n + 1 + int (length rs)) (m + 1 + int (length rs))
      (last_n 64 (?es @ map request_entry rs)) (fold record_assert rs (record_assert r t))"
    using Cons.IH Cons.prems(2) by simp
  then show ?case
    using last_n_append [of 64 "es @ [request_entry r]" "map request_entry rs"]
    by (simp add: add.assoc)
qed

lemma record_critical_filling:
  assumes "filling n m es t" "\<not> in_range r"
  shows "filling (n + 1) (m + 1) es (record_assert_critical r t)"
proof -
  have "record_call r (ts_sys t) = (log_invalid ERROR_SEVERITY_HIGH, ts_sys t)"
    using assms by (simp add: filling_def record_call_out_of_range)
  moreover have "system_error_is_critical (Some (log_invalid ERROR_SEVERITY_HIGH))"
    by (simp add: log_invalid_def system_error_is_critical_def)
  ultimately show ?thesis
    using assms(1) by (simp add: filling_def record_assert_critical_def lib_call_def TEST_ASSERT_def)
qed

lemma get_global_reading:
  assumes "reading n m (e # es) t"
  shows "\<exists>t'. get_global_entry x t = (log_ok, e, t') \<and> reading n m es t'"
proof -
  have t: "g_log_system_initialized (ts_sys t)" "lb_ring (g_log_buffer (ts_sys t))"
    "lb_view (g_log_buffer (ts_sys t)) = e # es"
    using assms by (simp_all add: reading_def)
  from buffer_get_some [OF t(2,3)] obtain b where
    "buffer_get (g_log_buffer (ts_sys t)) = (log_ok, Some e, b)" "lb_ring b" "lb_view b = es"
    by blast
  with assms t(1) show ?thesis
    by (simp add: reading_def get_global_entry_def get_global_log_buffer_def log_buffer_get_safe_def)
qed

lemma get_reading:
  assumes "reading n m (e # es) t"
  shows "\<exists>t'. get_assert x t = (e, t') \<and> reading (n + 1) (m + 1) es t'"
proof -
  from get_global_reading [OF assms, of x] obtain t' where
    "get_global_entry x t = (log_ok, e, t')" "reading n m es t'" by blast
  then show ?thesis
    using assert_reading [of n m es t' True] by (simp add: get_assert_def TEST_ASSERT_NO_ERROR_def)
qed

section \<open>The log test\<close>

definition counts :: "int \<Rightarrow> int \<Rightarrow> test_state \<Rightarrow> bool" where
  "counts n m t \<longleftrightarrow> tests_run t = n \<and> tests_passed t = m"

lemma counts_assert: "counts n m t \<Longrightarrow> counts (n + 1) (if c then m + 1 else m) (TEST_ASSERT c t)"
  by (simp add: counts_def TEST_ASSERT_def)

lemma counts_assert_true: "counts n m t \<Longrightarrow> c \<Longrightarrow> counts (n + 1) (m + 1) (TEST_ASSERT c t)"
  by (simp add: counts_def TEST_ASSERT_def)

lemma reading_counts: "reading n m es t \<Longrightarrow> counts n m t"
  by (simp add: reading_def counts_def)

lemma init_filling_counts: "counts n m t \<Longrightarrow> filling (n + 1) (m + 1) [] (init_assert t)"
  by (rule init_filling) (simp_all add: counts_def)

lemma request_entry_fields [simp]:
  "le_level (request_entry (l, g, m, a, b)) = l" "le_tag_id (request_entry (l, g, m, a, b)) = g"
  "le_message_id (request_entry (l, g, m, a, b)) = m" "le_data0 (request_entry (l, g, m, a, b)) = a"
  "le_data1 (request_entry (l, g, m, a, b)) = b"
  by (simp_all add: new_entry_def with_checksum_def)

text \<open>No entry weighs more than its twenty bytes allow.\<close>

lemma weight_entry_le: "sum_bytes (entry_bytes e) \<le> 5100"
  using sum_bytes_le [of "entry_bytes e"] by simp

lemma weight_le: "weight es \<le> 5100 * length es"
proof (induction es)
  case (Cons e es)
  then show ?case using weight_entry_le [of e] by simp
qed simp

lemma test_buffer_init_passes:
  assumes "counts n m t"
  shows "\<exists>t'. test_buffer_init t = Some t' \<and> counts (n + 6) (m + 6) t'"
  using assms
  by (simp add: test_buffer_init_def init_assert_def lib_call_def log_system_init_safe_def
      get_global_log_buffer_def TEST_ASSERT_NO_ERROR_def TEST_ASSERT_def counts_def zero_buffer_def
      LOG_BUFFER_CAPACITY_def Let_def)

text \<open>One entry recorded into the empty buffer and read back.\<close>

lemma record_get:
  assumes "counts n m t" "in_range r"
  shows "\<exists>t'. get_assert x (record_assert r (init_assert t)) = (request_entry r, t') \<and> counts (n + 3) (m + 3) t'"
proof -
  have "filling (n + 1) (m + 1) [] (init_assert t)"
    by (rule init_filling_counts [OF assms(1)])
  then have "filling (n + 1 + 1) (m + 1 + 1) (last_n 64 ([] @ [request_entry r])) (record_assert r (init_assert t))"
    using assms(2) weight_le [of "[request_entry r]"] by (intro record_filling) simp_all
  then have "reading (n + 2) (m + 2) [request_entry r] (record_assert r (init_assert t))"
    by (intro filling_reading) (simp add: last_n_def add.commute)
  from get_reading [OF this, of x] show ?thesis
    using reading_counts by (auto simp: add.assoc)
qed

lemma test_log_entry_creation_passes:
  assumes "counts n m t"
  shows "counts (n + 8) (m + 8) (test_log_entry_creation x t)"
proof -
  let ?r = "(LOG_LEVEL_ERROR, LOG_TAG_SYSTEM, LOG_MSG_SYSTEM_START, 0x12345678, 0xABCDEF00) :: record_request"
  obtain t' where "get_assert x (record_assert ?r (init_assert t)) = (request_entry ?r, t')"
    and "counts (n + 3) (m + 3) t'"
    using record_get [OF assms, of ?r x] by auto
  then show ?thesis
    by (simp add: test_log_entry_creation_def TEST_ASSERT_def counts_def del: request_entry.simps)
qed

lemma checksum_changes:
  "log_calculate_checksum (Some ((request_entry (3, 3, 4, 0xA5A5A5A5, 0x5A5A5A5A))\<lparr>le_data0 := 0x5A5A5A5A\<rparr>)) \<noteq>
     le_checksum (request_entry (3, 3, 4, 0xA5A5A5A5, 0x5A5A5A5A))"
  by (simp add: log_calculate_checksum_eq new_entry_def with_checksum_def entry_body_bytes_def le32_def le16_def)

lemma request_entry_checksum:
  "log_calculate_checksum (Some (request_entry r)) = le_checksum (request_entry r)"
  by (cases r) (simp add: new_entry_def log_calculate_checksum_eq, simp add: with_checksum_def log_calculate_checksum_eq)

lemma test_checksum_verification_passes:
  assumes "counts n m t"
  shows "counts (n + 5) (m + 5) (test_checksum_verification x t)"
proof -
  let ?r = "(LOG_LEVEL_DEBUG, LOG_TAG_DRIVER_CAMERA, LOG_MSG_DRIVER_INIT, 0xA5A5A5A5, 0x5A5A5A5A) :: record_request"
  obtain t' where "get_assert x (record_assert ?r (init_assert t)) = (request_entry ?r, t')"
    and "counts (n + 3) (m + 3) t'"
    using record_get [OF assms, of ?r x] by auto
  moreover have "xor (0xA5A5A5A5 :: u32) 0xFFFFFFFF = 0x5A5A5A5A" by simp
  ultimately show ?thesis
    using checksum_changes request_entry_checksum [of ?r]
    by (simp add: test_checksum_verification_def TEST_ASSERT_def counts_def del: request_entry.simps)
qed

lemma sum_le32_small:
  assumes "i < 256"
  shows "sum_bytes (le32 (word_of_nat i)) = i"
proof -
  have u: "unat (word_of_nat i :: u32) = i" using assms by (simp add: unat_of_nat)
  have "unat (drop_bit k (word_of_nat i :: u32)) = 0" if "8 \<le> k" for k
  proof -
    have "i div 2 ^ k = 0" using assms that power_increasing [of 8 k "2 :: nat"] by simp
    then show ?thesis unfolding unat_drop_bit_eq u by (simp add: drop_bit_eq_div)
  qed
  then have b: "drop_bit k (word_of_nat i :: u32) = 0" if "8 \<le> k" for k
    using that by (simp add: word_unat_eq_iff)
  have "unat (ucast (word_of_nat i :: u32) :: u8) = i"
    using assms u by (simp add: unsigned_ucast_eq take_bit_eq_mod)
  then show ?thesis by (simp add: le32_def b)
qed

lemma body_new_entry:
  "entry_body_bytes (new_entry ts p l g m a b) = le32 ts @ le16 p @ [l, g] @ le16 m @ le32 a @ le32 b"
  by (simp add: new_entry_def) (simp add: entry_body_bytes_def)

text \<open>A small body sum makes a light entry.\<close>

lemma weight_new_entry:
  assumes "sum_bytes (entry_body_bytes (new_entry ts p l g m a b)) < 256"
  shows "sum_bytes (entry_bytes (new_entry ts p l g m a b)) \<le> 510"
proof -
  let ?e = "new_entry ts p l g m a b"
  have "unat (le_checksum ?e) = sum_bytes (entry_body_bytes ?e)"
    using assms
    by (simp add: new_entry_def) (simp add: with_checksum_def log_calculate_checksum_eq unat_u16_of_nat)
  then show ?thesis
    using assms by (simp add: entry_bytes_def sum_bytes_le16)
qed

lemma overflow_weight:
  assumes "i < 100"
  shows "sum_bytes (entry_bytes (request_entry (overflow_request i))) \<le> 510"
proof -
  have "sum_bytes (le32 (word_of_nat (i + 1))) = i + 1" "sum_bytes (le32 (word_of_nat i)) = i"
    "sum_bytes (le32 0) = 0" "sum_bytes (le16 0) = 0" "sum_bytes (le16 16) = 16"
    using assms by (simp_all only: sum_le32_small) (simp_all add: le32_def le16_def)
  then show ?thesis
    unfolding overflow_request_def request_entry.simps
    using assms by (intro weight_new_entry) (simp add: body_new_entry del: of_nat_Suc of_nat_add)
qed

lemma overflow_run_weight: "list_all (\<lambda>i. i < 100) is \<Longrightarrow>
  weight (map (\<lambda>i. request_entry (overflow_request i)) is) \<le> 510 * length is"
proof (induction "is")
  case (Cons i "is")
  then show ?case
    using overflow_weight [of i] by (simp del: request_entry.simps)
qed simp

lemma test_buffer_overflow_passes:
  assumes "counts n m t"
  shows "\<exists>t'. test_buffer_overflow x t = Some t' \<and> counts (n + 77) (m + 77) t'"
proof -
  define rs where "rs = map overflow_request [0..<74]"
  have len: "length rs = 74" by (simp add: rs_def)
  have range: "list_all in_range rs"
    by (simp add: rs_def list_all_iff overflow_request_def)
  have w: "weight ([] @ map request_entry rs) \<le> 65280"
    using overflow_run_weight [of "[0..<74]"] by (simp add: rs_def list_all_iff comp_def)
  let ?t = "fold record_assert rs (init_assert t)"
  have f: "filling (n + 75) (m + 75) (last_n 64 (map request_entry rs)) ?t"
    using record_run_filling [OF init_filling_counts [OF assms] range w]
    by (simp add: len add.assoc add.commute [of n] add.commute [of m])
  let ?b = "g_log_buffer (ts_sys ?t)"
  have b: "get_global_log_buffer (ts_sys ?t) = Some ?b" "unat (lb_entry_count ?b) \<le> 64"
    using f by (simp_all add: filling_def get_global_log_buffer_def lb_filled_def lb_ring_def lb_wf_def)
  let ?c = "unat (lb_entry_count ?b) \<le> LOG_BUFFER_CAPACITY"
  have f2: "filling (n + 76) (m + 76) (last_n 64 (map request_entry rs)) (TEST_ASSERT ?c ?t)"
    using assert_filling [OF f, of ?c] b(2) by (simp add: LOG_BUFFER_CAPACITY_def add.assoc)
  have "length (last_n 64 (map request_entry rs)) = 64"
    by (simp add: last_n_def len)
  then obtain e es where "last_n 64 (map request_entry rs) = e # es"
    by (cases "last_n 64 (map request_entry rs)") auto
  with filling_reading [OF f2] have "reading (n + 76) (m + 76) (e # es) (TEST_ASSERT ?c ?t)" by simp
  from get_reading [OF this, of x] obtain t' where
    "get_assert x (TEST_ASSERT ?c ?t) = (e, t')" "reading (n + 77) (m + 77) es t'"
    by (auto simp: add.assoc)
  moreover have "fold (\<lambda>i. record_assert (overflow_request i)) [0..<LOG_BUFFER_CAPACITY + 10] (init_assert t) = ?t"
    by (simp add: rs_def fold_map comp_def LOG_BUFFER_CAPACITY_def del: upt_Suc)
  ultimately show ?thesis
    using b(1) reading_counts by (simp add: test_buffer_overflow_def)
qed

lemma get_level_reading:
  assumes "reading n m (e # es) t"
  shows "\<exists>t'. get_assert_level (le_level e) (x, t) = (e, t') \<and> reading (n + 2) (m + 2) es t'"
proof -
  from get_reading [OF assms, of x] obtain t' where
    "get_assert x t = (e, t')" "reading (n + 1) (m + 1) es t'" by blast
  then show ?thesis
    using assert_reading [of "n + 1" "m + 1" es t' True]
    by (simp add: get_assert_level_def add.commute [of n] add.commute [of m])
qed

lemma get_levels_reading:
  assumes "reading n m es t"
  shows "counts (n + 2 * int (length es)) (m + 2 * int (length es))
    (snd (fold get_assert_level (map le_level es) (x, t)))"
  using assms
proof (induction es arbitrary: n m t x)
  case Nil
  then show ?case by (simp add: reading_counts)
next
  case (Cons e es)
  from get_level_reading [OF Cons.prems, of x] obtain t' where
    "get_assert_level (le_level e) (x, t) = (e, t')" "reading (n + 2) (m + 2) es t'" by blast
  with Cons.IH [of "n + 2" "m + 2" t' e] show ?case
    by (simp add: algebra_simps)
qed

lemma test_log_levels_passes:
  assumes "counts n m t"
  shows "counts (n + 13) (m + 13) (test_log_levels x t)"
proof -
  have f: "filling (n + 5) (m + 5) (map request_entry level_requests) (fold record_assert level_requests (init_assert t))"
    using record_run_filling [OF init_filling_counts [OF assms], of level_requests]
      weight_le [of "map request_entry level_requests"]
    by (simp add: level_requests_def last_n_def add.commute [of n] add.commute [of m]
        del: request_entry.simps fold_simps)
  have "map le_level (map request_entry level_requests) =
      [LOG_LEVEL_EMERGENCY, LOG_LEVEL_ERROR, LOG_LEVEL_INFO, LOG_LEVEL_DEBUG]"
    by (simp add: level_requests_def del: request_entry.simps)
  moreover have "length (map request_entry level_requests) = 4"
    by (simp add: level_requests_def)
  ultimately show ?thesis
    using get_levels_reading [OF filling_reading [OF f], of x]
    by (simp only: test_log_levels_def) (simp add: add.commute [of n] add.commute [of m])
qed

lemma test_error_boundary_conditions_passes:
  assumes "counts n m t"
  shows "counts (n + 3) (m + 3) (test_error_boundary_conditions t)"
proof -
  let ?r1 = "(word_of_nat LOG_LEVEL_COUNT, LOG_TAG_SYSTEM, LOG_MSG_SYSTEM_START, 0, 0) :: record_request"
    and ?r2 = "(LOG_LEVEL_INFO, word_of_nat LOG_TAG_COUNT, LOG_MSG_SYSTEM_START, 0, 0) :: record_request"
  have "\<not> in_range ?r1" "\<not> in_range ?r2"
    by (simp_all add: LOG_LEVEL_COUNT_def LOG_TAG_COUNT_def)
  then have "filling (n + 1 + 1 + 1) (m + 1 + 1 + 1) []
      (record_assert_critical ?r2 (record_assert_critical ?r1 (init_assert t)))"
    using init_filling_counts [OF assms] record_critical_filling by blast
  then show ?thesis
    by (simp add: test_error_boundary_conditions_def filling_def counts_def)
qed

lemma empty_not_critical:
  "\<not> system_error_is_critical
     (Some (system_error_create ERR_BASE_BUF_EMPTY ERROR_CATEGORY_SYSTEM ERROR_SEVERITY_MEDIUM MODULE_ID_LOGGING))"
  by (simp add: system_error_is_critical_def)

text \<open>C31: The log test succeeds exactly when the buffer that it does not initialise fails the integrity
  check: of its 114 assertions, in all seven tests, only the one about that buffer can fail.  It
  fails for a buffer of zeros, for the sum of no bytes is the checksum of that buffer, and an empty
  buffer is not a critical error.\<close>

theorem log_test_outcome:
  "\<exists>t. log_test_main local_entry local_buffer test_boot =
      Some (if system_error_is_critical (Some (log_verify_buffer_integrity (Some local_buffer))) then 0 else 1, t) \<and>
    tests_run t = 114 \<and>
    tests_passed t =
      (if system_error_is_critical (Some (log_verify_buffer_integrity (Some local_buffer))) then 114 else 113) \<and>
    \<not> system_error_is_critical (Some (log_verify_buffer_integrity (Some zero_buffer)))"
proof -
  let ?ok = "system_error_is_critical (Some (log_verify_buffer_integrity (Some local_buffer)))"
  have "counts 0 0 test_boot" by (simp add: counts_def test_boot_def)
  from test_buffer_init_passes [OF this] obtain t1 where
    t1: "test_buffer_init test_boot = Some t1" "counts 6 6 t1" by auto
  define t2 where "t2 = test_log_entry_creation local_entry t1"
  have "counts 14 14 t2"
    using test_log_entry_creation_passes [OF t1(2)] by (simp add: t2_def)
  from test_buffer_overflow_passes [OF this, of local_entry] obtain t3 where
    t3: "test_buffer_overflow local_entry t2 = Some t3" "counts 91 91 t3" by auto
  have "counts 96 96 (test_checksum_verification local_entry t3)"
    using test_checksum_verification_passes [OF t3(2)] by simp
  define t5 where "t5 = test_log_levels local_entry (test_checksum_verification local_entry t3)"
  have t5: "counts 109 109 t5"
    using test_log_levels_passes [OF \<open>counts 96 96 _\<close>] by (simp add: t5_def)
  have crit: "system_error_is_critical (Some (fst (log_buffer_get_safe (Some local_buffer) True))) \<longleftrightarrow> ?ok"
    by (cases ?ok) (simp_all add: log_buffer_get_safe_def buffer_get_def Let_def empty_not_critical)
  have "counts 111 (if ?ok then 111 else 110) (test_safety_error_handling local_buffer t5)"
    using t5 crit
    by (simp add: test_safety_error_handling_def counts_def TEST_ASSERT_def log_buffer_get_safe_def)
  from test_error_boundary_conditions_passes [OF this]
  have t7: "counts 114 (if ?ok then 114 else 113)
      (test_error_boundary_conditions (test_safety_error_handling local_buffer t5))"
    by (simp split: if_splits)
  have "log_verify_buffer_integrity (Some zero_buffer) = log_ok"
    by (simp add: log_verify_buffer_integrity_def LOG_BUFFER_CAPACITY_def log_calculate_buffer_checksum_def
        checksum32_eq buffer_bytes_def zero_buffer_def map_replicate sum_bytes_le16_small
        sum_entry_bytes_examples sum_entries_replicate [unfolded map_replicate])
  then show ?thesis
    using t1(1) t3(1) t7
    by (auto simp: log_test_main_def Let_def counts_def t5_def simp flip: t2_def)
qed

section \<open>The comprehensive test\<close>

lemma save_loop:
  assumes "reading n m es t" "\<And>i. 20 \<le> room i"
  shows "\<exists>t'. fold (save_round room x) [k..<k + length es] (bs, t) = (bs @ concat (map entry_bytes es), t') \<and>
    counts n m t'"
  using assms(1)
proof (induction es arbitrary: k bs t)
  case Nil
  then show ?case by (simp add: reading_counts)
next
  case (Cons e es)
  from get_global_reading [OF Cons.prems, of x] obtain t' where
    t': "get_global_entry x t = (log_ok, e, t')" "reading n m es t'" by blast
  have "[k..<k + length (e # es)] = k # [Suc k..<Suc k + length es]"
    by (simp add: upt_rec [of k] Suc_le_eq)
  then show ?case
    using Cons.IH [OF t'(2), of "Suc k" "bs @ entry_bytes e"] t'(1) assms(2)
    by (simp add: save_round_def fwrite_item_def)
qed

lemma save_filled:
  assumes "filling n m es t" "es \<noteq> []" "\<And>i. 20 \<le> room i"
  shows "\<exists>t'. save_binary_logs_to_file True room x t = (Some (concat (map entry_bytes es)), t') \<and> counts n m t'"
proof -
  let ?b = "g_log_buffer (ts_sys t)"
  have b: "get_global_log_buffer (ts_sys t) = Some ?b" "unat (lb_entry_count ?b) = length es"
    using assms(1) by (auto simp: filling_def get_global_log_buffer_def lb_view_def)
  then have "lb_entry_count ?b \<noteq> 0" using assms(2) by auto
  with save_loop [where room = room and x = x and k = 0 and bs = "[]", OF filling_reading [OF assms(1)] assms(3)] b show ?thesis
    by (auto simp: save_binary_logs_to_file_def)
qed

definition all_requests :: "record_request list" where
  "all_requests = log_level_requests @ tag_type_requests @ message_type_requests @ scenario_requests @
     boundary_requests @ map diverse_request [0..<32]"

lemma requests_in_range: "list_all in_range all_requests"
  by (simp add: all_requests_def log_level_requests_def tag_type_requests_def message_type_requests_def
      scenario_requests_def boundary_requests_def diverse_request_def list_all_iff unat_of_nat)
    (auto intro: less_trans [of _ 8] less_trans [of _ 10])


text \<open>The weight of an entry is bounded by the bytes of the request and those of the checksum.\<close>

fun request_sum :: "record_request \<Rightarrow> nat" where
  "request_sum (l, g, m, a, b) = unat l + unat g + sum_bytes (le16 m) + sum_bytes (le32 a) + sum_bytes (le32 b)"

lemma entry_weight_le: "sum_bytes (entry_bytes (request_entry r)) \<le> request_sum r + 510"
proof (cases r)
  case (fields l g m a b)
  have "sum_bytes (le32 0) = 0" "sum_bytes (le16 0) = 0" by (simp_all add: le32_def le16_def)
  moreover have "sum_bytes (le16 w) \<le> 510" for w using sum_bytes_le [of "le16 w"] by simp
  ultimately show ?thesis
    by (simp add: fields entry_bytes_def body_new_entry)
qed

lemma requests_weight_le: "weight (map request_entry rs) \<le> sum_list (map request_sum rs) + 510 * length rs"
proof (induction rs)
  case (Cons r rs)
  then show ?case using entry_weight_le [of r] by simp
qed simp

lemma named_requests_sum:
  "sum_list (map request_sum (log_level_requests @ tag_type_requests @ message_type_requests @
     scenario_requests @ boundary_requests)) \<le> 20000"
  by (simp add: log_level_requests_def tag_type_requests_def message_type_requests_def
      scenario_requests_def boundary_requests_def le32_def le16_def)

lemma diverse_requests_sum: "sum_list (map request_sum (map diverse_request [0..<32])) \<le> 10000"
  by (simp add: diverse_request_def le32_def le16_def upt_rec)

lemma requests_weight: "weight (map request_entry all_requests) \<le> 65280"
proof -
  have "length all_requests = 68"
    by (simp add: all_requests_def log_level_requests_def tag_type_requests_def message_type_requests_def
        scenario_requests_def boundary_requests_def)
  moreover have "sum_list (map request_sum all_requests) \<le> 30000"
    using named_requests_sum diverse_requests_sum by (simp add: all_requests_def)
  ultimately show ?thesis
    using requests_weight_le [of all_requests] by simp
qed

lemma comprehensive_run:
  assumes "\<And>i. 20 \<le> room i"
  shows "\<exists>t. comprehensive_main True room local_entry test_boot =
      (0, Some (concat (map (entry_bytes \<circ> request_entry)
         (tag_type_requests @ message_type_requests @ scenario_requests @ boundary_requests @
          map diverse_request [0..<32]))), t) \<and>
    tests_run t = 71 \<and> tests_passed t = 71"
proof -
  let ?named = "log_level_requests @ tag_type_requests @ message_type_requests @ scenario_requests"
  let ?rs1 = "?named @ boundary_requests" and ?diverse = "map diverse_request [0..<32]"
  have all: "all_requests = ?rs1 @ ?diverse" by (simp add: all_requests_def)
  have len: "length log_level_requests = 4" "length tag_type_requests = 8" "length message_type_requests = 10"
    "length scenario_requests = 12" "length boundary_requests = 2"
    by (simp_all add: log_level_requests_def tag_type_requests_def message_type_requests_def
        scenario_requests_def boundary_requests_def)
  define t0 where "t0 = snd (lib_call log_system_init_safe test_boot)"
  have init: "lib_call log_system_init_safe test_boot = (log_ok, t0)"
    by (simp add: t0_def lib_call_def log_system_init_safe_def)
  have t0: "filling 0 0 [] t0"
    using lb_filled_init [of log_system_boot] lb_view_init [of log_system_boot]
    by (simp add: t0_def filling_def lib_call_def test_boot_def case_prod_unfold)
       (simp add: log_system_init_safe_def)
  have w: "weight (map request_entry ?named) + (weight (map request_entry boundary_requests) +
      weight (map request_entry ?diverse)) \<le> 65280"
    using requests_weight by (simp add: all)
  have r: "list_all in_range ?named" "list_all in_range boundary_requests" "list_all in_range ?diverse"
    using requests_in_range by (simp_all add: all)
  define t1 where "t1 = fold record_assert ?named t0"
  have t1: "filling 34 34 (map request_entry ?named) t1"
    using record_run_filling [OF t0 r(1)] w by (simp add: t1_def len last_n_def del: fold_append)
  define t2 where "t2 = fold record_assert_critical
      [(word_of_nat LOG_LEVEL_COUNT, LOG_TAG_SYSTEM, LOG_MSG_SYSTEM_START, 0, 0),
       (LOG_LEVEL_INFO, word_of_nat LOG_TAG_COUNT, LOG_MSG_SYSTEM_START, 0, 0),
       (LOG_LEVEL_INFO, LOG_TAG_SYSTEM, word_of_nat LOG_MSG_COUNT, 0, 0)] t1"
  have t2: "filling 37 37 (map request_entry ?named) t2"
  proof -
    have "\<not> in_range (word_of_nat LOG_LEVEL_COUNT, LOG_TAG_SYSTEM, LOG_MSG_SYSTEM_START, 0, 0)"
      "\<not> in_range (LOG_LEVEL_INFO, word_of_nat LOG_TAG_COUNT, LOG_MSG_SYSTEM_START, 0, 0)"
      "\<not> in_range (LOG_LEVEL_INFO, LOG_TAG_SYSTEM, word_of_nat LOG_MSG_COUNT, 0, 0)"
      by (simp_all add: LOG_LEVEL_COUNT_def LOG_TAG_COUNT_def LOG_MSG_COUNT_def)
    with t1 have "filling (34 + 1 + 1 + 1) (34 + 1 + 1 + 1) (map request_entry ?named) t2"
      unfolding t2_def fold_simps by (intro record_critical_filling)
    then show ?thesis by simp
  qed
  define t3 where "t3 = fold record_assert ?diverse (fold record_assert boundary_requests t2)"
  have t3: "filling 71 71 (last_n 64 (map request_entry (?rs1 @ ?diverse))) t3"
    using record_run_filling [OF record_run_filling [OF t2 r(2)] r(3)] w len
    by (simp add: t3_def last_n_def)
  show ?thesis
  proof -
    let ?es = "last_n 64 (map request_entry (?rs1 @ ?diverse))"
    have es: "?es = map request_entry (tag_type_requests @ message_type_requests @ scenario_requests @
        boundary_requests @ ?diverse)"
      by (simp add: last_n_def len)
    then have "?es \<noteq> []" using len(2) by (cases tag_type_requests) simp_all
    from save_filled [where room = room and x = local_entry, OF t3 this assms] obtain t where
      "save_binary_logs_to_file True room local_entry t3 = (Some (concat (map entry_bytes ?es)), t)"
      "counts 71 71 t" by blast
    note save = this [unfolded es]
    have "generate_diverse_logs_for_parser (test_boundary_conditions (test_comprehensive_scenarios
        (test_all_message_types (test_all_tag_types (test_all_log_levels t0))))) = t3"
      by (simp add: t3_def t2_def t1_def test_all_log_levels_def test_all_tag_types_def
          test_all_message_types_def test_comprehensive_scenarios_def test_boundary_conditions_def
          generate_diverse_logs_for_parser_def fold_map comp_def)
    then show ?thesis
      using save by (auto simp: comprehensive_main_def init Let_def counts_def comp_def)
  qed
qed

text \<open>C35: The comprehensive test passes.  When the file can be created and every entry fully written, all 71 assertions
  hold, the exit code is 0, and the file is the images of the last 64 of the 68 entries that the
  program records, that is of all but those of the first test.\<close>

theorem comprehensive_test_outcome:
  assumes "\<And>i. 20 \<le> room i"
  shows "\<exists>t. comprehensive_main True room local_entry test_boot =
      (0, Some (concat (map (entry_bytes \<circ> request_entry)
         (tag_type_requests @ message_type_requests @ scenario_requests @ boundary_requests @
          map diverse_request [0..<32]))), t) \<and>
    tests_run t = 71 \<and> tests_passed t = 71"
  using assms by (rule comprehensive_run)

lemma comprehensive_test_outcome_witness:
  "fst (comprehensive_main True (\<lambda>_. 20) zero_entry test_boot) = 0"
  using comprehensive_test_outcome [of "\<lambda>_. 20" zero_entry] by auto

end
