(* ===== verification/Shipped_Databases.thy ===== *)
theory Shipped_Databases
  imports Log_Parser_Main
begin

text \<open>
  The databases that come with the parser, tools/log_parser/formats.db and tags.db, and what the
  parser makes of them: the texts and names under which the messages and tags of log_common.h are
  shown.  The headings of formats.db are in Chinese; they are given by their UTF-8 bytes.
\<close>

section \<open>The format database\<close>

definition formats_db_lines :: "string list" where
  "formats_db_lines =
     [''# AutoMLOS Format String Database - '' @ [CHR 0xE6, CHR 0x99, CHR 0xBA, CHR 0xE8, CHR 0x83, CHR 0xBD, CHR 0xE6, CHR 0xA0, CHR 0xBC, CHR 0xE5, CHR 0xBC, CHR 0x8F, CHR 0xE5, CHR 0x8C, CHR 0x96, CHR 0xE7, CHR 0x89, CHR 0x88],
      ''# Format: message_id|format_string|description|message_type'',
      '''',
      ''# '' @ [CHR 0xE4, CHR 0xBC, CHR 0xA0, CHR 0xE7, CHR 0xBB, CHR 0x9F, CHR 0xE7, CHR 0xB3, CHR 0xBB, CHR 0xE7, CHR 0xBB, CHR 0x9F, CHR 0xE6, CHR 0xB6, CHR 0x88, CHR 0xE6, CHR 0x81, CHR 0xAF] @ '' (0-9)'',
      ''0|System started at timestamp %u|System startup message|0'',
      ''1|System shutdown at timestamp %u|System shutdown message|0  '',
      ''2|Service %u ready|Service initialization complete message|0'',
      ''3|Service %u error: code %u|Service error message|0'',
      ''4|Driver %u timeout after %u ms|Driver timeout message|0'',
      ''5|Driver %u initialized successfully|Driver initialization message|0'',
      '''',
      ''# CAN'' @ [CHR 0xE6, CHR 0x80, CHR 0xBB, CHR 0xE7, CHR 0xBA, CHR 0xBF, CHR 0xE6, CHR 0xB6, CHR 0x88, CHR 0xE6, CHR 0x81, CHR 0xAF] @ '' (6-9)'',
      ''6|CAN frame received: ID 0x%X, DLC %u|CAN frame reception message|1'',
      ''7|CAN frame transmitted: ID 0x%X, DLC %u|CAN frame transmission message|1'',
      ''8|CAN bus error: code %u, severity %u|CAN bus error message|1'',
      ''9|CAN configuration updated: baudrate %u, mode %u|CAN configuration change message|1'',
      '''',
      ''# UDS'' @ [CHR 0xE8, CHR 0xAF, CHR 0x8A, CHR 0xE6, CHR 0x96, CHR 0xAD, CHR 0xE6, CHR 0xB6, CHR 0x88, CHR 0xE6, CHR 0x81, CHR 0xAF] @ '' (10-19)'',
      ''10|UDS request: SID 0x%X, DID 0x%X|UDS diagnostic request message|2'',
      ''11|UDS response: SID 0x%X, result %u|UDS diagnostic response message|2'',
      ''12|UDS session changed: from %u to %u|UDS session management message|2'',
      ''13|UDS security access: level %u, status %u|UDS security access message|2'',
      ''14|UDS routine control: routine %u, result %u|UDS routine control message|2'',
      '''',
      ''# AI'' @ [CHR 0xE6, CHR 0x8E, CHR 0xA8, CHR 0xE7, CHR 0x90, CHR 0x86, CHR 0xE6, CHR 0xB6, CHR 0x88, CHR 0xE6, CHR 0x81, CHR 0xAF] @ '' (20-29)'',
      ''20|AI model switched: from %u to %u|AI model dynamic switching message|0'',
      ''21|AI pipeline state changed: stage %u, status %u|AI pipeline state transition message|0'',
      ''22|Multi-modal fusion completed: sources %u, confidence %u|Multi-sensor data fusion message|0'',
      ''23|Model performance adapted: old_latency %u ms, new_latency %u ms|AI model performance adaptation message|0'',
      ''24|Inference QoS adjusted: target %u%%, actual %u%%|AI service quality adjustment message|0'',
      '''',
      ''# '' @ [CHR 0xE5, CHR 0x86, CHR 0x85, CHR 0xE6, CHR 0xA0, CHR 0xB8, CHR 0xE6, CHR 0xB6, CHR 0x88, CHR 0xE6, CHR 0x81, CHR 0xAF] @ '' (30-39)'',
      ''30|Memory allocation: size %u, available %u|Memory management message|3'',
      ''31|Scheduler context switch: from %u to %u|Process scheduling message|3'',
      ''32|Interrupt handled: vector %u, latency %u|Interrupt processing message|3'',
      ''33|System call: number %u, result %u|System call execution message|3'',
      ''34|IPC message sent: type %u, size %u|Inter-process communication message|3'',
      '''',
      ''# '' @ [CHR 0xE5, CHR 0xAE, CHR 0x89, CHR 0xE5, CHR 0x85, CHR 0xA8, CHR 0xE7, CHR 0x9B, CHR 0x91, CHR 0xE6, CHR 0x8E, CHR 0xA7, CHR 0xE6, CHR 0xB6, CHR 0x88, CHR 0xE6, CHR 0x81, CHR 0xAF] @ '' (40-49)'',
      ''40|Service graceful restart: pid %u, reason %u|Service controlled restart message|4'',
      ''41|Fault recovery state: from %u to %u|Fault recovery state transition message|4  '',
      ''42|System health assessment: score %u, trend %u|Dynamic health evaluation message|4'',
      ''43|Resource isolation triggered: service %u, level %u|Service isolation for safety message|4'',
      ''44|Safety monitor intervention: type %u, severity %u|Safety framework intervention message|4'',
      ''45|Security violation: user %u, resource %u, action %u|Security access violation message|4'',
      ''46|Permission check: user %u, operation %u, result %u|Permission verification message|4'',
      '''',
      ''# '' @ [CHR 0xE5, CHR 0x8A, CHR 0xA8, CHR 0xE6, CHR 0x80, CHR 0x81, CHR 0xE8, CHR 0xB5, CHR 0x84, CHR 0xE6, CHR 0xBA, CHR 0x90, CHR 0xE7, CHR 0xAE, CHR 0xA1, CHR 0xE7, CHR 0x90, CHR 0x86, CHR 0xE6, CHR 0xB6, CHR 0x88, CHR 0xE6, CHR 0x81, CHR 0xAF] @ '' (50-59)'',
      ''50|Service instance scaled: from %u to %u instances|Service dynamic scaling message|0'',
      ''51|Compute resource allocated: service %u, cores %u|Dynamic resource allocation message|0'',
      ''52|QoS policy updated: service %u, policy %u|Quality of service adjustment message|0'',
      ''53|Load balancing triggered: source %u, target %u|Load distribution change message|0'',
      ''54|Energy mode transition: from %u to %u|Power management state change message|0'',
      '''',
      ''# '' @ [CHR 0xE8, CHR 0xB7, CHR 0xA8, CHR 0xE5, CHR 0x9F, CHR 0x9F, CHR 0xE5, CHR 0x8D, CHR 0x8F, CHR 0xE5, CHR 0x90, CHR 0x8C, CHR 0xE6, CHR 0xB6, CHR 0x88, CHR 0xE6, CHR 0x81, CHR 0xAF] @ '' (60-69)'',
      ''60|Cross-service decision: services %u, consensus %u|Multi-service collaborative decision message|0'',
      ''61|Distributed state sync: domain %u, version %u|Distributed state synchronization message|0'',
      ''62|Fault tolerance activated: mechanism %u, level %u|Fault tolerance mechanism trigger message|0'',
      ''63|Data consistency message: partition %u, status %u|Data consistency management message|0'',
      ''64|Coordination protocol: phase %u, participants %u|Inter-service coordination message|0'',
      '''',
      ''# '' @ [CHR 0xE8, CHR 0xAF, CHR 0x8A, CHR 0xE6, CHR 0x96, CHR 0xAD, CHR 0xE4, CHR 0xB8, CHR 0x8E, CHR 0xE8, CHR 0xB0, CHR 0x83, CHR 0xE8, CHR 0xAF, CHR 0x95, CHR 0xE6, CHR 0xB6, CHR 0x88, CHR 0xE6, CHR 0x81, CHR 0xAF] @ '' (70-79)'',
      ''70|Diagnostic message: code %u, severity %u|Diagnostic message|0'',
      ''71|Heartbeat from process %u|Heartbeat monitoring message|0'',
      ''72|Performance profiling: service %u, metric %u|Performance measurement message|0'',
      ''73|Debug trace: component %u, detail %u|Development debugging message|0'',
      ''74|Configuration update: section %u, version %u|Runtime configuration change message|0'']"

fun join_lines :: "string list \<Rightarrow> string" where
  "join_lines [] = []"
| "join_lines [l] = l"
| "join_lines (l # l' # ls) = l @ newline # join_lines (l' # ls)"

definition formats_db :: string where
  "formats_db = join_lines formats_db_lines"

text \<open>Lines short enough for the buffer of \<open>fgets\<close> are returned one by one.\<close>

definition short_line :: "string \<Rightarrow> bool" where
  "short_line l \<longleftrightarrow> list_all (\<lambda>c. c \<noteq> newline) l \<and> length l < 511"

lemma takeWhile_short: "short_line l \<Longrightarrow> takeWhile (\<lambda>c. c \<noteq> newline) (take 511 (l @ newline # r)) = l"
proof -
  assume l: "short_line l"
  then have "take 511 (l @ newline # r) = l @ newline # take (510 - length l) r"
    by (simp add: short_line_def take_Cons')
  moreover have "takeWhile (\<lambda>c. c \<noteq> newline) (l @ newline # xs) = l" for xs
    using l by (subst takeWhile_append2) (auto simp: short_line_def list_all_iff)
  ultimately show ?thesis by simp
qed

lemma fgets_short: "short_line l \<Longrightarrow> fgets_lines (l @ newline # r) = (l @ [newline]) # fgets_lines r"
  using takeWhile_short [of l r]
  by (simp add: fgets_lines.simps [of "l @ newline # r"] short_line_def Let_def)

lemma fgets_last:
  assumes "short_line l" "l \<noteq> []"
  shows "fgets_lines l = [l]"
proof -
  have l: "takeWhile (\<lambda>c. c \<noteq> newline) l = l" "take 511 l = l"
    using assms(1) by (auto simp: short_line_def list_all_iff takeWhile_eq_all_conv)
  then show ?thesis
    using assms(2) by (subst fgets_lines.simps) (simp add: l fgets_lines.simps [of "[]"] Let_def)
qed

lemma fgets_join: "list_all short_line ls \<Longrightarrow> ls \<noteq> [] \<Longrightarrow> last ls \<noteq> [] \<Longrightarrow>
  fgets_lines (join_lines ls) = map (\<lambda>l. l @ [newline]) (butlast ls) @ [last ls]"
  by (induction ls rule: join_lines.induct) (auto simp: fgets_short fgets_last)

definition mk_format :: "nat \<times> string \<times> string \<times> nat \<Rightarrow> format_string_entry_t" where
  "mk_format e = (case e of (i, f, d, t) \<Rightarrow>
     \<lparr>fe_message_id = word_of_nat i, fe_format_string = f, fe_description = d, fe_message_type = int t\<rparr>)"

definition shipped_formats :: "format_string_entry_t list" where
  "shipped_formats = map mk_format
     [(0, ''System started at timestamp %u'', ''System startup message'', 0),
      (1, ''System shutdown at timestamp %u'', ''System shutdown message'', 0),
      (2, ''Service %u ready'', ''Service initialization complete message'', 0),
      (3, ''Service %u error: code %u'', ''Service error message'', 0),
      (4, ''Driver %u timeout after %u ms'', ''Driver timeout message'', 0),
      (5, ''Driver %u initialized successfully'', ''Driver initialization message'', 0),
      (6, ''CAN frame received: ID 0x%X, DLC %u'', ''CAN frame reception message'', 1),
      (7, ''CAN frame transmitted: ID 0x%X, DLC %u'', ''CAN frame transmission message'', 1),
      (8, ''CAN bus error: code %u, severity %u'', ''CAN bus error message'', 1),
      (9, ''CAN configuration updated: baudrate %u, mode %u'', ''CAN configuration change message'', 1),
      (10, ''UDS request: SID 0x%X, DID 0x%X'', ''UDS diagnostic request message'', 2),
      (11, ''UDS response: SID 0x%X, result %u'', ''UDS diagnostic response message'', 2),
      (12, ''UDS session changed: from %u to %u'', ''UDS session management message'', 2),
      (13, ''UDS security access: level %u, status %u'', ''UDS security access message'', 2),
      (14, ''UDS routine control: routine %u, result %u'', ''UDS routine control message'', 2),
      (20, ''AI model switched: from %u to %u'', ''AI model dynamic switching message'', 0),
      (21, ''AI pipeline state changed: stage %u, status %u'', ''AI pipeline state transition message'', 0),
      (22, ''Multi-modal fusion completed: sources %u, confidence %u'', ''Multi-sensor data fusion message'', 0),
      (23, ''Model performance adapted: old_latency %u ms, new_latency %u ms'', ''AI model performance adaptation message'', 0),
      (24, ''Inference QoS adjusted: target %u%%, actual %u%%'', ''AI service quality adjustment message'', 0),
      (30, ''Memory allocation: size %u, available %u'', ''Memory management message'', 3),
      (31, ''Scheduler context switch: from %u to %u'', ''Process scheduling message'', 3),
      (32, ''Interrupt handled: vector %u, latency %u'', ''Interrupt processing message'', 3),
      (33, ''System call: number %u, result %u'', ''System call execution message'', 3),
      (34, ''IPC message sent: type %u, size %u'', ''Inter-process communication message'', 3),
      (40, ''Service graceful restart: pid %u, reason %u'', ''Service controlled restart message'', 4),
      (41, ''Fault recovery state: from %u to %u'', ''Fault recovery state transition message'', 4),
      (42, ''System health assessment: score %u, trend %u'', ''Dynamic health evaluation message'', 4),
      (43, ''Resource isolation triggered: service %u, level %u'', ''Service isolation for safety message'', 4),
      (44, ''Safety monitor intervention: type %u, severity %u'', ''Safety framework intervention message'', 4),
      (45, ''Security violation: user %u, resource %u, action %u'', ''Security access violation message'', 4),
      (46, ''Permission check: user %u, operation %u, result %u'', ''Permission verification message'', 4),
      (50, ''Service instance scaled: from %u to %u instances'', ''Service dynamic scaling message'', 0),
      (51, ''Compute resource allocated: service %u, cores %u'', ''Dynamic resource allocation message'', 0),
      (52, ''QoS policy updated: service %u, policy %u'', ''Quality of service adjustment message'', 0),
      (53, ''Load balancing triggered: source %u, target %u'', ''Load distribution change message'', 0),
      (54, ''Energy mode transition: from %u to %u'', ''Power management state change message'', 0),
      (60, ''Cross-service decision: services %u, consensus %u'', ''Multi-service collaborative decision message'', 0),
      (61, ''Distributed state sync: domain %u, version %u'', ''Distributed state synchronization message'', 0),
      (62, ''Fault tolerance activated: mechanism %u, level %u'', ''Fault tolerance mechanism trigger message'', 0),
      (63, ''Data consistency message: partition %u, status %u'', ''Data consistency management message'', 0),
      (64, ''Coordination protocol: phase %u, participants %u'', ''Inter-service coordination message'', 0),
      (70, ''Diagnostic message: code %u, severity %u'', ''Diagnostic message'', 0),
      (71, ''Heartbeat from process %u'', ''Heartbeat monitoring message'', 0),
      (72, ''Performance profiling: service %u, metric %u'', ''Performance measurement message'', 0),
      (73, ''Debug trace: component %u, detail %u'', ''Development debugging message'', 0),
      (74, ''Configuration update: section %u, version %u'', ''Runtime configuration change message'', 0)]"

lemma formats_short: "list_all short_line formats_db_lines"
  by code_simp

lemma formats_scan:
  "List.map_filter scan_format_line
     (filter is_entry_line (map (\<lambda>l. l @ [newline]) (butlast formats_db_lines) @ [last formats_db_lines])) =
   shipped_formats"
  by code_simp

lemma shipped_formats_load: "load_format_database True (Some formats_db) = Some shipped_formats"
proof -
  have "formats_db_lines \<noteq> []" "last formats_db_lines \<noteq> []"
    by (simp_all add: formats_db_lines_def)
  then have "fgets_lines formats_db = map (\<lambda>l. l @ [newline]) (butlast formats_db_lines) @ [last formats_db_lines]"
    unfolding formats_db_def by (rule fgets_join [OF formats_short])
  then have scan: "List.map_filter scan_format_line (filter is_entry_line (fgets_lines formats_db)) = shipped_formats"
    by (simp only: formats_scan)
  moreover have "filter is_entry_line (fgets_lines formats_db) \<noteq> []"
  proof
    assume none: "filter is_entry_line (fgets_lines formats_db) = []"
    from scan have "shipped_formats = []" unfolding none by (simp add: List.map_filter_def)
    then show False by (simp add: shipped_formats_def)
  qed
  ultimately show ?thesis
    by (simp add: load_format_database_def load_database_def Let_def)
qed

definition shipped_tags :: "tag_name_entry_t list" where
  "shipped_tags = map (\<lambda>(i, n). \<lparr>te_tag_id = i, te_tag_name = n\<rparr>)
     [(0, ''SYSTEM''), (1, ''KERNEL  ''), (2, ''DRIVER_CAMERA''), (3, ''DRIVER_CAN''), (4, ''SERVICE_AI''),
      (5, ''SERVICE_DIAG''), (6, ''SERVICE_LOGGER''), (7, ''APPLICATION'')]"

lemma shipped_tags_load: "load_tag_database True (Some tags_db) = Some shipped_tags"
  by code_simp

text \<open>The parser after loading the two databases.\<close>

definition shipped_parser :: parser_state where
  "shipped_parser = parser_boot\<lparr>g_format_db := shipped_formats, g_tag_db := shipped_tags\<rparr>"

lemma shipped_parser_init: "log_parser_init True (Some formats_db) (Some tags_db) parser_boot = (0, shipped_parser)"
  by (simp add: parser_init_boot [OF shipped_formats_load shipped_tags_load] shipped_parser_def)

section \<open>What the shipped databases show\<close>

lemma shipped_texts:
  "map (log_parser_get_message_text shipped_parser)
     [LOG_MSG_SYSTEM_START, LOG_MSG_SYSTEM_SHUTDOWN, LOG_MSG_SERVICE_READY, LOG_MSG_SERVICE_ERROR,
      LOG_MSG_DRIVER_INIT, LOG_MSG_DRIVER_TIMEOUT, LOG_MSG_INTERRUPT_LATENCY_EXCEEDED,
      LOG_MSG_INVALID_INTERRUPT_NUMBER, LOG_MSG_INTERRUPT_STORM_DETECTED, LOG_MSG_TIMING_VIOLATION_DETECTED,
      LOG_MSG_INTERRUPT_PRIORITY_SET, LOG_MSG_INTERRUPT_PRIORITY_MISMATCH, LOG_MSG_INTERRUPT_ENABLED,
      LOG_MSG_AI_INFERENCE_START, LOG_MSG_AI_INFERENCE_RESULT, LOG_MSG_DIAG_MESSAGE, LOG_MSG_HEARTBEAT,
      LOG_MSG_STARTUP_PHASE] =
   [Some ''System started at timestamp %u'', Some ''System shutdown at timestamp %u'',
    Some ''Service %u ready'', Some ''Service %u error: code %u'',
    Some ''Driver %u timeout after %u ms'', Some ''Driver %u initialized successfully'',
    Some ''CAN frame received: ID 0x%X, DLC %u'', Some ''CAN frame transmitted: ID 0x%X, DLC %u'',
    Some ''CAN bus error: code %u, severity %u'', Some ''CAN configuration updated: baudrate %u, mode %u'',
    Some ''UDS request: SID 0x%X, DID 0x%X'', Some ''UDS response: SID 0x%X, result %u'',
    Some ''UDS session changed: from %u to %u'', Some ''UDS security access: level %u, status %u'',
    Some ''UDS routine control: routine %u, result %u'', None, None, None]"
  by code_simp

end
