(* ===== verification/Log_Files.thy ===== *)
theory Log_Files
  imports Log_Tests Shipped_Databases
begin

text \<open>
  Log files from the program that writes them to the tool that reads them: the generator
  tests/binary_log_generator.c, the file tests/comprehensive_test.bin of the repository, and the
  parser run on such files with the databases that come with it.
\<close>

section \<open>The generator\<close>

text \<open>The loop over the entries: how many bytes can be written in a round, the rounds, the bytes in
  the file and the number of entries.  An entry that cannot be made is skipped, an incomplete write
  ends the loop.\<close>

fun generator_loop :: "(nat \<Rightarrow> nat) \<Rightarrow> nat list \<Rightarrow> u8 list \<times> int \<Rightarrow> u8 list \<times> int" where
  "generator_loop room [] p = p"
| "generator_loop room (i # is) (bytes, entries_generated) =
     (case diverse_request i of (level, tag, message, data1, data2) \<Rightarrow>
        case log_create_entry mock_env True level tag message data1 data2 of
          (error, entry) \<Rightarrow>
            if error_code error \<noteq> ERR_BASE_OK then generator_loop room is (bytes, entries_generated)
            else
              case fwrite_item (room i) (entry_bytes (the entry)) of
                (item, written) \<Rightarrow>
                  if written \<noteq> 1 then (bytes @ item, entries_generated)
                  else generator_loop room is (bytes @ item, entries_generated + 1))"

text \<open>The exit code, the contents of the file (None when it cannot be created), the number of
  entries reported, and the state of the log library.\<close>

definition generator_main ::
  "bool \<Rightarrow> (nat \<Rightarrow> nat) \<Rightarrow> log_system \<Rightarrow> int \<times> u8 list option \<times> int \<times> log_system" where
  "generator_main fopen_ok room s =
     (if \<not> fopen_ok then (1, None, 0, s)
      else
        case log_system_init_safe s of
          (error, s1) \<Rightarrow>
            if error_code error \<noteq> ERR_BASE_OK then (1, Some [], 0, s1)
            else (case generator_loop room [0..<100] ([], 0) of
                    (bytes, n) \<Rightarrow> (0, Some bytes, n, s1)))"

lemma diverse_in_range: "in_range (diverse_request i)"
  by (auto simp: diverse_request_def unat_of_nat intro: less_trans [of _ 8] less_trans [of _ 10])

lemma create_request:
  "in_range r \<Longrightarrow> (case r of (l, t, m, a, b) \<Rightarrow> log_create_entry mock_env True l t m a b) = (log_ok, Some (request_entry r))"
  by (cases r)
     (simp add: log_create_entry_def log_safety_checks_def LOG_LEVEL_COUNT_def LOG_TAG_COUNT_def
       LOG_MSG_COUNT_def mock_env_def mock_sys_getpid_def mock_time_get_us_def)

text \<open>The rounds before the first incomplete write, and the part of an entry that this write leaves.\<close>

abbreviation full_rounds :: "(nat \<Rightarrow> nat) \<Rightarrow> nat list \<Rightarrow> nat list" where
  "full_rounds room is \<equiv> takeWhile (\<lambda>i. 20 \<le> room i) is"

lemma generator_loop_all:
  "\<exists>rest. length rest < 20 \<and> generator_loop room is (bytes, n) =
    (bytes @ concat (map (entry_bytes \<circ> request_entry \<circ> diverse_request) (full_rounds room is)) @ rest,
     n + int (length (full_rounds room is)))"
proof (induction "is" arbitrary: bytes n)
  case Nil
  then show ?case by (intro exI [of _ "[]"]) simp
next
  case (Cons i "is")
  obtain l t m a b where r: "diverse_request i = (l, t, m, a, b)" by (rule prod_cases5)
  from create_request [OF diverse_in_range, of i]
  have made: "log_create_entry mock_env True l t m a b = (log_ok, Some (request_entry (diverse_request i)))"
    by (simp add: r)
  show ?case
  proof (cases "20 \<le> room i")
    case True
    then show ?thesis
      using Cons.IH [of "bytes @ entry_bytes (request_entry (diverse_request i))" "n + 1"] made
      by (auto simp: r fwrite_item_def simp del: request_entry.simps)
  next
    case False
    then show ?thesis
      using made
      by (intro exI [of _ "take (room i) (entry_bytes (request_entry (diverse_request i)))"])
         (simp add: r fwrite_item_def del: request_entry.simps)
  qed
qed

text \<open>Stopped by the first write that is incomplete, the generator has written the entries before it.\<close>

lemma generator_main_written:
  "\<exists>rest. length rest < 20 \<and> generator_main True room s =
    (0, Some (concat (map (entry_bytes \<circ> request_entry \<circ> diverse_request) (full_rounds room [0..<100])) @ rest),
     int (length (full_rounds room [0..<100])), snd (log_system_init_safe s))"
proof -
  obtain rest where "length rest < 20" "generator_loop room [0..<100] ([], 0) =
    ([] @ concat (map (entry_bytes \<circ> request_entry \<circ> diverse_request) (full_rounds room [0..<100])) @ rest,
     0 + int (length (full_rounds room [0..<100])))"
    using generator_loop_all by blast
  then show ?thesis
    by (intro exI [of _ rest]) (simp add: generator_main_def log_system_init_safe_def del: upt_Suc)
qed

section \<open>The file of the repository\<close>

definition comprehensive_bin :: "u8 list" where
  "comprehensive_bin = concat
     [[0x00, 0x00, 0x00, 0x00, 0x00, 0x00, 0x02, 0x00, 0x00, 0x00, 0x01, 0x00, 0x00, 0x10, 0x01, 0x00, 0x00, 0x20, 0x34, 0x00],
      [0x00, 0x00, 0x00, 0x00, 0x00, 0x00, 0x02, 0x01, 0x01, 0x00, 0x02, 0x00, 0x00, 0x10, 0x02, 0x00, 0x00, 0x20, 0x38, 0x00],
      [0x00, 0x00, 0x00, 0x00, 0x00, 0x00, 0x02, 0x02, 0x04, 0x00, 0x03, 0x00, 0x00, 0x10, 0x03, 0x00, 0x00, 0x20, 0x3E, 0x00],
      [0x00, 0x00, 0x00, 0x00, 0x00, 0x00, 0x01, 0x03, 0x05, 0x00, 0x04, 0x00, 0x00, 0x10, 0x04, 0x00, 0x00, 0x20, 0x41, 0x00],
      [0x00, 0x00, 0x00, 0x00, 0x00, 0x00, 0x03, 0x04, 0x06, 0x00, 0x05, 0x00, 0x00, 0x10, 0x05, 0x00, 0x00, 0x20, 0x47, 0x00],
      [0x00, 0x00, 0x00, 0x00, 0x00, 0x00, 0x02, 0x05, 0x08, 0x00, 0x06, 0x00, 0x00, 0x10, 0x06, 0x00, 0x00, 0x20, 0x4B, 0x00],
      [0x00, 0x00, 0x00, 0x00, 0x00, 0x00, 0x03, 0x06, 0x09, 0x00, 0x07, 0x00, 0x00, 0x10, 0x07, 0x00, 0x00, 0x20, 0x50, 0x00],
      [0x00, 0x00, 0x00, 0x00, 0x00, 0x00, 0x02, 0x07, 0x02, 0x00, 0x08, 0x00, 0x00, 0x10, 0x08, 0x00, 0x00, 0x20, 0x4B, 0x00],
      [0x00, 0x00, 0x00, 0x00, 0x00, 0x00, 0x00, 0x00, 0x00, 0x00, 0x55, 0x55, 0x55, 0x55, 0x66, 0x66, 0x66, 0x66, 0xEC, 0x02],
      [0x00, 0x00, 0x00, 0x00, 0x00, 0x00, 0x01, 0x00, 0x01, 0x00, 0x77, 0x77, 0x77, 0x77, 0x88, 0x88, 0x88, 0x88, 0xFE, 0x03],
      [0x00, 0x00, 0x00, 0x00, 0x00, 0x00, 0x02, 0x04, 0x02, 0x00, 0x99, 0x99, 0x99, 0x99, 0xAA, 0xAA, 0xAA, 0xAA, 0x14, 0x05],
      [0x00, 0x00, 0x00, 0x00, 0x00, 0x00, 0x01, 0x05, 0x03, 0x00, 0xBB, 0xBB, 0xBB, 0xBB, 0xCC, 0xCC, 0xCC, 0xCC, 0x25, 0x06],
      [0x00, 0x00, 0x00, 0x00, 0x00, 0x00, 0x02, 0x02, 0x04, 0x00, 0xDD, 0xDD, 0xDD, 0xDD, 0xEE, 0xEE, 0xEE, 0xEE, 0x34, 0x07],
      [0x00, 0x00, 0x00, 0x00, 0x00, 0x00, 0x01, 0x03, 0x05, 0x00, 0xFF, 0xFF, 0xFF, 0xFF, 0x11, 0x11, 0x11, 0x11, 0x49, 0x04],
      [0x00, 0x00, 0x00, 0x00, 0x00, 0x00, 0x03, 0x04, 0x06, 0x00, 0x22, 0x22, 0x22, 0x22, 0x33, 0x33, 0x33, 0x33, 0x61, 0x01],
      [0x00, 0x00, 0x00, 0x00, 0x00, 0x00, 0x02, 0x04, 0x07, 0x00, 0x44, 0x44, 0x44, 0x44, 0x55, 0x55, 0x55, 0x55, 0x71, 0x02],
      [0x00, 0x00, 0x00, 0x00, 0x00, 0x00, 0x02, 0x05, 0x08, 0x00, 0x66, 0x66, 0x66, 0x66, 0x77, 0x77, 0x77, 0x77, 0x83, 0x03],
      [0x00, 0x00, 0x00, 0x00, 0x00, 0x00, 0x03, 0x00, 0x09, 0x00, 0x88, 0x88, 0x88, 0x88, 0x99, 0x99, 0x99, 0x99, 0x90, 0x04],
      [0x00, 0x00, 0x00, 0x00, 0x00, 0x00, 0x00, 0x00, 0x00, 0x00, 0x01, 0x00, 0x00, 0x00, 0x00, 0x00, 0x00, 0x00, 0x01, 0x00],
      [0x00, 0x00, 0x00, 0x00, 0x00, 0x00, 0x02, 0x01, 0x00, 0x00, 0x02, 0x00, 0x00, 0x00, 0x00, 0x00, 0x00, 0x00, 0x05, 0x00],
      [0x00, 0x00, 0x00, 0x00, 0x00, 0x00, 0x02, 0x02, 0x04, 0x00, 0x01, 0x00, 0x01, 0x00, 0x02, 0x00, 0x02, 0x00, 0x0E, 0x00],
      [0x00, 0x00, 0x00, 0x00, 0x00, 0x00, 0x02, 0x03, 0x04, 0x00, 0x02, 0x00, 0x01, 0x00, 0x03, 0x00, 0x02, 0x00, 0x11, 0x00],
      [0x00, 0x00, 0x00, 0x00, 0x00, 0x00, 0x03, 0x04, 0x06, 0x00, 0x01, 0x00, 0x10, 0x00, 0x01, 0x00, 0x20, 0x00, 0x3F, 0x00],
      [0x00, 0x00, 0x00, 0x00, 0x00, 0x00, 0x02, 0x04, 0x07, 0x00, 0x02, 0x00, 0x10, 0x00, 0x02, 0x00, 0x20, 0x00, 0x41, 0x00],
      [0x00, 0x00, 0x00, 0x00, 0x00, 0x00, 0x02, 0x05, 0x08, 0x00, 0x01, 0x00, 0x00, 0x01, 0x01, 0x00, 0x00, 0x02, 0x14, 0x00],
      [0x00, 0x00, 0x00, 0x00, 0x00, 0x00, 0x03, 0x00, 0x09, 0x00, 0x01, 0x00, 0x00, 0x03, 0x01, 0x00, 0x00, 0x04, 0x15, 0x00],
      [0x00, 0x00, 0x00, 0x00, 0x00, 0x00, 0x02, 0x07, 0x02, 0x00, 0x01, 0x00, 0x00, 0x05, 0x01, 0x00, 0x00, 0x06, 0x18, 0x00],
      [0x00, 0x00, 0x00, 0x00, 0x00, 0x00, 0x01, 0x03, 0x05, 0x00, 0x01, 0x00, 0x00, 0x07, 0x01, 0x00, 0x00, 0x08, 0x1A, 0x00],
      [0x00, 0x00, 0x00, 0x00, 0x00, 0x00, 0x01, 0x05, 0x03, 0x00, 0x01, 0x00, 0x00, 0x09, 0x01, 0x00, 0x00, 0x0A, 0x1E, 0x00],
      [0x00, 0x00, 0x00, 0x00, 0x00, 0x00, 0x01, 0x00, 0x01, 0x00, 0x01, 0x00, 0x00, 0x0B, 0x01, 0x00, 0x00, 0x0C, 0x1B, 0x00],
      [0x00, 0x00, 0x00, 0x00, 0x00, 0x00, 0x00, 0x00, 0x00, 0x00, 0x00, 0x00, 0x00, 0x00, 0x00, 0x00, 0x00, 0x00, 0x00, 0x00],
      [0x00, 0x00, 0x00, 0x00, 0x00, 0x00, 0x03, 0x07, 0x09, 0x00, 0xFF, 0xFF, 0xFF, 0xFF, 0xFF, 0xFF, 0xFF, 0xFF, 0x0B, 0x08],
      [0x00, 0x00, 0x00, 0x00, 0x00, 0x00, 0x00, 0x00, 0x00, 0x00, 0x00, 0x00, 0x00, 0x10, 0x00, 0x00, 0x00, 0x20, 0x30, 0x00],
      [0x00, 0x00, 0x00, 0x00, 0x00, 0x00, 0x01, 0x01, 0x01, 0x00, 0x01, 0x00, 0x00, 0x10, 0x02, 0x00, 0x00, 0x20, 0x36, 0x00],
      [0x00, 0x00, 0x00, 0x00, 0x00, 0x00, 0x02, 0x02, 0x02, 0x00, 0x02, 0x00, 0x00, 0x10, 0x04, 0x00, 0x00, 0x20, 0x3C, 0x00],
      [0x00, 0x00, 0x00, 0x00, 0x00, 0x00, 0x03, 0x03, 0x03, 0x00, 0x03, 0x00, 0x00, 0x10, 0x06, 0x00, 0x00, 0x20, 0x42, 0x00],
      [0x00, 0x00, 0x00, 0x00, 0x00, 0x00, 0x00, 0x04, 0x04, 0x00, 0x04, 0x00, 0x00, 0x10, 0x08, 0x00, 0x00, 0x20, 0x44, 0x00],
      [0x00, 0x00, 0x00, 0x00, 0x00, 0x00, 0x01, 0x05, 0x05, 0x00, 0x05, 0x00, 0x00, 0x10, 0x0A, 0x00, 0x00, 0x20, 0x4A, 0x00],
      [0x00, 0x00, 0x00, 0x00, 0x00, 0x00, 0x02, 0x06, 0x06, 0x00, 0x06, 0x00, 0x00, 0x10, 0x0C, 0x00, 0x00, 0x20, 0x50, 0x00],
      [0x00, 0x00, 0x00, 0x00, 0x00, 0x00, 0x03, 0x07, 0x07, 0x00, 0x07, 0x00, 0x00, 0x10, 0x0E, 0x00, 0x00, 0x20, 0x56, 0x00],
      [0x00, 0x00, 0x00, 0x00, 0x00, 0x00, 0x00, 0x00, 0x08, 0x00, 0x08, 0x00, 0x00, 0x10, 0x10, 0x00, 0x00, 0x20, 0x50, 0x00],
      [0x00, 0x00, 0x00, 0x00, 0x00, 0x00, 0x01, 0x01, 0x09, 0x00, 0x09, 0x00, 0x00, 0x10, 0x12, 0x00, 0x00, 0x20, 0x56, 0x00],
      [0x00, 0x00, 0x00, 0x00, 0x00, 0x00, 0x02, 0x02, 0x00, 0x00, 0x0A, 0x00, 0x00, 0x10, 0x14, 0x00, 0x00, 0x20, 0x52, 0x00],
      [0x00, 0x00, 0x00, 0x00, 0x00, 0x00, 0x03, 0x03, 0x01, 0x00, 0x0B, 0x00, 0x00, 0x10, 0x16, 0x00, 0x00, 0x20, 0x58, 0x00],
      [0x00, 0x00, 0x00, 0x00, 0x00, 0x00, 0x00, 0x04, 0x02, 0x00, 0x0C, 0x00, 0x00, 0x10, 0x18, 0x00, 0x00, 0x20, 0x5A, 0x00],
      [0x00, 0x00, 0x00, 0x00, 0x00, 0x00, 0x01, 0x05, 0x03, 0x00, 0x0D, 0x00, 0x00, 0x10, 0x1A, 0x00, 0x00, 0x20, 0x60, 0x00],
      [0x00, 0x00, 0x00, 0x00, 0x00, 0x00, 0x02, 0x06, 0x04, 0x00, 0x0E, 0x00, 0x00, 0x10, 0x1C, 0x00, 0x00, 0x20, 0x66, 0x00],
      [0x00, 0x00, 0x00, 0x00, 0x00, 0x00, 0x03, 0x07, 0x05, 0x00, 0x0F, 0x00, 0x00, 0x10, 0x1E, 0x00, 0x00, 0x20, 0x6C, 0x00],
      [0x00, 0x00, 0x00, 0x00, 0x00, 0x00, 0x00, 0x00, 0x06, 0x00, 0x10, 0x00, 0x00, 0x10, 0x20, 0x00, 0x00, 0x20, 0x66, 0x00],
      [0x00, 0x00, 0x00, 0x00, 0x00, 0x00, 0x01, 0x01, 0x07, 0x00, 0x11, 0x00, 0x00, 0x10, 0x22, 0x00, 0x00, 0x20, 0x6C, 0x00],
      [0x00, 0x00, 0x00, 0x00, 0x00, 0x00, 0x02, 0x02, 0x08, 0x00, 0x12, 0x00, 0x00, 0x10, 0x24, 0x00, 0x00, 0x20, 0x72, 0x00],
      [0x00, 0x00, 0x00, 0x00, 0x00, 0x00, 0x03, 0x03, 0x09, 0x00, 0x13, 0x00, 0x00, 0x10, 0x26, 0x00, 0x00, 0x20, 0x78, 0x00],
      [0x00, 0x00, 0x00, 0x00, 0x00, 0x00, 0x00, 0x04, 0x00, 0x00, 0x14, 0x00, 0x00, 0x10, 0x28, 0x00, 0x00, 0x20, 0x70, 0x00],
      [0x00, 0x00, 0x00, 0x00, 0x00, 0x00, 0x01, 0x05, 0x01, 0x00, 0x15, 0x00, 0x00, 0x10, 0x2A, 0x00, 0x00, 0x20, 0x76, 0x00],
      [0x00, 0x00, 0x00, 0x00, 0x00, 0x00, 0x02, 0x06, 0x02, 0x00, 0x16, 0x00, 0x00, 0x10, 0x2C, 0x00, 0x00, 0x20, 0x7C, 0x00],
      [0x00, 0x00, 0x00, 0x00, 0x00, 0x00, 0x03, 0x07, 0x03, 0x00, 0x17, 0x00, 0x00, 0x10, 0x2E, 0x00, 0x00, 0x20, 0x82, 0x00],
      [0x00, 0x00, 0x00, 0x00, 0x00, 0x00, 0x00, 0x00, 0x04, 0x00, 0x18, 0x00, 0x00, 0x10, 0x30, 0x00, 0x00, 0x20, 0x7C, 0x00],
      [0x00, 0x00, 0x00, 0x00, 0x00, 0x00, 0x01, 0x01, 0x05, 0x00, 0x19, 0x00, 0x00, 0x10, 0x32, 0x00, 0x00, 0x20, 0x82, 0x00],
      [0x00, 0x00, 0x00, 0x00, 0x00, 0x00, 0x02, 0x02, 0x06, 0x00, 0x1A, 0x00, 0x00, 0x10, 0x34, 0x00, 0x00, 0x20, 0x88, 0x00],
      [0x00, 0x00, 0x00, 0x00, 0x00, 0x00, 0x03, 0x03, 0x07, 0x00, 0x1B, 0x00, 0x00, 0x10, 0x36, 0x00, 0x00, 0x20, 0x8E, 0x00],
      [0x00, 0x00, 0x00, 0x00, 0x00, 0x00, 0x00, 0x04, 0x08, 0x00, 0x1C, 0x00, 0x00, 0x10, 0x38, 0x00, 0x00, 0x20, 0x90, 0x00],
      [0x00, 0x00, 0x00, 0x00, 0x00, 0x00, 0x01, 0x05, 0x09, 0x00, 0x1D, 0x00, 0x00, 0x10, 0x3A, 0x00, 0x00, 0x20, 0x96, 0x00],
      [0x00, 0x00, 0x00, 0x00, 0x00, 0x00, 0x02, 0x06, 0x00, 0x00, 0x1E, 0x00, 0x00, 0x10, 0x3C, 0x00, 0x00, 0x20, 0x92, 0x00],
      [0x00, 0x00, 0x00, 0x00, 0x00, 0x00, 0x03, 0x07, 0x01, 0x00, 0x1F, 0x00, 0x00, 0x10, 0x3E, 0x00, 0x00, 0x20, 0x98, 0x00]]"

text \<open>The numbers of a request before log_common.h had a tag and seven messages for interrupts.\<close>

fun before_interrupts :: "record_request \<Rightarrow> record_request" where
  "before_interrupts (l, t, m, a, b) =
     (l, if t < LOG_TAG_INTERRUPT then t else t - 1, if m < LOG_MSG_INTERRUPT_LATENCY_EXCEEDED then m else m - 7, a, b)"

text \<open>The image of an entry of the test programs, with its checksum.\<close>

lemma request_image:
  "entry_bytes (request_entry (l, t, m, a, b)) =
    [0, 0, 0, 0, 0, 0, l, t] @ le16 m @ le32 a @ le32 b @ le16 (word_of_nat (request_sum (l, t, m, a, b)))"
proof -
  have "sum_bytes (le32 0) = 0" "sum_bytes (le16 0) = 0" "le32 0 = [0, 0, 0, 0]" "le16 0 = [0, 0]"
    by (simp_all add: le32_def le16_def)
  moreover have "le_checksum (request_entry (l, t, m, a, b)) = word_of_nat (request_sum (l, t, m, a, b))"
    using calculation
    by (simp add: body_new_entry add.assoc flip: request_entry_checksum [of "(l, t, m, a, b)", unfolded request_entry.simps]
        add: log_calculate_checksum_eq)
  ultimately show ?thesis
    by (simp add: entry_bytes_def body_new_entry)
qed

lemma named_images:
  "concat (map (entry_bytes \<circ> request_entry \<circ> before_interrupts)
      (tag_type_requests @ message_type_requests @ scenario_requests @ boundary_requests)) =
    take 640 comprehensive_bin"
  by (simp add: comprehensive_bin_def tag_type_requests_def message_type_requests_def scenario_requests_def
      boundary_requests_def request_image le32_def le16_def del: request_entry.simps)

lemma diverse_images:
  "concat (map (entry_bytes \<circ> request_entry \<circ> diverse_request) [0..<32]) = drop 640 comprehensive_bin"
  by (simp add: comprehensive_bin_def diverse_request_def request_image le32_def le16_def upt_rec
      del: request_entry.simps)

text \<open>The file in the repository is what the comprehensive test writes, byte for byte, under older
  numbers: its 32 rounds with computed numbers give exactly the second half of the file, and the
  first half is the images of the other 32 entries with the numbers from before the interrupt
  tag and messages were added to log_common.h.  It is not what the program writes today.\<close>

theorem committed_file_predates_interrupt_messages:
  "comprehensive_bin =
     concat (map (entry_bytes \<circ> request_entry \<circ> before_interrupts)
       (tag_type_requests @ message_type_requests @ scenario_requests @ boundary_requests)) @
     concat (map (entry_bytes \<circ> request_entry \<circ> diverse_request) [0..<32]) \<and>
   comprehensive_bin \<noteq>
     concat (map (entry_bytes \<circ> request_entry)
       (tag_type_requests @ message_type_requests @ scenario_requests @ boundary_requests @
        map diverse_request [0..<32]))"
proof
  show "comprehensive_bin =
     concat (map (entry_bytes \<circ> request_entry \<circ> before_interrupts)
       (tag_type_requests @ message_type_requests @ scenario_requests @ boundary_requests)) @
     concat (map (entry_bytes \<circ> request_entry \<circ> diverse_request) [0..<32])"
    by (simp only: named_images diverse_images append_take_drop_id)
  let ?file = "concat (map (entry_bytes \<circ> request_entry)
       (tag_type_requests @ message_type_requests @ scenario_requests @ boundary_requests @
        map diverse_request [0..<32]))"
  have "take 80 comprehensive_bin ! 67 = 3"
    by (simp add: comprehensive_bin_def)
  moreover have "take 80 (concat (map (entry_bytes \<circ> request_entry) (tag_type_requests @ rs))) ! 67 = 4" for rs
    by (simp add: tag_type_requests_def request_image le32_def le16_def del: request_entry.simps)
  then have "take 80 ?file ! 67 = 4" .
  moreover have "(3 :: u8) \<noteq> 4" by simp
  ultimately show "comprehensive_bin \<noteq> ?file" by metis
qed

section \<open>Every entry of the logger has a line\<close>

lemma small_u16:
  assumes "unat (m :: u16) < 18"
  shows "m \<in> {0, 1, 2, 3, 4, 5, 6, 7, 8, 9, 10, 11, 12, 13, 14, 15, 16, 17}"
proof -
  have "unat m \<in> set [0..<18]" using assms by simp
  then show ?thesis
    by (simp add: upt_rec) (auto simp: word_unat_eq_iff)
qed

text \<open>The texts of the message numbers in use ask for at most the two words that an entry has, so
  \<open>printf\<close> is never called with too few arguments.\<close>

lemma shipped_line:
  assumes "unat (le_message_id e) < 18"
  shows "\<exists>line. format_plain shipped_parser e = Some line"
  using small_u16 [OF assms] shipped_texts
  by (auto simp: format_plain_def Let_def simp del: upt_Suc)

lemma shipped_tag_lookup:
  "log_parser_get_tag_name shipped_parser LOG_TAG_KERNEL = ''KERNEL  ''"
  "log_parser_get_tag_name shipped_parser LOG_TAG_DRIVER_CAMERA = ''DRIVER_CAN''"
  "log_parser_get_tag_name shipped_parser LOG_TAG_APPLICATION = ''UNKNOWN''"
  by code_simp+

lemma new_entry_fields [simp]:
  "le_timestamp (new_entry ts p l t m a b) = ts" "le_tag_id (new_entry ts p l t m a b) = t"
  "le_message_id (new_entry ts p l t m a b) = m" "le_data0 (new_entry ts p l t m a b) = a"
  "le_data1 (new_entry ts p l t m a b) = b"
  by (simp_all add: new_entry_def with_checksum_def)

text \<open>The databases that come with the tool belong to older numbers.  The two driver messages are
  exchanged and the camera has the name of the CAN bus, so the entry of a camera that has started
  is shown as a timeout of the CAN driver, and a timeout as a successful start; a heartbeat of an
  application has neither a name nor a text.\<close>

theorem shipped_databases_mislabel:
  "format_plain shipped_parser (new_entry ts pid l LOG_TAG_DRIVER_CAMERA LOG_MSG_DRIVER_INIT a b) =
     Some (''['' @ dec (unat ts) @ ''] DRIVER_CAN: Driver '' @ dec (unat a) @ '' timeout after '' @ dec (unat b) @
       '' ms'' @ [newline]) \<and>
   format_plain shipped_parser (new_entry ts pid l LOG_TAG_DRIVER_CAMERA LOG_MSG_DRIVER_TIMEOUT a b) =
     Some (''['' @ dec (unat ts) @ ''] DRIVER_CAN: Driver '' @ dec (unat a) @ '' initialized successfully'' @ [newline]) \<and>
   format_plain shipped_parser (new_entry ts pid l LOG_TAG_APPLICATION LOG_MSG_HEARTBEAT a b) =
     Some (''['' @ dec (unat ts) @ ''] UNKNOWN: Unknown message 16 (data: '' @ dec (unat a) @ '', '' @
       dec (unat b) @ '')'' @ [newline])"
proof -
  have "dec 16 = ''16''" by code_simp
  then show ?thesis
    using shipped_texts by (simp add: format_plain_def shipped_tag_lookup)
qed

section \<open>The tool on the files of the logger\<close>

lemma text_of_ascii: "text_of (ascii str) = str"
proof -
  have "char_of (unat (word_of_nat (of_char c) :: u8)) = c" for c
  proof -
    have "(of_char c :: nat) < 256" using nat_of_char_less_256 [of c] by simp
    then show ?thesis by (simp add: unat_of_nat)
  qed
  then show ?thesis by (simp add: text_of_def ascii_def comp_def)
qed

lemma shipped_dbs:
  assumes "contents env (db_path dir ''/formats.db'') = Some (ascii formats_db)"
    and "contents env (db_path dir ''/tags.db'') = Some (ascii tags_db)" and "db_malloc_ok env"
  shows "load_format_database (db_malloc_ok env)
      (map_option text_of (contents env (db_path dir ''/formats.db''))) = Some shipped_formats"
    and "load_tag_database (db_malloc_ok env)
      (map_option text_of (contents env (db_path dir ''/tags.db''))) = Some shipped_tags"
  using assms by (simp_all add: text_of_ascii shipped_formats_load shipped_tags_load)

lemma rendered_some: "(\<And>e. e \<in> set es \<Longrightarrow> \<exists>line. render e = Some line) \<Longrightarrow> \<exists>text. rendered render es = Some text"
proof (induction es)
  case (Cons e es)
  then obtain line where "render e = Some line" by force
  with Cons show ?case by (auto simp: join_output_def)
qed simp

lemma created_message: "log_create_entry env True l t m a b = (err, Some e) \<Longrightarrow> unat (le_message_id e) < 18"
  by (auto simp: log_create_entry_def log_safety_checks_def LOG_LEVEL_COUNT_def LOG_TAG_COUNT_def
      LOG_MSG_COUNT_def split: if_splits)

text \<open>The shipped tool on a log file of the logger: called with the names of an input file, which
  holds entries that \<open>log_create_entry\<close> made and perhaps a part of another one, and of another file that can be written, and with the
  databases of the repository beside it, it exits with 0, its output is defined and is the plain line
  of every entry in order, and it reports all entries as valid, none corrupted and none unknown.\<close>

lemma shipped_tool_run:
  assumes dir: "exe_dir env = Some dir" "length dir < PATH_MAX"
    and names: "\<not> is_option inp" "\<not> is_option out" "inp \<noteq> out"
    and files: "contents env inp = Some (concat (map entry_bytes es) @ rest)" "can_write env out"
    and dbs: "contents env (db_path dir ''/formats.db'') = Some (ascii formats_db)"
      "contents env (db_path dir ''/tags.db'') = Some (ascii tags_db)" "db_malloc_ok env"
    and made: "\<And>e. e \<in> set es \<Longrightarrow> \<exists>env l t m a b err. log_create_entry env True l t m a b = (err, Some e)"
    and len: "length es < 2 ^ 32" "length rest < 20"
  shows "case main env [inp, out] parser_boot of (code, output, s') \<Rightarrow>
    code = 0 \<and> (\<exists>lines. output = Some lines \<and> rendered (format_plain shipped_parser) es = Some lines) \<and>
    unat (total_entries_parsed (log_parser_get_stats s')) = length es \<and>
    unat (valid_entries (log_parser_get_stats s')) = length es \<and>
    corrupted_entries (log_parser_get_stats s') = 0 \<and> unknown_messages (log_parser_get_stats s') = 0"
proof -
  have "\<exists>line. format_plain shipped_parser e = Some line" if "e \<in> set es" for e
    using made [OF that] created_message by (blast intro: shipped_line)
  then obtain lines where "rendered (format_plain shipped_parser) es = Some lines"
    using rendered_some by blast
  then show ?thesis
    using tool_converts_logger_file [OF dir names files shipped_dbs [OF dbs] made len]
    by (simp add: case_prod_unfold flip: shipped_parser_def)
qed

text \<open>The tool in the directory \<open>/opt\<close> beside its databases, and a log file.\<close>

definition tool_files :: "string \<Rightarrow> u8 list option \<Rightarrow> tool_env" where
  "tool_files name file =
     \<lparr>exe_dir = Some ''/opt'',
      contents = (\<lambda>p. if p = ''/opt/formats.db'' then Some (ascii formats_db)
                      else if p = ''/opt/tags.db'' then Some (ascii tags_db)
                      else if p = name then file else None),
      can_write = (\<lambda>p. p = ''out.txt''), db_malloc_ok = True\<rparr>"

lemma db_paths:
  "db_path ''/opt'' ''/formats.db'' = ''/opt/formats.db''" "db_path ''/opt'' ''/tags.db'' = ''/opt/tags.db''"
  by code_simp+

lemma request_made: "in_range r \<Longrightarrow> \<exists>env l t m a b err. log_create_entry env True l t m a b = (err, Some (request_entry r))"
proof (cases r)
  case (fields l t m a b)
  moreover assume "in_range r"
  ultimately have "log_create_entry mock_env True l t m a b = (log_ok, Some (request_entry r))"
    using create_request [of r] by simp
  then show ?thesis by blast
qed

lemma tool_on_requests:
  assumes "list_all in_range rs" "length rs < 2 ^ 32" "length rest < 20"
    and "\<not> is_option name" "name \<notin> {''out.txt'', ''/opt/formats.db'', ''/opt/tags.db''}"
  shows "case main (tool_files name (Some (concat (map (entry_bytes \<circ> request_entry) rs) @ rest))) [name, ''out.txt'']
      parser_boot of (code, output, s') \<Rightarrow>
    code = 0 \<and>
    (\<exists>lines. output = Some lines \<and> rendered (format_plain shipped_parser) (map request_entry rs) = Some lines) \<and>
    unat (total_entries_parsed (log_parser_get_stats s')) = length rs \<and>
    unat (valid_entries (log_parser_get_stats s')) = length rs \<and>
    corrupted_entries (log_parser_get_stats s') = 0 \<and> unknown_messages (log_parser_get_stats s') = 0"
proof -
  let ?es = "map request_entry rs"
  have "\<exists>env l t m a b err. log_create_entry env True l t m a b = (err, Some e)" if "e \<in> set ?es" for e
    using that assms(1) request_made by (auto simp: list_all_iff simp del: request_entry.simps in_range.simps)
  note run = shipped_tool_run [where es = ?es and env = "tool_files name (Some (concat (map entry_bytes ?es) @ rest))" and rest = rest
      and inp = name and out = "''out.txt''" and dir = "''/opt''", OF _ _ _ _ _ _ _ _ _ _ this]
  show ?thesis
    using run assms(2-5)
    by (simp add: tool_files_def db_paths PATH_MAX_def is_option_def case_prod_unfold comp_def
        del: request_entry.simps)
qed

text \<open>C34: The generator and the tool agree, whenever writing stops.  The generator exits with 0 and
  reports the number of entries before the first incomplete write; the tool, run on the file with the
  databases of the repository, exits with 0, finds exactly that many entries, all valid, none corrupted
  and none unknown, and writes their lines in order.  The part of an entry that the last write left at
  the end of the file is ignored.\<close>

theorem generator_to_tool:
  "case generator_main True room s of (code, file, entries_generated, s1) \<Rightarrow>
    code = 0 \<and>
    (case main (tool_files ''binary_test.log'' file) [''binary_test.log'', ''out.txt''] parser_boot of
       (code', output, s') \<Rightarrow>
         code' = 0 \<and> output \<noteq> None \<and>
         output = rendered (format_plain shipped_parser)
           (map (request_entry \<circ> diverse_request) (takeWhile (\<lambda>i. 20 \<le> room i) [0..<100])) \<and>
         int (unat (total_entries_parsed (log_parser_get_stats s'))) = entries_generated \<and>
         int (unat (valid_entries (log_parser_get_stats s'))) = entries_generated \<and>
         corrupted_entries (log_parser_get_stats s') = 0 \<and> unknown_messages (log_parser_get_stats s') = 0)"
proof -
  let ?is = "full_rounds room [0..<100]"
  let ?rs = "map diverse_request ?is"
  obtain rest where rest: "length rest < 20" and run: "generator_main True room s =
      (0, Some (concat (map (entry_bytes \<circ> request_entry) ?rs) @ rest), int (length ?is), snd (log_system_init_safe s))"
    using generator_main_written [of room s] by (auto simp: comp_assoc simp del: upt_Suc)
  have "list_all in_range ?rs"
    by (simp add: list_all_iff diverse_in_range del: in_range.simps)
  moreover have "length ?rs < 2 ^ 32"
    using length_takeWhile_le [of "\<lambda>i. 20 \<le> room i" "[0..<100]"] by simp
  moreover obtain code written s' where
    "main (tool_files ''binary_test.log'' (Some (concat (map (entry_bytes \<circ> request_entry) ?rs) @ rest)))
       [''binary_test.log'', ''out.txt''] parser_boot = (code, written, s')"
    by (rule prod_cases3)
  ultimately show ?thesis
    using tool_on_requests [of ?rs rest "''binary_test.log''"] rest
    by (simp only: run case_prod_conv is_option_def) (auto simp del: upt_Suc request_entry.simps)
qed

text \<open>The file of the comprehensive test goes through the tool as well: all 64 entries are valid.\<close>

theorem comprehensive_test_to_tool:
  assumes "\<And>i. 20 \<le> room i"
  shows "case comprehensive_main True room local_entry test_boot of (code, file, t) \<Rightarrow>
    case main (tool_files ''comprehensive_test.bin'' file) [''comprehensive_test.bin'', ''out.txt''] parser_boot of
      (code', output, s') \<Rightarrow>
        code' = 0 \<and> output \<noteq> None \<and> unat (total_entries_parsed (log_parser_get_stats s')) = 64 \<and>
        unat (valid_entries (log_parser_get_stats s')) = 64 \<and>
        corrupted_entries (log_parser_get_stats s') = 0 \<and> unknown_messages (log_parser_get_stats s') = 0"
proof -
  let ?rs = "tag_type_requests @ message_type_requests @ scenario_requests @ boundary_requests @
      map diverse_request [0..<32]"
  have len: "length ?rs = 64"
    by (simp add: tag_type_requests_def message_type_requests_def scenario_requests_def boundary_requests_def)
  have range: "list_all in_range ?rs"
    using requests_in_range by (simp add: all_requests_def del: in_range.simps)
  obtain t where run: "comprehensive_main True room local_entry test_boot =
      (0, Some (concat (map (entry_bytes \<circ> request_entry) ?rs)), t)"
    using comprehensive_run [of room local_entry] assms by blast
  show ?thesis
    using tool_on_requests [OF range, of "[]" "''comprehensive_test.bin''"] len
    by (auto simp: run case_prod_unfold is_option_def simp del: request_entry.simps)
qed

end
