(* ===== verification/Module_Tests.thy ===== *)
theory Module_Tests
  imports Ipc_Batch Logger_Service Log_Files
begin

text \<open>
  The test programs of the IPC library and of several modules together: tests/ipc_test.c and
  tests/module_integration_test.c.  What is printed is not modelled.  The answers of \<open>malloc\<close> and
  the contents of variables that are not initialised are arguments.
\<close>

section \<open>ipc_test.c\<close>

record ipc_test_state =
  g_received_messages :: u32
  g_test_passed :: u32
  g_test_failed :: u32

text \<open>The size of \<open>test_message_t\<close>: a number, four bytes of padding, a time stamp and 32 characters.\<close>

definition test_message_size :: u64 where "test_message_size = 48"

definition test_message_callback :: "u8 list option \<Rightarrow> u64 \<Rightarrow> ipc_test_state \<Rightarrow> ipc_test_state" where
  "test_message_callback message sz t =
     (if message = None \<or> sz < test_message_size then t\<lparr>g_test_failed := g_test_failed t + 1\<rparr>
      else t\<lparr>g_received_messages := g_received_messages t + 1\<rparr>)"

text \<open>A test returns -1, or counts itself and returns 0.\<close>

definition test_pass :: "ipc_test_state \<Rightarrow> int \<times> ipc_test_state" where
  "test_pass t = (0, t\<lparr>g_test_passed := g_test_passed t + 1\<rparr>)"

definition valid_topics :: "string list" where
  "valid_topics = [''system/logging/info'', ''system/logging/error'', ''system/monitor/status'',
     ''application/vehicle/control'']"

definition invalid_topics :: "string list" where
  "invalid_topics = ['''', ''invalid/topic/with/too/many/levels'', ''no_slashes'', ''/leading/slash'',
     ''trailing/slash/'', ''system/status'']"

definition test_topic_validation :: "ipc_test_state \<Rightarrow> int \<times> ipc_test_state" where
  "test_topic_validation t =
     (if list_ex (\<lambda>topic. ipc_validate_topic (Some topic) \<noteq> IPC_TOPIC_VALID) valid_topics then (-1, t)
      else if list_ex (\<lambda>topic. ipc_validate_topic (Some topic) = IPC_TOPIC_VALID) invalid_topics then (-1, t)
      else test_pass t)"

text \<open>Whether each \<open>malloc\<close> of the program succeeds, the block it returns for the messages of the
  batch, and the local message before it is filled: its padding and its characters.\<close>

record ipc_test_env =
  te_publisher :: bool
  te_subscriber :: bool
  te_batch :: bool
  te_block :: "u64 \<Rightarrow> u8 list option"
  te_second_publisher :: bool
  te_padding :: "u8 list"
  te_characters :: "u8 list"

definition test_publisher_creation :: "ipc_test_env \<Rightarrow> ipc_test_state \<Rightarrow> int \<times> ipc_test_state" where
  "test_publisher_creation env t =
     (case ipc_create_publisher (te_publisher env) (Some ''system/logging/info'') of
        None \<Rightarrow> (-1, t)
      | Some p \<Rightarrow>
          if fst (ipc_publisher_get_stats (Some p) True) \<noteq> 0 then (-1, t)
          else if ipc_create_publisher True None \<noteq> None then (-1, t)
          else test_pass t)"

definition test_subscriber_creation :: "ipc_test_env \<Rightarrow> ipc_test_state \<Rightarrow> int \<times> ipc_test_state" where
  "test_subscriber_creation env t =
     (case ipc_create_subscriber (te_subscriber env) (Some ''system/logging/info'') (Some 0) None of
        None \<Rightarrow> (-1, t)
      | Some s \<Rightarrow>
          if fst (ipc_subscriber_get_stats (Some s) True) \<noteq> 0 then (-1, t)
          else if ipc_create_subscriber True None (Some 0) None \<noteq> None then (-1, t)
          else if ipc_create_subscriber True (Some ''system/logging/info'') None None \<noteq> None then (-1, t)
          else test_pass t)"

text \<open>The bytes of the local message in round \<open>i\<close>: \<open>snprintf\<close> overwrites the start of the
  characters.\<close>

definition test_characters :: "nat \<Rightarrow> u8 list \<Rightarrow> u8 list" where
  "test_characters i chars = store_at 0 (ascii (''Test message '' @ dec i) @ [0]) chars"

definition test_message_bytes :: "u8 list \<Rightarrow> nat \<Rightarrow> u8 list \<Rightarrow> u8 list" where
  "test_message_bytes padding i chars =
     le32 (word_of_nat i) @ padding @ (le32 (word_of_nat i * 1000) @ [0, 0, 0, 0]) @ chars"

text \<open>The loop that adds messages; None when an addition fails.\<close>

fun add_test_messages :: "u8 list \<Rightarrow> nat list \<Rightarrow> u8 list \<Rightarrow> ipc_batch_t option \<Rightarrow> ipc_batch_t option option" where
  "add_test_messages padding [] chars batch = Some batch"
| "add_test_messages padding (i # is) chars batch =
     (let chars' = test_characters i chars;
          (r, batch') = ipc_batch_add_message batch (Some (test_message_bytes padding i chars'))
      in if r \<noteq> 0 then None else add_test_messages padding is chars' batch')"

definition test_batch_messaging :: "ipc_test_env \<Rightarrow> ipc_test_state \<Rightarrow> int \<times> ipc_test_state" where
  "test_batch_messaging env t =
     (case ipc_create_batch (te_block env) (te_batch env) test_message_size 10 of
        None \<Rightarrow> (-1, t)
      | Some b \<Rightarrow>
          case add_test_messages (te_padding env) [0..<5] (te_characters env) (Some b) of
            None \<Rightarrow> (-1, t)
          | Some batch \<Rightarrow>
              if fst (ipc_batch_get_stats batch True True) \<noteq> 0 then (-1, t)
              else if ipc_batch_get_efficiency batch < 0 then (-1, t)
              else
                let (r, batch') = ipc_batch_clear batch
                in if r \<noteq> 0 then (-1, t)
                   else if ipc_batch_get_count batch' \<noteq> 0 then (-1, t)
                   else test_pass t)"

definition test_subscriber_count :: "ipc_test_state \<Rightarrow> int \<times> ipc_test_state" where
  "test_subscriber_count t =
     (if ipc_get_subscriber_count (Some ''nonexistent/topic'') < 0 then (-1, t)
      else if ipc_topic_has_subscribers (Some ''system/logging/info'') < 0 then (-1, t)
      else test_pass t)"

text \<open>The test is counted as passed when its publisher cannot be created.\<close>

definition test_error_handling :: "ipc_test_env \<Rightarrow> ipc_test_state \<Rightarrow> int \<times> ipc_test_state" where
  "test_error_handling env t =
     (let test = ascii ''test'' @ [0] in
      if fst (ipc_publish None (Some test) 4) \<noteq> -1 then (-1, t)
      else
        case ipc_create_publisher (te_second_publisher env) (Some ''system/logging/info'') of
          None \<Rightarrow> test_pass t
        | Some p \<Rightarrow>
            (case ipc_publish (Some p) None 4 of
               (r, p1) \<Rightarrow>
                 if r \<noteq> -1 then (-1, t)
                 else if fst (ipc_publish p1 (Some test) 0) \<noteq> -1 then (-1, t)
                 else test_pass t))"

text \<open>Running one test of the suite: a failure sets the result and is counted.\<close>

definition run_test ::
  "(ipc_test_state \<Rightarrow> int \<times> ipc_test_state) \<Rightarrow> int \<times> ipc_test_state \<Rightarrow> int \<times> ipc_test_state" where
  "run_test test p =
     (case p of (overall_result, t) \<Rightarrow>
        case test t of
          (r, t1) \<Rightarrow> if r \<noteq> 0 then (-1, t1\<lparr>g_test_failed := g_test_failed t1 + 1\<rparr>) else (overall_result, t1))"

definition ipc_test_main :: "ipc_test_env \<Rightarrow> int \<times> ipc_test_state" where
  "ipc_test_main env =
     fold run_test
       [test_topic_validation, test_publisher_creation env, test_subscriber_creation env,
        test_batch_messaging env, test_subscriber_count, test_error_handling env]
       (0, \<lparr>g_received_messages = 0, g_test_passed = 0, g_test_failed = 0\<rparr>)"

section \<open>The outcome of the IPC test\<close>

lemma topic_validation_passes: "test_topic_validation t = test_pass t"
proof -
  have "\<not> list_ex (\<lambda>topic. ipc_validate_topic (Some topic) \<noteq> IPC_TOPIC_VALID) valid_topics"
    "\<not> list_ex (\<lambda>topic. ipc_validate_topic (Some topic) = IPC_TOPIC_VALID) invalid_topics"
    by code_simp+
  then show ?thesis by (simp add: test_topic_validation_def)
qed

lemma info_topic_valid: "ipc_validate_topic (Some ''system/logging/info'') = IPC_TOPIC_VALID"
  by code_simp

lemma publisher_creation_outcome:
  "test_publisher_creation env t = (if te_publisher env then test_pass t else (-1, t))"
  by (simp add: test_publisher_creation_def ipc_create_publisher_def info_topic_valid IPC_TOPIC_MAX_LENGTH_def
      sys_ipc_register_topic_def ipc_publisher_get_stats_def)

lemma subscriber_creation_outcome:
  "test_subscriber_creation env t = (if te_subscriber env then test_pass t else (-1, t))"
  by (simp add: test_subscriber_creation_def ipc_create_subscriber_def info_topic_valid IPC_TOPIC_MAX_LENGTH_def
      sys_ipc_subscribe_def ipc_subscriber_get_stats_def)

lemma batch_add_room:
  assumes "unat (ib_message_count b) < unat (ib_max_messages b)"
  shows "\<exists>b'. batch_add (Some m) b = (0, b') \<and> ib_max_messages b' = ib_max_messages b \<and>
    unat (ib_message_count b') = Suc (unat (ib_message_count b))"
proof -
  have "unat (ib_message_count b + 1) = Suc (unat (ib_message_count b))"
    using assms unat_lt_u32 [of "ib_max_messages b"] by (intro unat_inc) simp
  then show ?thesis
    using assms by (simp add: batch_add_def Let_def word_le_nat_alt)
qed

lemma add_test_messages_room:
  assumes "unat (ib_message_count b) + length is \<le> unat (ib_max_messages b)"
  shows "\<exists>b'. add_test_messages padding is chars (Some b) = Some (Some b')"
  using assms
proof (induction "is" arbitrary: chars b)
  case (Cons i "is")
  then have "unat (ib_message_count b) < unat (ib_max_messages b)" by simp
  from batch_add_room [OF this, of "test_message_bytes padding i (test_characters i chars)"] obtain b' where
    b': "batch_add (Some (test_message_bytes padding i (test_characters i chars))) b = (0, b')"
    "ib_max_messages b' = ib_max_messages b" "unat (ib_message_count b') = Suc (unat (ib_message_count b))"
    by blast
  then have "unat (ib_message_count b') + length is \<le> unat (ib_max_messages b')"
    using Cons.prems by simp
  from Cons.IH [OF this] b'(1) show ?case
    by (simp add: ipc_batch_add_message_def)
qed simp

lemma efficiency_not_negative: "\<not> ipc_batch_get_efficiency (Some b) < 0"
proof -
  have "0 \<le> float_of_uint (ib_message_count b)"
    unfolding float_of_uint_def by (rule float_round_nonneg, rule of_nat_0_le_iff)
  then show ?thesis by (simp add: ipc_batch_get_efficiency_def not_less)
qed

lemma add_test_messages_Some:
  "add_test_messages padding is chars (Some b) = Some batch \<Longrightarrow> batch \<noteq> None"
  by (induction "is" arbitrary: chars b)
     (auto simp: ipc_batch_add_message_def Let_def case_prod_unfold split: if_splits)

lemma batch_messaging_outcome:
  "test_batch_messaging env t =
    (if te_batch env \<and> te_block env 480 \<noteq> None then test_pass t else (-1, t))"
proof (cases "te_batch env \<and> te_block env 480 \<noteq> None")
  case False
  then show ?thesis
    by (auto simp: test_batch_messaging_def ipc_create_batch_def test_message_size_def SIZE_MAX_def)
next
  case True
  then obtain block where block: "te_block env 480 = Some block" by auto
  let ?b = "\<lparr>ib_messages = block, ib_message_size = 48, ib_message_count = 0, ib_max_messages = 10,
      ib_error_count = 0\<rparr>"
  have create: "ipc_create_batch (te_block env) (te_batch env) test_message_size 10 = Some ?b"
    using True block by (simp add: ipc_create_batch_def test_message_size_def SIZE_MAX_def)
  obtain b where "add_test_messages (te_padding env) [0..<5] (te_characters env) (Some ?b) = Some (Some b)"
    using add_test_messages_room [of ?b "[0..<5]"] by auto
  then have "test_batch_messaging env t = test_pass t"
    unfolding test_batch_messaging_def create
    by (simp add: efficiency_not_negative ipc_batch_get_stats_def ipc_batch_clear_def
        ipc_batch_get_count_def batch_reset_def del: upt_Suc)
  then show ?thesis using True by simp
qed

lemma subscriber_count_passes: "test_subscriber_count t = test_pass t"
  by (simp add: test_subscriber_count_def ipc_get_subscriber_count_def ipc_topic_has_subscribers_def)

lemma error_handling_passes: "test_error_handling env t = test_pass t"
  by (simp add: test_error_handling_def ipc_publish_def ipc_publish_on_def pub_fail_def Let_def
      split: option.split)

text \<open>The tests that fail are those whose first allocation fails: at most three, and the test of
  the error handling is never among them.  The counters add up to the six tests, the exit code is 0
  exactly when none failed, and the callback is never called.\<close>

theorem ipc_test_outcome:
  "let failed = (if te_publisher env then 0 else 1) + (if te_subscriber env then 0 else 1) +
                (if te_batch env \<and> te_block env 480 \<noteq> None then 0 else 1)
   in ipc_test_main env =
        (if failed = 0 then 0 else -1,
         \<lparr>g_received_messages = 0, g_test_passed = 6 - failed, g_test_failed = failed\<rparr>)"
  by (cases "te_block env 480"; cases "te_batch env"; cases "te_publisher env"; cases "te_subscriber env")
     (simp_all add: ipc_test_main_def run_test_def topic_validation_passes publisher_creation_outcome
      subscriber_creation_outcome batch_messaging_outcome subscriber_count_passes error_handling_passes
      test_pass_def Let_def)

section \<open>module_integration_test.c\<close>

text \<open>The statics of the modules: those of the log library and of the logger service; the clock of
  the system call library is among the latter.  An assertion that fails aborts the program: None.\<close>

record module_state =
  ms_log :: log_system
  ms_logger :: logger_state

definition module_boot :: module_state where
  "module_boot = \<lparr>ms_log = log_system_boot, ms_logger = logger_boot\<rparr>"

definition c_assert :: "bool \<Rightarrow> 'a \<Rightarrow> 'a option" where
  "c_assert condition continue = (if condition then Some continue else None)"

definition test_system_errors :: "module_state \<Rightarrow> module_state option" where
  "test_system_errors m =
     c_assert (system_error_is_critical (Some (system_error_create ERR_SYS_NOT_INIT ERROR_CATEGORY_SAFETY
       ERROR_SEVERITY_CRITICAL MODULE_ID_LOGGING))) m"

text \<open>\<open>LOGGER_SERVICE_PID\<close> of logger_service.h.\<close>

definition LOGGER_SERVICE_PID :: u16 where "LOGGER_SERVICE_PID = 100"

text \<open>The two local variables keep what they hold when the call does not store into them.\<close>

definition test_system_calls :: "u16 \<Rightarrow> u16 \<Rightarrow> module_state \<Rightarrow> module_state option" where
  "test_system_calls local_pid local_service_pid m =
     (let (_, _, clock) = sys_time_get_us (ls_clock (ms_logger m)) True;
          m1 = m\<lparr>ms_logger := (ms_logger m)\<lparr>ls_clock := clock\<rparr>\<rparr>;
          pid = (case snd (sys_getpid True) of None \<Rightarrow> local_pid | Some p \<Rightarrow> p);
          service_pid = (case snd (sys_service_lookup (Some ''system/logger'') True) of
                           None \<Rightarrow> local_service_pid | Some p \<Rightarrow> p)
      in Option.bind (c_assert (0 < pid) m1) (c_assert (service_pid = LOGGER_SERVICE_PID)))"

definition test_logging_integration :: "module_state \<Rightarrow> module_state" where
  "test_logging_integration m =
     (let s1 = snd (log_system_init_safe (ms_log m));
          s2 = snd (record_call (LOG_LEVEL_INFO, LOG_TAG_SYSTEM, LOG_MSG_SYSTEM_START, 0, 0) s1)
      in m\<lparr>ms_log := s2\<rparr>)"

definition test_service_integration :: "module_state \<Rightarrow> module_state" where
  "test_service_integration m =
     m\<lparr>ms_logger := snd (logger_service_get_status (snd (logger_service_init (ms_logger m))))\<rparr>"

definition integration_error_boundary_conditions :: "module_state \<Rightarrow> module_state" where
  "integration_error_boundary_conditions m =
     (case sys_time_get_us (ls_clock (ms_logger m)) False of
        (_, _, clock) \<Rightarrow> m\<lparr>ms_logger := (ms_logger m)\<lparr>ls_clock := clock\<rparr>\<rparr>)"

text \<open>A test that \<open>main\<close> does not call; the result tells whether it reports success.\<close>

definition integration_safety_error_handling :: bool where
  "integration_safety_error_handling =
     (let error = system_error_create ERR_SAFE_CRITICAL_NULL ERROR_CATEGORY_SAFETY ERROR_SEVERITY_CRITICAL
                    MODULE_ID_SYSCALL
      in if error_code error \<noteq> ERR_SAFE_CRITICAL_NULL then False
         else if category error \<noteq> ERROR_CATEGORY_SAFETY then False
         else if severity error \<noteq> ERROR_SEVERITY_CRITICAL then False
         else True)"

definition module_integration_main :: "u16 \<Rightarrow> u16 \<Rightarrow> module_state \<Rightarrow> (int \<times> module_state) option" where
  "module_integration_main local_pid local_service_pid m =
     Option.bind (test_system_errors m) (\<lambda>m1.
     Option.bind (test_system_calls local_pid local_service_pid m1) (\<lambda>m2.
       Some (0, integration_error_boundary_conditions
                  (test_service_integration (test_logging_integration m2)))))"

text \<open>The integration test returns 0 from every state of the modules.  It leaves the log with its one
  entry, the logger service running with its status up to date, and the clock two readings later.
  The test of the error fields would succeed too, but nothing calls it.\<close>

theorem module_integration_outcome:
  "\<exists>m'. module_integration_main local_pid local_service_pid m = Some (0, m') \<and>
    drain lb_get 64 (g_log_buffer (ms_log m')) = [new_entry 0 0 LOG_LEVEL_INFO LOG_TAG_SYSTEM LOG_MSG_SYSTEM_START 0 0] \<and>
    ls_service_running (ms_logger m') \<and> g_last_status (ms_logger m') = status_now (ms_logger m') \<and>
    ls_clock (ms_logger m') = ls_clock (ms_logger m) + 2000 \<and> integration_safety_error_handling"
proof -
  let ?r = "(LOG_LEVEL_INFO, LOG_TAG_SYSTEM, LOG_MSG_SYSTEM_START, 0, 0) :: record_request"
  define s1 where "s1 = snd (log_system_init_safe (ms_log m))"
  define s2 where "s2 = snd (record_call ?r s1)"
  have s1: "g_log_system_initialized s1" "lb_filled (g_log_buffer s1)" "lb_view (g_log_buffer s1) = []"
    using lb_filled_init lb_view_init by (simp_all add: s1_def) (simp add: log_system_init_safe_def)
  have "weight (last_n 64 (lb_view (g_log_buffer s1) @ [request_entry ?r])) \<le> 65280"
    using weight_le [of "[request_entry ?r]"] by (simp add: s1(3) last_n_def del: request_entry.simps)
  from buffer_put_filled [OF s1(2) this] record_call_put [of ?r s1] s1(1,3)
  have s2: "lb_ring (g_log_buffer s2)" "lb_view (g_log_buffer s2) = [request_entry ?r]"
    by (simp_all add: s2_def lb_filled_def last_n_def del: request_entry.simps)
  then have log: "drain lb_get 64 (g_log_buffer s2) = [request_entry ?r]"
    by (simp add: lb_read.drain_view del: request_entry.simps)
  show ?thesis
    using log
    by (simp add: module_integration_main_def test_system_errors_def test_system_calls_def c_assert_def
        test_logging_integration_def test_service_integration_def integration_error_boundary_conditions_def
        integration_safety_error_handling_def logger_service_init_def logger_service_get_status_def
        sys_time_get_us_def sys_getpid_def sys_service_lookup_def sys_ipc_register_topic_def Let_def
        LOGGER_SERVICE_PID_def system_error_is_critical_def status_now_def total_entries_def
        del: record_call.simps flip: s1_def s2_def)
qed

end
