(* ===== verification/Spec2Isabelle.thy ===== *)
theory Spec2Isabelle
  imports Ipc_PubSub Ipc_Priority Ipc_Batch Log_Core Log_Client Log_Storage Logger_Service Kernel_Ipc
    Kernel_Scheduler Kernel_Time Kernel_Interrupt Kernel_Watchdog Kernel_Syscall System_Monitor Log_Parser_Main
    Kernel_Boot Scheduler_Feasibility Kernel_Preemption Alloc_Preemption Log_Protocol
    Log_Tests Shipped_Databases Log_Files Module_Tests
begin

text \<open>
  AutoMLOS is a small real-time operating system in C for vehicles, with a tool that reads its
  binary logs.  This library models its code under src/ and proves what the code does, on every
  branch; where that is not what the code is meant to do, the property says so.

  \<^bold>\<open>Parts.\<close>  User programs reach the kernel through system calls (kernel/core/syscall.c, with the
  stubs of lib/libsyscall).  The kernel consists of a pool allocator (kernel/core/memory.c), message
  routing over a shared buffer (ipc.c), a priority scheduler (scheduler.c), the interrupt controller
  (interrupt.c), the time base over three clock sources (lib/time/time.c, on the drivers of
  platform/bsp), a watchdog registry (lib/watchdog) and the phased start (kernel.c).  Above it are
  topic-based messaging (lib/libipc), binary logging (lib/logging), the logger and system monitor
  services (services), and the log parser (tools/log_parser).  A log entry is made by the log client,
  published on the logging topic, stored by the logger service, and read offline by the parser.

  \<^bold>\<open>Theories.\<close>
  \<^item> \<open>Auto_Prelude\<close>: machine integers and their bytes, lists and maps, runs of operations, and the
    locales for the contracts that several parts share: \<open>accounted_operation\<close> (every call is counted
    as a success or an error), \<open>bounded_buffer\<close> with \<open>overwriting_fifo\<close>, \<open>rejecting_fifo\<close> and,
    together with \<open>readable_buffer\<close>, \<open>drainable_buffer\<close>.  They are interpreted on the publisher, the log buffer, the early buffer, the
    level buffers of the logger and the batches.
  \<^item> \<open>C_Float\<close>: the type float of C, as rational numbers with rounding; its lemmas bound the error of
    each operation, of sums and of quotients.
  \<^item> \<open>System_Errors\<close>: lib/safety/system_errors, the error value that every operation returns.
  \<^item> \<open>Ipc_Topics\<close>, \<open>Lib_Syscall\<close>, \<open>Ipc_PubSub\<close>, \<open>Ipc_Priority\<close>, \<open>Ipc_Batch\<close>: lib/libipc and
    lib/libsyscall.
  \<^item> \<open>Log_Core\<close>, \<open>Log_Client\<close>, \<open>Log_Storage\<close>: lib/logging; \<open>Logger_Service\<close>: services/logger;
    \<open>Log_Protocol\<close>: the packed messages that both declare, compared.
  \<^item> \<open>Kernel_Memory\<close>, \<open>Kernel_Ipc\<close>, \<open>Kernel_Scheduler\<close>, \<open>Kernel_Interrupt\<close>, \<open>Kernel_Syscall\<close>,
    \<open>Kernel_Boot\<close>: the file of kernel/core with that name, and kernel.c for the last one.
    \<open>Scheduler_Feasibility\<close>: the admission test of scheduler.c against exact arithmetic.
    \<open>Kernel_Preemption\<close> and \<open>Alloc_Preemption\<close>: operations of log_client.c, interrupt.c, memory.c and
    ipc.c as sequences of accesses (a \<open>memcpy\<close> byte by byte, the critical sections of interrupt.c as
    the empty functions that they are), with an interrupt between any two of them, over the locale
    \<open>stepwise_operation\<close>.
  \<^item> \<open>Hw_Platform\<close>: platform/bsp; \<open>Kernel_Time\<close>: lib/time; \<open>Kernel_Watchdog\<close>: lib/watchdog.
  \<^item> \<open>System_Monitor\<close>: services/system_monitor/system_monitor.c.
  \<^item> \<open>Log_Parser\<close> and \<open>Log_Parser_Main\<close>: log_parser.c and main.c of tools/log_parser.
  \<^item> \<open>Log_Tests\<close> and \<open>Module_Tests\<close>: the test programs of src/tests (log_test.c and
    comprehensive_log_test.c; ipc_test.c and module_integration_test.c), run on the model.
  \<^item> \<open>Shipped_Databases\<close>: formats.db and tags.db, and what the parser makes of them; \<open>Log_Files\<close>:
    tests/binary_log_generator.c, the committed file comprehensive_test.bin, and what the tool prints
    of such files.
  \<^item> this theory: the properties that span the parts, from a log call to a line of the parser, and
    what the start of the kernel logs.

  \<^bold>\<open>Correspondence.\<close>  A definition has the name of the C function it translates, and a smaller
  definition that a function uses is a part of that function.  Structures are records whose fields
  carry a short prefix; the static variables of a file are one record, passed and returned.
  Integers are words of the width in C, so all arithmetic wraps as in C; \<open>size_t\<close> has 64 bits, and an
  enumeration that the code compares with a bound is a word.  A pointer that may be NULL is an
  option.  What a function writes through a pointer is part of its result, as are the log calls,
  callbacks, deliveries and other effects, in order.  The start, the scheduler's loop, \<open>kernel_main\<close> and the
  monitor's health update read the clock of \<open>Kernel_Time\<close> or the timer of \<open>Hw_Platform\<close>; the readings of
  other functions, success of \<open>malloc\<close> and answers of functions that no file of the repository
  defines are arguments.  The bytes of memory
  are modelled where the code depends on them: the heap with its bitmaps, the images of log entries,
  the blocks of a batch, the stores of the system calls.  A call that does not return is None, in its
  callers too; the endless loops of the scheduler and of \<open>kernel_main\<close> are given by the events that they
  cause.

  \<^bold>\<open>Lemma groups.\<close>  For each buffer, an invariant, its preservation, and the refinement of a bounded
  list (overwriting, rejecting or draining), from which runs of any length follow.  For the
  allocator, the invariant relates counters, bitmaps and layout; allocation and release refine
  operations on sets of free blocks.  For the scheduler, selection equals a reference definition,
  a view of the table reduces a round to one step, and the reachable states of the whole scheduler
  are an inductive set, as are those of the watchdog registry, the storage adapter and the monitor.
  For the time base, fuel induction shows that readings and delays diverge; from this follow the
  single round of the scheduler, the main loop that feeds no watchdog and the health update that
  stops with its first self check.  For topics, validation is
  equivalent to the naming convention.  For the parser, decoding inverts the byte images of entries.  For the admission test, a relation between computed and exact numbers is carried through
  the roundings, and the test is compared with the exact bound from both sides.  For interrupts,
  each step sequence refines its operation, and every position of an interrupt is described.  For the
  start, each phase is described by its outcome, and the composition shows that every start hangs or
  ends with an error.
  For the test programs, each step is given by its effect on the counters and the contents of the
  log, so that a run is a composition of these lemmas.  The committed comprehensive_test.bin checks
  the model from outside: the modelled generator writes it byte for byte, once the message numbers
  are those from before the interrupt messages were inserted.

  \<^bold>\<open>Fuel and bounds.\<close>  \<open>kernel_time_get_tick_count\<close> and \<open>validate_time_sources\<close> call each other; a
  unit of fuel is one call, and None is an open call chain.  One unit suffices when the active source
  is not initialised, and no amount does when it is; both are theorems, so fuel hides nothing.  The
  busy-wait loop of the delay has a second bound, on its rounds.  All other loops are structural
  recursion or have a termination proof.  The function \<open>powf\<close> is assumed accurate to 2^-16 on the
  arguments of the program, where libraries promise 2^-23.  \<open>memcpy\<close> is assumed to copy each byte once, in
  any order.  A bound limits the rounds of the scheduler's loop and of \<open>kernel_main\<close>; the theorems hold for
  every bound, and show that the scheduler makes at most one round.  The loop of the logger is given the list
  of its messages.

  \<^bold>\<open>Not modelled.\<close>  Output to a terminal; interrupts in the middle of other operations than the
  five of \<open>Kernel_Preemption\<close> and \<open>Alloc_Preemption\<close>, and nested interrupts; infinities of float, which no value of the
  program reaches;
  services/system_monitor/time_service.h, which declares functions that no file defines; the empty
  logger_config files; scripts and documents.  Database files are taken to hold no NUL byte
  and numbers that fit the C types.  Several files do not compile as they stand, because constants,
  types or functions are missing or defined twice; the missing ones are parameters
  (\<open>monitor_codes\<close>, \<open>kernel_services\<close>, \<open>boot_params\<close>), and of two definitions each theory uses the one
  of its own file (the start of the kernel reads the clock of time.c).  Of the two functions
  \<open>scheduler_use_idle_process\<close> the first is modelled; the second is empty.
\<close>

section \<open>From a log call to a line of the parser\<close>

text \<open>The condition under which the client makes an entry of a call, and the entry.\<close>

definition call_in_range :: "log_call \<Rightarrow> bool" where
  "call_in_range c \<longleftrightarrow> unat (lc_level c) < 4 \<and> unat (lc_tag c) < 9 \<and> unat (lc_msg c) < 18"

definition call_entry :: "log_call \<Rightarrow> log_entry_binary_t" where
  "call_entry c = new_entry 0 0 (lc_level c) (lc_tag c) (lc_msg c) (lc_data1 c) (lc_data2 c)"

definition logging_params :: "boot_params \<Rightarrow> bool" where
  "logging_params p \<longleftrightarrow> bp_env p = mock_env \<and> bp_verify p = (\<lambda>e. log_verify_entry_integrity_safe (Some e))"

lemma send_log_published:
  assumes "logging_params p" "g_log_publisher (k_log k) = Some pub"
  shows "k_published (snd (send_log p c k)) =
      k_published k @ (if call_in_range c then [entry_bytes (call_entry c)] else []) \<and>
    g_log_publisher (k_log (snd (send_log p c k))) \<noteq> None"
  using send_entry_published [of "bp_verify p", OF _ assms(2)] assms
  by (simp add: send_log_def logging_params_def call_in_range_def call_entry_def)

lemma send_logs_published:
  assumes "logging_params p" "g_log_publisher (k_log k) \<noteq> None"
  shows "k_published (send_logs p cs k) = k_published k @ map (\<lambda>c. entry_bytes (call_entry c)) (filter call_in_range cs)"
  using assms(2)
proof (induction cs arbitrary: k)
  case (Cons c cs)
  then obtain pub where "g_log_publisher (k_log k) = Some pub" by auto
  from send_log_published [OF assms(1) this, of c] Cons.IH [of "snd (send_log p c k)"]
  show ?case by simp
qed simp

lemma call_entry_made:
  "call_in_range c \<Longrightarrow> log_create_entry mock_env True (lc_level c) (lc_tag c) (lc_msg c) (lc_data1 c) (lc_data2 c) =
    (log_ok, Some (call_entry c))"
  by (simp add: call_in_range_def call_entry_def log_create_entry_def log_safety_checks_def LOG_LEVEL_COUNT_def
      LOG_TAG_COUNT_def LOG_MSG_COUNT_def mock_env_def mock_sys_getpid_def mock_time_get_us_def not_le)

text \<open>C7: What the log client publishes is what the parser prints: the messages of any sequence of log
  calls, written to a file one after the other, are read back as exactly the calls with a level, a
  tag and a message number in range, in their order, each valid and none corrupted or unknown.  A
  message at the end of the file that was cut short changes nothing.
\<close>

theorem published_calls_are_parsed:
  assumes "logging_params p" "g_log_publisher (k_log k) \<noteq> None" "k_published k = []"
    and "length (filter call_in_range cs) < 2 ^ 32" "length rest < 20"
  shows "case log_parser_process_file (Some (concat (k_published (send_logs p cs k)) @ rest)) True OUTPUT_FORMAT_TEXT
      (parser_boot\<lparr>g_format_db := formats, g_tag_db := tags\<rparr>) of (r, out, s') \<Rightarrow>
    r = 0 \<and>
    out = rendered (format_plain (parser_boot\<lparr>g_format_db := formats, g_tag_db := tags\<rparr>))
            (map call_entry (filter call_in_range cs)) \<and>
    unat (total_entries_parsed (g_parser_stats s')) = length (filter call_in_range cs) \<and>
    unat (valid_entries (g_parser_stats s')) = length (filter call_in_range cs) \<and>
    corrupted_entries (g_parser_stats s') = 0 \<and> unknown_messages (g_parser_stats s') = 0"
proof -
  have made: "\<exists>env l t m a b err. log_create_entry env True l t m a b = (err, Some e)"
    if "e \<in> set (map call_entry (filter call_in_range cs))" for e
    using that call_entry_made by fastforce
  show ?thesis
    using logger_files_are_valid [where es = "map call_entry (filter call_in_range cs)" and formats = formats
        and tags = tags, OF made] assms(3-5)
    by (simp add: send_logs_published [OF assms(1,2)] comp_def)
qed

lemma published_calls_are_parsed_witness:
  "case log_parser_process_file (Some (concat (k_published (send_logs example_params
      [mk_log_call 1 1 2 3 4, mk_log_call 1 100 2 3 4] logging_kernel)) @ [0, 0, 0])) True OUTPUT_FORMAT_TEXT
      (parser_boot\<lparr>g_format_db := [], g_tag_db := []\<rparr>) of (r, out, s') \<Rightarrow>
    r = 0 \<and> unat (valid_entries (g_parser_stats s')) = 1"
proof -
  have f: "filter call_in_range [mk_log_call 1 1 2 3 4, mk_log_call 1 100 2 3 4] = [mk_log_call 1 1 2 3 4]"
    by (simp add: call_in_range_def mk_log_call_def)
  have "logging_params example_params" "g_log_publisher (k_log logging_kernel) \<noteq> None" "k_published logging_kernel = []"
    by (simp_all add: logging_params_def example_params_def logging_kernel_def kernel_boot_def)
  note run = published_calls_are_parsed [OF this, of "[mk_log_call 1 1 2 3 4, mk_log_call 1 100 2 3 4]" "[0, 0, 0]" "[]" "[]"]
  from run [unfolded f] show ?thesis by (simp add: case_prod_unfold)
qed

section \<open>What the start of the kernel logs\<close>

lemma time_log_out_of_range: "\<not> call_in_range (time_log l m a b)"
  by (simp add: call_in_range_def time_log_def mk_log_call_def)

lemma init_sources_logs: "list_all (\<lambda>c. \<not> call_in_range c) (snd (init_sources st s))"
  by (simp add: init_sources_def init_primary_time_source_def init_secondary_time_source_def
      init_software_time_source_def case_prod_unfold Let_def time_log_out_of_range)

lemma fail_sources_logs: "list_all (\<lambda>c. \<not> call_in_range c) (snd (fail_sources srcs s))"
  by (induction srcs arbitrary: s) (simp_all add: case_prod_unfold Let_def fail_source_def time_log_out_of_range)

text \<open>No message of the time base is ever logged: the calls of its initialisation and of every
  validation of its sources, the failures and switches of sources among them, use a tag that the
  log client refuses, so they publish nothing.
\<close>

theorem time_messages_are_lost:
  assumes "logging_params p" "g_log_publisher (k_log k) \<noteq> None"
  shows "k_published (send_logs p (snd (init_sources self_test s)) k) = k_published k \<and>
    k_published (send_logs p (snd (snd (validate_at t s))) k) = k_published k"
proof -
  have "list_all (\<lambda>c. \<not> call_in_range c) (snd (snd (validate_at t s)))"
    using fail_sources_logs
    by (auto simp: validate_at_def Let_def case_prod_unfold check_drift_def switch_source_def
        time_log_out_of_range split: option.split)
  then show ?thesis
    using init_sources_logs [of self_test s]
    by (simp add: send_logs_published [OF assms] filter_empty_conv list_all_iff)
qed

lemma time_messages_are_lost_witness:
  "k_published (send_logs example_params (snd (init_sources kernel_ok kernel_time_boot)) logging_kernel) = []"
  using time_messages_are_lost [of example_params logging_kernel kernel_ok kernel_time_boot]
  by (simp add: logging_params_def example_params_def logging_kernel_def kernel_boot_def)

lemma send_log_at_boot:
  assumes "k_log k = log_client_boot"
  shows "k_log (snd (send_log p c k)) = log_client_boot \<and> k_published (snd (send_log p c k)) = k_published k"
  using assms
  by (auto simp: send_log_def log_client_send_entry_def send_log_entry_pubsub_def early_log_buffer_store_def
      log_client_boot_def zero_early_buffer_def split: prod.split option.split)

lemma send_logs_at_boot:
  "k_log k = log_client_boot \<Longrightarrow>
    k_log (send_logs p cs k) = log_client_boot \<and> k_published (send_logs p cs k) = k_published k"
  by (induction cs arbitrary: k) (simp_all add: send_log_at_boot)

lemma interrupts_at_boot: "error_code (fst (interrupt_controller_init zero_controller)) = ERR_BASE_OK"
  by code_simp

lemma pure_hardware_at_boot:
  assumes "error_code (bp_self_test p) \<noteq> ERR_SYS_OK"
  shows "\<exists>k. kernel_init_pure_hardware (Suc fuel) p kernel_boot = Some (kernel_ok, k) \<and>
    k_log k = log_client_boot \<and> k_published k = [] \<and> k_ipc k = ipc_boot memory_boot"
proof -
  obtain t logs where t: "init_sources (bp_self_test p) kernel_time_boot = (t, logs)"
    by (cases "init_sources (bp_self_test p) kernel_time_boot")
  have "\<not> source_initialized t (active_source t)" "active_source t \<noteq> TIME_SOURCE_SOFTWARE"
    using init_sources_failed [OF assms] by (simp_all add: t)
  moreover have "\<not> source_initialized kernel_time_boot TIME_SOURCE_PRIMARY" by (simp add: kernel_time_boot_def)
  ultimately obtain t' where time: "kernel_time_init (Suc fuel) (bp_self_test p) kernel_time_boot =
      Some (time_error_success, t', logs)"
    by (simp add: kernel_time_init_def t tick_count_uninitialised del: kernel_time_get_tick_count.simps)
  have boot: "k_time kernel_boot = kernel_time_boot" "k_interrupts kernel_boot = zero_controller"
    "k_log kernel_boot = log_client_boot" "k_published kernel_boot = []" "k_ipc kernel_boot = ipc_boot memory_boot"
    by (simp_all add: kernel_boot_def)
  show ?thesis
    using interrupts_at_boot
    by (simp add: kernel_init_pure_hardware_def boot time time_error_success_def case_prod_unfold send_logs_at_boot)
qed

text \<open>C28: The one message of the start: when the timer fails its self test and the publisher can be
  allocated, the start ends in the second phase with the refusal of the IPC buffer, and all it has
  published is the entry of that phase.
\<close>

theorem start_publishes_one_message:
  assumes "logging_params p" "error_code (bp_self_test p) \<noteq> ERR_SYS_OK" "bp_malloc_ok p"
  shows "\<exists>k. kernel_init (Suc fuel) p kernel_boot = Some (ipc_high ERR_SYS_RESOURCE_UNAVAIL, k) \<and>
    k_phase k = STARTUP_PHASE_HARDWARE \<and>
    k_published k = [entry_bytes (new_entry 0 0 LOG_LEVEL_INFO LOG_TAG_KERNEL 17 1 1)]"
proof -
  obtain k1 where hw: "kernel_init_pure_hardware (Suc fuel) p kernel_boot = Some (kernel_ok, k1)"
    "k_log k1 = log_client_boot" "k_published k1 = []" "k_ipc k1 = ipc_boot memory_boot"
    using pure_hardware_at_boot [OF assms(2)] by blast
  obtain l where l: "log_client_init True log_client_boot = (client_ok, l, [])" "g_log_publisher l \<noteq> None"
    by (simp add: log_client_init_def early_log_buffer_init_def client_ok_def create_logging_publisher
        early_log_buffer_flush_def flush_loop.simps zero_early_buffer_def log_client_boot_def)
  let ?k = "k1\<lparr>k_log := l, k_published := [], k_phase := STARTUP_PHASE_HARDWARE\<rparr>" and ?c = "mk_log_call 2 1 17 1 1"
  obtain pub where pub: "g_log_publisher (k_log ?k) = Some pub" using l(2) by auto
  have c: "call_in_range ?c" "call_entry ?c = new_entry 0 0 2 1 17 1 1"
    by (simp_all add: call_in_range_def call_entry_def mk_log_call_def)
  have sent: "k_published (snd (send_log p ?c ?k)) = [entry_bytes (new_entry 0 0 2 1 17 1 1)]"
    using send_log_published [OF assms(1) pub, of ?c] c by simp
  have "fst (send_log p ?c ?k) = client_ok"
    using send_entry_published [of "bp_verify p", OF _ pub, of 2 1 17 1 1] assms(1)
    by (simp add: send_log_def logging_params_def mk_log_call_def)
  then have send: "send_log p ?c ?k = (client_ok, snd (send_log p ?c ?k))"
    by (cases "send_log p ?c ?k") simp
  have log: "kernel_init_early_logging p k1 = Some (client_ok, snd (send_log p ?c ?k))"
    using l(1) hw(2,3) assms(3) send
    by (simp add: kernel_init_early_logging_def enter_phase_def kernel_log_phase_transition_def client_ok_def)
  have "memory_alloc 65536 (snd (memory_init memory_boot)) = (None, snd (memory_init memory_boot))"
    by (rule shared_buffer_refused, simp add: memory_init_state mem_ok_def, simp add: memory_boot_def)
  then have "\<exists>k3. kernel_init_core_services p (snd (send_log p ?c ?k)) =
      Some (ipc_high ERR_SYS_RESOURCE_UNAVAIL, k3) \<and> k_phase k3 = STARTUP_PHASE_HARDWARE \<and>
      k_published k3 = k_published (snd (send_log p ?c ?k))"
    using hw(4)
    by (simp add: kernel_init_core_services_def case_prod_unfold ipc_boot_def memory_init_state mem_ok_def
        ipc_kernel_init_def memory_alloc_shared_def IPC_SHARED_BUFFER_SIZE_def Let_def)
  then show ?thesis
    using sent by (auto simp: kernel_init_def hw(1) log client_ok_def)
qed

lemma start_publishes_one_message_witness:
  "\<exists>k. kernel_init 1 example_params kernel_boot = Some (ipc_high ERR_SYS_RESOURCE_UNAVAIL, k) \<and>
     k_phase k = STARTUP_PHASE_HARDWARE"
  using start_publishes_one_message [of example_params 0] by (auto simp: logging_params_def example_params_def)

end
